(* ===== verification/Prelude.thy ===== *)
theory Prelude
  imports Main "HOL-Library.AList"
begin

text \<open>
  Shared vocabulary of the development.

  A Go map is an association list whose keys are distinct (\<open>gomap_wf\<close>): the list order is
  the iteration order the runtime happens to choose for \<open>range\<close>, so a theorem that a loop over
  a map does not depend on that order is a statement about two lists with the same \<open>map_of\<close>.
  A nil map and an empty map are both the empty list: \<open>len\<close>, lookup, \<open>range\<close> and
  \<open>omitempty\<close> do not tell them apart.
\<close>

named_theorems gomap_simps "lookup and domain equations of the Go map operations"
named_theorems wf_intros "well-formedness of Go maps"

section \<open>Go maps\<close>

type_synonym ('k, 'v) gomap = "('k \<times> 'v) list"

abbreviation gm_get :: "('k, 'v) gomap \<Rightarrow> 'k \<Rightarrow> 'v option" where
  "gm_get \<equiv> map_of"

abbreviation gm_keys :: "('k, 'v) gomap \<Rightarrow> 'k list" where
  "gm_keys m \<equiv> map fst m"

definition gomap_wf :: "('k, 'v) gomap \<Rightarrow> bool" where
  "gomap_wf m \<longleftrightarrow> distinct (gm_keys m)"

text \<open>\<open>m[k] = v\<close>: an existing key keeps its place, a new one goes last.\<close>

definition gm_put :: "'k \<Rightarrow> 'v \<Rightarrow> ('k, 'v) gomap \<Rightarrow> ('k, 'v) gomap" where
  "gm_put k v m = AList.update k v m"

text \<open>\<open>maps.Copy(dst, src)\<close>: \<open>for k, v := range src { dst[k] = v }\<close>.\<close>

fun maps_Copy :: "('k, 'v) gomap \<Rightarrow> ('k, 'v) gomap \<Rightarrow> ('k, 'v) gomap" where
  "maps_Copy dst [] = dst"
| "maps_Copy dst ((k, v) # src) = maps_Copy (gm_put k v dst) src"

lemma gm_put_get [gomap_simps]: "gm_get (gm_put k v m) = (gm_get m)(k \<mapsto> v)"
  by (simp add: gm_put_def update_conv')

lemma gm_put_dom [gomap_simps]: "fst ` set (gm_put k v m) = insert k (fst ` set m)"
proof -
  have "fst ` set (gm_put k v m) = dom (gm_get (gm_put k v m))"
    by (simp add: dom_map_of_conv_image_fst)
  then show ?thesis by (simp add: gomap_simps dom_map_of_conv_image_fst)
qed

lemma gm_put_wf [wf_intros]: "gomap_wf m \<Longrightarrow> gomap_wf (gm_put k v m)"
  by (simp add: gomap_wf_def gm_put_def distinct_update)

lemma gm_put_not_Nil [simp]: "gm_put k v m \<noteq> []"
  by (simp add: gm_put_def)

lemma gomap_wf_Nil [simp, wf_intros]: "gomap_wf []"
  by (simp add: gomap_wf_def)

lemma gomap_wf_Cons [simp]: "gomap_wf ((k, v) # m) \<longleftrightarrow> k \<notin> fst ` set m \<and> gomap_wf m"
  by (simp add: gomap_wf_def)

lemma maps_Copy_wf [wf_intros]: "gomap_wf dst \<Longrightarrow> gomap_wf (maps_Copy dst src)"
  by (induction dst src rule: maps_Copy.induct) (auto intro: wf_intros)

lemma maps_Copy_get_wf [gomap_simps]:
  "gomap_wf src \<Longrightarrow> gm_get (maps_Copy dst src) = gm_get dst ++ gm_get src"
proof (induction dst src rule: maps_Copy.induct)
  case (1 dst)
  then show ?case by simp
next
  case (2 dst k v src)
  then have "gm_get src k = None"
    by (simp add: map_of_eq_None_iff)
  with 2 show ?case
    by (auto simp: gomap_simps map_add_def fun_eq_iff split: option.split)
qed

lemma maps_Copy_dom [gomap_simps]:
  "fst ` set (maps_Copy dst src) = fst ` set dst \<union> fst ` set src"
  by (induction dst src rule: maps_Copy.induct) (auto simp: gomap_simps)

lemma maps_Copy_eq_Nil [simp]: "maps_Copy dst src = [] \<longleftrightarrow> dst = [] \<and> src = []"
proof -
  have "maps_Copy dst src = [] \<longleftrightarrow> fst ` set (maps_Copy dst src) = {}" by simp
  then show ?thesis by (simp add: gomap_simps)
qed

lemma gm_get_None_keys:
  assumes "gm_keys m = gm_keys m'"
  shows "gm_get m k = None \<longleftrightarrow> gm_get m' k = None"
proof -
  have "gm_get m'' k = None \<longleftrightarrow> k \<notin> set (gm_keys m'')" for m'' :: "('a, 'c) gomap"
    by (simp add: map_of_eq_None_iff)
  moreover have "gm_get m'' k = None \<longleftrightarrow> k \<notin> set (gm_keys m'')" for m'' :: "('a, 'b) gomap"
    by (simp add: map_of_eq_None_iff)
  ultimately show ?thesis using assms by metis
qed

text \<open>Two well-formed lists that agree as maps hold the same entries, in some order.\<close>

lemma gomap_set_eq:
  assumes "gomap_wf m" "gomap_wf m'" "gm_get m = gm_get m'"
  shows "set m = set m'"
proof -
  have "set m = {(k, v). gm_get m k = Some v}" if "gomap_wf m" for m :: "('a, 'b) gomap"
    using that by (auto simp: gomap_wf_def)
  with assms show ?thesis by simp
qed

lemma gomap_keys_set_eq:
  assumes "gm_get m = gm_get m'"
  shows "set (gm_keys m) = set (gm_keys m')"
proof -
  have "set (gm_keys m) = dom (gm_get m)" for m :: "('a, 'b) gomap"
    by (simp add: dom_map_of_conv_image_fst)
  with assms show ?thesis by metis
qed

lemma gomap_length_eq:
  assumes "gomap_wf m" "gomap_wf m'" "gm_get m = gm_get m'"
  shows "length m = length m'"
proof -
  have "length m = card (set (gm_keys m))" if "gomap_wf m" for m :: "('a, 'b) gomap"
    using that by (metis distinct_card gomap_wf_def length_map)
  with assms gomap_keys_set_eq show ?thesis by metis
qed

text \<open>
  Two maps with the same keys whose values are related; with equality, the same map. The test runs
  over the keys, so it evaluates.
\<close>

definition gm_rel :: "('v \<Rightarrow> 'w \<Rightarrow> bool) \<Rightarrow> ('k, 'v) gomap \<Rightarrow> ('k, 'w) gomap \<Rightarrow> bool" where
  "gm_rel R m m' \<longleftrightarrow> list_all (\<lambda>k. rel_option R (gm_get m k) (gm_get m' k)) (gm_keys m @ gm_keys m')"

abbreviation gm_eq :: "('k, 'v) gomap \<Rightarrow> ('k, 'v) gomap \<Rightarrow> bool" where
  "gm_eq \<equiv> gm_rel (=)"

lemma gm_rel_iff: "gm_rel R m m' \<longleftrightarrow> (\<forall>k. rel_option R (gm_get m k) (gm_get m' k))"
proof
  assume rel: "gm_rel R m m'"
  show "\<forall>k. rel_option R (gm_get m k) (gm_get m' k)"
  proof
    fix k
    show "rel_option R (gm_get m k) (gm_get m' k)"
    proof (cases "k \<in> set (gm_keys m @ gm_keys m')")
      case True
      with rel show ?thesis by (auto simp: gm_rel_def list_all_iff)
    next
      case False
      then have "gm_get m k = None" "gm_get m' k = None" by (auto simp: map_of_eq_None_iff)
      then show ?thesis by simp
    qed
  qed
qed (simp add: gm_rel_def list_all_iff)

lemma gm_eq_iff: "gm_eq m m' \<longleftrightarrow> gm_get m = gm_get m'"
  by (auto simp: gm_rel_iff option.rel_eq fun_eq_iff)

lemma gm_get_empty_iff: "gm_get m = Map.empty \<longleftrightarrow> m = []"
  by (cases m) (auto simp: fun_eq_iff split: if_splits)

lemma gm_rel_Nil_iff: "gm_rel R m m' \<Longrightarrow> m = [] \<longleftrightarrow> m' = []"
  by (auto simp: gm_rel_iff gm_get_empty_iff [symmetric] fun_eq_iff)

section \<open>Lists and sums\<close>

text \<open>Last occurrence in a list of key-value pairs: what a sequence of assignments leaves.\<close>

definition last_of :: "('k \<times> 'v) list \<Rightarrow> 'k \<Rightarrow> 'v option" where
  "last_of xs k = map_of (rev xs) k"

lemma last_of_Nil [simp]: "last_of [] k = None"
  by (simp add: last_of_def)

lemma last_of_snoc: "last_of (xs @ [(k', v)]) k = (if k = k' then Some v else last_of xs k)"
  by (simp add: last_of_def)

lemma last_of_Cons:
  "last_of ((k', v) # xs) k =
     (case last_of xs k of None \<Rightarrow> (if k = k' then Some v else None) | Some w \<Rightarrow> Some w)"
  unfolding last_of_def by (simp add: map_add_def split: option.split)

lemma last_of_append: "last_of (xs @ ys) k = (case last_of ys k of None \<Rightarrow> last_of xs k | Some v \<Rightarrow> Some v)"
  unfolding last_of_def by (simp add: map_add_def)

lemma last_of_eq_None: "last_of xs k = None \<longleftrightarrow> k \<notin> fst ` set xs"
  by (simp add: last_of_def map_of_eq_None_iff)

lemma last_of_in_set: "last_of xs k = Some v \<Longrightarrow> (k, v) \<in> set xs"
  unfolding last_of_def by (drule map_of_SomeD) simp

text \<open>Splitting at the first character that does not occur before it.\<close>

lemma append_Cons_inject_first:
  assumes "xs @ c # ys = xs' @ c # ys'" "c \<notin> set xs" "c \<notin> set xs'"
  shows "xs = xs' \<and> ys = ys'"
  using assms
proof (induction xs arbitrary: xs')
  case Nil
  then show ?case by (cases xs') auto
next
  case (Cons x xs)
  then show ?case by (cases xs') auto
qed

lemma append_Cons_inject_last:
  assumes "xs @ c # ys = xs' @ c # ys'" "c \<notin> set ys" "c \<notin> set ys'"
  shows "xs = xs' \<and> ys = ys'"
proof -
  from assms(1) have "rev ys @ c # rev xs = rev ys' @ c # rev xs'"
    by (metis append.assoc append_Cons append_Nil rev.simps(2) rev_append)
  with assms(2,3) have "rev ys = rev ys' \<and> rev xs = rev xs'"
    by (intro append_Cons_inject_first[of _ c]) auto
  then show ?thesis by simp
qed

end
