(* ===== verification/GoStrings.thy ===== *)
theory GoStrings
  imports Prelude "HOL-Library.Char_ord" "HOL-Library.List_Lexorder" "HOL-Library.Word"
begin

text \<open>
  The parts of Go's \<open>strconv\<close>, \<open>fmt\<close> and \<open>sort\<close> that the program uses, on byte strings
  (\<open>string\<close> is a list of 8-bit characters, as a Go string is a sequence of bytes):
  \<open>%d\<close> (\<open>itoa\<close>), \<open>strconv.Atoi\<close> with its syntax and range errors, \<open>%q\<close> (\<open>go_quote\<close>), and
  \<open>sort.Strings\<close>, the bytewise lexicographic order of \<open>List_Lexorder\<close> over \<open>Char_ord\<close>.
  The fixed-width integers of the program are words read as signed values.
\<close>

type_synonym int32 = "32 word"
type_synonym int64 = "64 word"

lemma sint_inject [simp]: "sint v = sint w \<longleftrightarrow> v = (w :: 'a::len word)"
  by (rule word_eq_iff_signed [symmetric])

section \<open>Decimal rendering and parsing\<close>

definition digit_char :: "nat \<Rightarrow> char" where
  "digit_char d = ''0123456789'' ! d"

definition digit_val :: "char \<Rightarrow> nat option" where
  "digit_val c = (let n = (of_char c :: nat) in if 48 \<le> n \<and> n \<le> 57 then Some (n - 48) else None)"

fun utoa :: "nat \<Rightarrow> string" where
  "utoa n = (if n < 10 then [digit_char n] else utoa (n div 10) @ [digit_char (n mod 10)])"

declare utoa.simps [simp del]

definition itoa :: "int \<Rightarrow> string" where
  "itoa i = (if i < 0 then CHR ''-'' # utoa (nat (- i)) else utoa (nat i))"

fun parse_digits :: "nat \<Rightarrow> string \<Rightarrow> nat option" where
  "parse_digits acc [] = Some acc"
| "parse_digits acc (c # cs) =
     (case digit_val c of None \<Rightarrow> None | Some d \<Rightarrow> parse_digits (acc * 10 + d) cs)"

text \<open>
  \<open>strconv.Atoi\<close> on a 64-bit platform: an optional sign, at least one decimal digit, nothing
  else; a value outside the range of \<open>int64\<close> is a range error. Both errors are \<open>None\<close>, since
  the caller only tests \<open>err != nil\<close>.
\<close>

definition Atoi :: "string \<Rightarrow> int option" where
  "Atoi s =
     (let neg = (case s of [] \<Rightarrow> False | c # _ \<Rightarrow> c = CHR ''-'');
          body = (case s of [] \<Rightarrow> [] | c # cs \<Rightarrow> if c = CHR ''-'' \<or> c = CHR ''+'' then cs else s)
      in if body = [] then None
         else case parse_digits 0 body of
                None \<Rightarrow> None
              | Some n \<Rightarrow>
                  if neg then (if n \<le> 2 ^ 63 then Some (- int n) else None)
                  else (if n < 2 ^ 63 then Some (int n) else None))"

lemma digit_val_char: "d < 10 \<Longrightarrow> digit_val (digit_char d) = Some d"
proof -
  assume "d < 10"
  then have "d \<in> {0, 1, 2, 3, 4, 5, 6, 7, 8, 9}" by auto
  then show ?thesis
    by (auto simp: digit_val_def digit_char_def)
qed

lemma digit_val_Some: "digit_val c = Some d \<Longrightarrow> d < 10"
  by (auto simp: digit_val_def Let_def split: if_splits)

lemma digit_char_val: "digit_val c \<noteq> None \<Longrightarrow> of_char c \<in> {48..57::nat}"
  by (auto simp: digit_val_def Let_def split: if_splits)

lemma parse_digits_append:
  "parse_digits acc (xs @ ys) =
     (case parse_digits acc xs of None \<Rightarrow> None | Some n \<Rightarrow> parse_digits n ys)"
  by (induction xs arbitrary: acc) (auto split: option.split)

lemma utoa_not_Nil [simp]: "utoa n \<noteq> []"
  by (subst utoa.simps) simp

lemma parse_digits_utoa: "parse_digits 0 (utoa n) = Some n"
proof (induction n rule: utoa.induct)
  case (1 n)
  show ?case
  proof (cases "n < 10")
    case True
    then show ?thesis by (subst utoa.simps) (simp add: digit_val_char)
  next
    case False
    with 1 show ?thesis
      by (subst utoa.simps) (simp add: parse_digits_append digit_val_char)
  qed
qed

lemma utoa_digits: "c \<in> set (utoa n) \<Longrightarrow> digit_val c \<noteq> None"
proof (induction n rule: utoa.induct)
  case (1 n)
  show ?case
  proof (cases "n < 10")
    case True
    with "1.prems" show ?thesis
      by (subst (asm) utoa.simps) (simp add: digit_val_char)
  next
    case False
    with "1.prems" have "c \<in> set (utoa (n div 10)) \<or> c = digit_char (n mod 10)"
      by (subst (asm) utoa.simps) auto
    then show ?thesis using "1.IH" False by (auto simp: digit_val_char)
  qed
qed

lemma utoa_hd: "hd (utoa n) \<noteq> CHR ''-'' \<and> hd (utoa n) \<noteq> CHR ''+''"
proof -
  have "hd (utoa n) \<in> set (utoa n)" by simp
  from utoa_digits [OF this] show ?thesis
    by (auto simp: digit_val_def)
qed

lemma itoa_chars: "c \<in> set (itoa i) \<Longrightarrow> c = CHR ''-'' \<or> digit_val c \<noteq> None"
  by (auto simp: itoa_def split: if_splits dest: utoa_digits)

lemma itoa_no_sep:
  "CHR '':'' \<notin> set (itoa i)" "CHR ''/'' \<notin> set (itoa i)" "CHR ''?'' \<notin> set (itoa i)"
  using itoa_chars [of "CHR '':''" i] itoa_chars [of "CHR ''/''" i] itoa_chars [of "CHR ''?''" i]
  by (auto simp: digit_val_def)

lemma Atoi_unsigned:
  assumes "s \<noteq> []" "hd s \<noteq> CHR ''-''" "hd s \<noteq> CHR ''+''"
  shows "Atoi s = (case parse_digits 0 s of None \<Rightarrow> None
                   | Some n \<Rightarrow> if n < 2 ^ 63 then Some (int n) else None)"
  using assms by (cases s) (auto simp: Atoi_def Let_def split: option.split)

lemma Atoi_examples: "Atoi ''14'' = Some 14" "Atoi ''*'' = None" "Atoi ''13'' = Some 13" "Atoi ''+13'' = Some 13"
  by (simp_all add: Atoi_def digit_val_def)

lemma Atoi_itoa:
  assumes "- (2 ^ 63) \<le> i" "i < 2 ^ 63"
  shows "Atoi (itoa i) = Some i"
proof (cases "i < 0")
  case True
  with assms have "nat (- i) \<le> 2 ^ 63" by simp
  with True show ?thesis
    by (simp add: itoa_def Atoi_def parse_digits_utoa)
next
  case False
  with assms have "nat i < 2 ^ 63" by simp
  with False show ?thesis
    using Atoi_unsigned [of "utoa (nat i)"] utoa_hd [of "nat i"]
    by (simp add: itoa_def parse_digits_utoa)
qed

lemma itoa_inject: "itoa i = itoa j \<longleftrightarrow> i = j"
proof
  assume eq: "itoa i = itoa j"
  have neg: "k < 0 \<longleftrightarrow> hd (itoa k) = CHR ''-''" for k
    using utoa_hd by (auto simp: itoa_def)
  show "i = j"
  proof (cases "i < 0")
    case True
    with eq neg have "j < 0" by metis
    with True eq have "utoa (nat (- i)) = utoa (nat (- j))" by (simp add: itoa_def)
    then have "nat (- i) = nat (- j)" by (metis option.inject parse_digits_utoa)
    with True \<open>j < 0\<close> show ?thesis by simp
  next
    case False
    with eq neg have "\<not> j < 0" by metis
    with False eq have "utoa (nat i) = utoa (nat j)" by (simp add: itoa_def)
    then have "nat i = nat j" by (metis option.inject parse_digits_utoa)
    with False \<open>\<not> j < 0\<close> show ?thesis by simp
  qed
qed simp

section \<open>Quoting\<close>

text \<open>
  \<open>%q\<close> of a string (\<open>strconv.Quote\<close>): the named escapes, \<open>\x\<close> and two hexadecimal digits
  for the other control characters and for DEL. Bytes from 128 on are copied, which is right for
  the UTF-8 encoding of a printable rune; a non-printable rune beyond ASCII (which Go would
  escape) is outside the model.
\<close>

definition hex_digit :: "nat \<Rightarrow> char" where
  "hex_digit d = ''0123456789abcdef'' ! d"

definition hex_byte :: "nat \<Rightarrow> string" where
  "hex_byte b = [hex_digit (b div 16), hex_digit (b mod 16)]"

definition quote_char :: "char \<Rightarrow> string" where
  "quote_char c =
     (let n = (of_char c :: nat); bs = CHR 0x5C in
      if n = 34 \<or> n = 92 then [bs, c]
      else if n = 7 then [bs, CHR ''a'']
      else if n = 8 then [bs, CHR ''b'']
      else if n = 12 then [bs, CHR ''f'']
      else if n = 10 then [bs, CHR ''n'']
      else if n = 13 then [bs, CHR ''r'']
      else if n = 9 then [bs, CHR ''t'']
      else if n = 11 then [bs, CHR ''v'']
      else if n < 32 \<or> n = 127 then [bs, CHR ''x''] @ hex_byte n
      else [c])"

definition go_quote :: "string \<Rightarrow> string" where
  "go_quote s = [CHR 0x22] @ concat (map quote_char s) @ [CHR 0x22]"

section \<open>Sorting strings\<close>

definition sort_Strings :: "string list \<Rightarrow> string list" where
  "sort_Strings xs = sort xs"

text \<open>Distinct keys sort to one list, whatever order they come in.\<close>

lemma sort_Strings_set_eq:
  assumes "distinct xs" "distinct ys" "set xs = set ys"
  shows "sort_Strings xs = sort_Strings ys"
  unfolding sort_Strings_def
  by (rule sorted_distinct_set_unique) (use assms in auto)

lemma set_sort_Strings [simp]: "set (sort_Strings xs) = set xs"
  by (simp add: sort_Strings_def)

section \<open>Errors\<close>

text \<open>
  Go errors by what the program can tell of them: \<open>apierrors.IsNotFound\<close> and the conflict test
  of the retry distinguish two kinds of API errors; everything else is text. \<open>fmt.Errorf\<close> with
  \<open>%w\<close> puts a prefix before the text of the wrapped error.
\<close>

datatype goerror =
    ErrNotFound string
  | ErrConflict string
  | ErrOther string
  | ErrWrap string goerror

fun err_Error :: "goerror \<Rightarrow> string" where
  "err_Error (ErrNotFound t) = t"
| "err_Error (ErrConflict t) = t"
| "err_Error (ErrOther t) = t"
| "err_Error (ErrWrap prefix e) = prefix @ '': '' @ err_Error e"

fun IsNotFound :: "goerror \<Rightarrow> bool" where
  "IsNotFound (ErrNotFound _) = True"
| "IsNotFound (ErrWrap _ e) = IsNotFound e"
| "IsNotFound _ = False"

fun IsConflict :: "goerror \<Rightarrow> bool" where
  "IsConflict (ErrConflict _) = True"
| "IsConflict (ErrWrap _ e) = IsConflict e"
| "IsConflict _ = False"

end
