(* ===== verification/GoTime.thy ===== *)
theory GoTime
  imports Complex_Main GoStrings "HOL-Library.Signed_Division"
begin

text \<open>
  \<open>time.Duration\<close> and the conversion \<open>int(d.Seconds())\<close> of the metric merge. A duration is an
  \<open>int64\<close> number of nanoseconds; \<open>Seconds()\<close> computes
  \<open>float64(sec) + float64(nsec)/1e9\<close> in IEEE double precision, and the conversion back to
  \<open>int\<close> truncates. The rounding is written out on rationals (\<open>fl64\<close>: 53 significant bits,
  ties to even; the values here are far from the overflow and subnormal ranges), because for
  durations of \<open>2^24\<close> seconds and more it can carry the sum over the next whole second.
\<close>

section \<open>Rounding to double precision\<close>

definition round_half_even :: "rat \<Rightarrow> int" where
  "round_half_even x =
     (let f = \<lfloor>x\<rfloor>; r = x - of_int f
      in if r < 1 / 2 then f else if 1 / 2 < r then f + 1 else if even f then f else f + 1)"

text \<open>
  The binary exponent of a positive rational, by halving or doubling into \<open>[1, 2)\<close>; 64 steps
  reach every value between \<open>2^-64\<close> and \<open>2^64\<close>.
\<close>

fun binexp :: "nat \<Rightarrow> rat \<Rightarrow> int" where
  "binexp 0 x = 0"
| "binexp (Suc n) x =
     (if x < 1 then binexp n (2 * x) - 1 else if 2 \<le> x then binexp n (x / 2) + 1 else 0)"

definition fl64 :: "rat \<Rightarrow> rat" where
  "fl64 x =
     (if x = 0 then 0
      else let u = 2 powi (binexp 64 \<bar>x\<bar> - 52)
           in sgn x * of_int (round_half_even (\<bar>x\<bar> / u)) * u)"

lemma round_half_even_error: "\<bar>of_int (round_half_even x) - x\<bar> \<le> 1 / 2"
proof -
  have "of_int \<lfloor>x\<rfloor> \<le> x" "x < of_int \<lfloor>x\<rfloor> + 1" by linarith+
  then show ?thesis by (auto simp: round_half_even_def Let_def abs_le_iff)
qed

lemma round_half_even_ge: "of_int n \<le> x \<Longrightarrow> n \<le> round_half_even x"
  using round_half_even_error [of x] by linarith

lemma round_half_even_le: "x \<le> of_int n \<Longrightarrow> round_half_even x \<le> n"
  using round_half_even_error [of x] by linarith

lemma binexp_bounds:
  "2 powi (- int n) \<le> x \<Longrightarrow> x < 2 powi (int n) \<Longrightarrow>
     2 powi (binexp n x) \<le> x \<and> x < 2 powi (binexp n x + 1)"
proof (induction n arbitrary: x)
  case 0
  then show ?case by simp
next
  case (Suc n)
  have up: "(2::rat) powi (k + 1) = 2 * 2 powi k" for k
    by (simp add: power_int_add)
  have down: "2 * (2::rat) powi (k - 1) = 2 powi k" for k
    by (simp add: power_int_diff)
  consider "x < 1" | "2 \<le> x" | "1 \<le> x" "x < 2" by linarith
  then show ?case
  proof cases
    case 1
    have "- int (Suc n) = - int n - 1" by simp
    with Suc.prems(1) have "2 powi (- int n - 1) \<le> x" by (simp only:)
    then have "2 powi (- int n) \<le> 2 * x"
      unfolding down [of "- int n", symmetric] by linarith
    moreover have "2 * x < 2 powi (int n) \<or> n = 0"
    proof (cases n)
      case (Suc m)
      have "(2::rat) \<le> 2 powi (int n)"
        using Suc by (simp add: power_int_def nat_add_distrib)
      with 1 show ?thesis by linarith
    qed simp
    ultimately show ?thesis
    proof (cases "n = 0")
      case True
      with 1 Suc.prems show ?thesis by (simp add: power_int_def)
    next
      case False
      with \<open>2 * x < 2 powi (int n) \<or> n = 0\<close> have "2 * x < 2 powi (int n)" by simp
      from Suc.IH [OF \<open>2 powi (- int n) \<le> 2 * x\<close> this] 1 show ?thesis
        using down [of "binexp n (2 * x)"] up [of "binexp n (2 * x)"] by auto
    qed
  next
    case 2
    have "x / 2 < 2 powi (int n)"
      using Suc.prems(2) up [of "int n"] by (simp add: algebra_simps)
    moreover have "2 powi (- int n) \<le> (1::rat)"
      by (simp add: power_int_minus power_int_of_nat field_simps)
    then have "2 powi (- int n) \<le> x / 2" using 2 by linarith
    ultimately have "2 powi (binexp n (x / 2)) \<le> x / 2 \<and> x / 2 < 2 powi (binexp n (x / 2) + 1)"
      by (intro Suc.IH)
    with 2 show ?thesis
      using up [of "binexp n (x / 2)"] up [of "binexp n (x / 2) + 1"] by auto
  next
    case 3
    then show ?thesis by simp
  qed
qed

text \<open>On values between \<open>2^-64\<close> and \<open>2^53\<close> the rounding is off by at most half a unit.\<close>

lemma fl64_pos:
  assumes "2 powi (- 64) \<le> x" "x < 2 ^ 53"
  obtains e where "2 powi e \<le> x" "x < 2 powi (e + 1)" "e \<le> 52"
    "fl64 x = of_int (round_half_even (x / 2 powi (e - 52))) * 2 powi (e - 52)"
proof -
  have pos: "0 < x"
    using assms(1) by (rule less_le_trans [rotated]) (simp add: zero_less_power_int)
  have b: "2 powi (binexp 64 x) \<le> x \<and> x < 2 powi (binexp 64 x + 1)"
    using assms by (intro binexp_bounds) (simp_all add: power_int_def)
  have "binexp 64 x < 53"
  proof (rule ccontr)
    assume "\<not> binexp 64 x < 53"
    then have "(2::rat) powi 53 \<le> 2 powi (binexp 64 x)"
      by (intro power_int_increasing) auto
    with b assms(2) show False by (simp add: power_int_def)
  qed
  with b pos show ?thesis
    by (intro that [of "binexp 64 x"]) (auto simp: fl64_def Let_def)
qed

lemma fl64_error:
  assumes "2 powi (- 64) \<le> x" "x < 2 ^ 53" "x < 2 powi (k + 1)"
  shows "\<bar>fl64 x - x\<bar> \<le> 2 powi (k - 53)"
proof -
  obtain e where e: "2 powi e \<le> x" "x < 2 powi (e + 1)"
    and fl: "fl64 x = of_int (round_half_even (x / 2 powi (e - 52))) * 2 powi (e - 52)"
    using assms(1,2) by (rule fl64_pos)
  define u where "u = (2::rat) powi (e - 52)"
  have u: "0 < u" by (simp add: u_def zero_less_power_int)
  have "\<bar>fl64 x - x\<bar> = \<bar>of_int (round_half_even (x / u)) - x / u\<bar> * u"
    using u by (simp add: fl u_def [symmetric] abs_mult_pos left_diff_distrib)
  also have "\<dots> \<le> 1 / 2 * u"
    using round_half_even_error u by (intro mult_right_mono) auto
  also have "\<dots> = 2 powi (e - 53)"
    by (simp add: u_def power_int_diff)
  also have "\<dots> \<le> 2 powi (k - 53)"
  proof (rule power_int_increasing)
    have "e < k + 1"
    proof (rule ccontr)
      assume "\<not> e < k + 1"
      then have "(2::rat) powi (k + 1) \<le> 2 powi e" by (intro power_int_increasing) auto
      with e assms(3) show False by linarith
    qed
    then show "e - 53 \<le> k - 53" by simp
  qed simp
  finally show ?thesis .
qed

text \<open>Integers are representable, so rounding never crosses one.\<close>

lemma fl64_int_bounds:
  assumes "2 powi (- 64) \<le> x" "x < 2 ^ 53"
  shows "of_int n \<le> x \<Longrightarrow> of_int n \<le> fl64 x" "x \<le> of_int n \<Longrightarrow> fl64 x \<le> of_int n"
proof -
  obtain e where e: "e \<le> 52"
    and fl: "fl64 x = of_int (round_half_even (x / 2 powi (e - 52))) * 2 powi (e - 52)"
    using assms by (rule fl64_pos)
  define u where "u = (2::rat) powi (e - 52)"
  have u: "0 < u" by (simp add: u_def zero_less_power_int)
  have scaled: "of_int n / u = of_int (n * 2 ^ nat (52 - e))"
    using e by (simp add: u_def power_int_def field_simps)
  {
    assume "of_int n \<le> x"
    then have "of_int (n * 2 ^ nat (52 - e)) \<le> x / u"
      unfolding scaled [symmetric] using u by (simp add: divide_right_mono)
    then have "n * 2 ^ nat (52 - e) \<le> round_half_even (x / u)"
      by (rule round_half_even_ge)
    then have "of_int n / u \<le> of_int (round_half_even (x / u))"
      unfolding scaled by (simp only: of_int_le_iff)
    then show "of_int n \<le> fl64 x"
      using u by (simp add: fl u_def [symmetric] field_simps)
  next
    assume "x \<le> of_int n"
    then have "x / u \<le> of_int (n * 2 ^ nat (52 - e))"
      unfolding scaled [symmetric] using u by (simp add: divide_right_mono)
    then have "round_half_even (x / u) \<le> n * 2 ^ nat (52 - e)"
      by (rule round_half_even_le)
    then have "of_int (round_half_even (x / u)) \<le> of_int n / u"
      unfolding scaled by (simp only: of_int_le_iff)
    then show "fl64 x \<le> of_int n"
      using u by (simp add: fl u_def [symmetric] field_simps)
  }
qed

lemma fl64_0 [simp]: "fl64 0 = 0"
  by (simp add: fl64_def)

lemma fl64_minus: "fl64 (- x) = - fl64 x"
  by (simp add: fl64_def Let_def sgn_minus)

lemma fl64_of_int:
  assumes "\<bar>n\<bar> < 2 ^ 53"
  shows "fl64 (of_int n) = of_int n"
proof -
  have pos: "fl64 (of_int m) = of_int m" if "0 < m" "m < 2 ^ 53" for m :: int
  proof -
    have "(2::rat) powi (- 64) \<le> 1" by (simp add: power_int_def power_le_one)
    also have "\<dots> \<le> of_int m" using that(1) by simp
    finally have lo: "2 powi (- 64) \<le> (of_int m :: rat)" .
    have "(of_int m :: rat) < of_int (2 ^ 53)" using that(2) by (simp only: of_int_less_iff)
    then have hi: "(of_int m :: rat) < 2 ^ 53" by simp
    show ?thesis using fl64_int_bounds [OF lo hi, of m] by (intro antisym) auto
  qed
  consider "n = 0" | "0 < n" | "n < 0" by linarith
  then show ?thesis
  proof cases
    case 2
    with assms show ?thesis by (intro pos) auto
  next
    case 3
    with assms have "fl64 (of_int (- n)) = of_int (- n)" by (intro pos) auto
    then show ?thesis using fl64_minus [of "of_int n"] by simp
  qed simp
qed

section \<open>Durations\<close>

definition Second :: int where "Second = 1000000000"

definition seconds_of :: "int \<Rightarrow> rat" where
  "seconds_of n =
     (let sec = n sdiv Second; nsec = n smod Second
      in fl64 (fl64 (of_int sec) + fl64 (fl64 (of_int nsec) / of_int Second)))"

definition Duration_Seconds :: "int64 \<Rightarrow> rat" where
  "Duration_Seconds d = seconds_of (sint d)"

text \<open>Go's conversion of a float in range to \<open>int\<close> drops the fraction.\<close>

definition float_to_int :: "rat \<Rightarrow> int" where
  "float_to_int x = (if x < 0 then - \<lfloor>- x\<rfloor> else \<lfloor>x\<rfloor>)"

definition duration_to_seconds :: "int64 \<Rightarrow> int" where
  "duration_to_seconds d = float_to_int (Duration_Seconds d)"

lemma sdiv_smod_nonneg: "0 \<le> x \<Longrightarrow> x sdiv Second = x div Second" "0 \<le> x \<Longrightarrow> x smod Second = x mod Second"
  by (simp_all add: signed_divide_int_def signed_modulo_int_def Second_def sgn_if minus_div_mult_eq_mod)

lemma sdiv_smod_nonpos: "x \<le> 0 \<Longrightarrow> x sdiv Second = - ((- x) div Second)"
    "x \<le> 0 \<Longrightarrow> x smod Second = - ((- x) mod Second)"
  by (simp_all add: signed_divide_int_def signed_modulo_int_def Second_def sgn_if
        minus_div_mult_eq_mod [symmetric])

text \<open>The fractional part: a whole number of nanoseconds below one second, rounded.\<close>

definition fraction_ok :: "rat \<Rightarrow> bool" where
  "fraction_ok f \<longleftrightarrow> f = 0 \<or> 2 powi (- 64) \<le> f \<and> f \<le> 999999999 / 1000000000 + 2 powi (- 54)"

lemma nsec_fraction:
  assumes "0 \<le> n" "n < Second"
  shows "fraction_ok (fl64 (of_int n / of_int Second))"
proof (cases "n = 0")
  case True
  then show ?thesis by (simp add: fraction_ok_def)
next
  case False
  define x where "x = (of_int n :: rat) / of_int Second"
  have "n \<le> 999999999" using assms(2) by (simp add: Second_def)
  then have hi: "x \<le> 999999999 / 1000000000"
    by (simp add: x_def Second_def divide_right_mono)
  have "1 \<le> n" using False assms(1) by simp
  then have lo9: "1 / 1000000000 \<le> x"
    by (simp add: x_def Second_def divide_right_mono)
  have tiny: "2 powi (- 64) + 2 powi (- 54) \<le> (1 / 1000000000 :: rat)"
    by (simp add: power_int_def power_one_over)
  have pos: "0 \<le> (2::rat) powi (- 54)" by simp
  have lo: "2 powi (- 64) \<le> x" using tiny lo9 pos by linarith
  have big: "x < 2 ^ 53" using hi by simp
  have "\<bar>fl64 x - x\<bar> \<le> 2 powi (- 1 - 53)"
    using lo big hi by (intro fl64_error) simp_all
  moreover have "- 1 - 53 = (- 54 :: int)" by simp
  ultimately have "\<bar>fl64 x - x\<bar> \<le> 2 powi (- 54)" by (simp only:)
  then show ?thesis unfolding fraction_ok_def x_def [symmetric] using hi tiny lo9 by linarith
qed

lemma fraction_ok_range: "fraction_ok f \<Longrightarrow> 0 \<le> f \<and> f < 1"
  by (auto simp: fraction_ok_def power_int_def power_one_over)

lemma seconds_of_nonneg:
  assumes "0 \<le> n" "n \<le> 2 ^ 63"
  obtains f where "seconds_of n = fl64 (of_int (n div Second) + f)" "fraction_ok f"
    "0 \<le> n div Second" "n div Second < 2 ^ 34"
proof -
  define f where "f = fl64 (of_int (n mod Second) / of_int Second)"
  have m: "0 \<le> n mod Second" "n mod Second < Second"
    by (simp_all add: Second_def)
  then have small: "\<bar>n mod Second\<bar> < 2 ^ 53" by (simp add: Second_def)
  have "n div Second \<le> 2 ^ 63 div Second"
    using assms(2) by (intro zdiv_mono1) (simp_all add: Second_def)
  then have s: "n div Second < 2 ^ 34" by (simp add: Second_def)
  have s0: "0 \<le> n div Second"
    using assms by (simp add: Second_def pos_imp_zdiv_nonneg_iff)
  have "seconds_of n = fl64 (of_int (n div Second) + f)"
    using s s0 small assms
    by (simp add: seconds_of_def Let_def sdiv_smod_nonneg f_def fl64_of_int)
  then show ?thesis
    using that m s s0 by (auto simp: f_def nsec_fraction)
qed

lemma seconds_of_minus:
  assumes "0 \<le> n"
  shows "seconds_of (- n) = - seconds_of n"
proof -
  have neg: "fl64 (of_int (- a)) + fl64 (fl64 (of_int (- b)) / c) =
      - (fl64 (of_int a) + fl64 (fl64 (of_int b) / c))" for a b and c :: rat
    by (simp add: fl64_minus)
  have "seconds_of (- n) = fl64 (fl64 (of_int (- (n div Second)))
      + fl64 (fl64 (of_int (- (n mod Second))) / of_int Second))"
    using assms sdiv_smod_nonpos [of "- n"] by (simp only: seconds_of_def Let_def) simp
  also have "\<dots> = - seconds_of n"
    unfolding neg fl64_minus by (simp add: seconds_of_def Let_def sdiv_smod_nonneg assms)
  finally show ?thesis .
qed

lemma float_to_int_between:
  assumes "of_int a \<le> x" "x < of_int b" "0 \<le> a"
  shows "a \<le> float_to_int x \<and> float_to_int x < b"
proof -
  have "0 \<le> x" using assms(1,3) by (metis of_int_0_le_iff order_trans)
  with assms show ?thesis by (auto simp: float_to_int_def le_floor_iff floor_less_iff)
qed

lemma seconds_sum_range:
  assumes "fraction_ok f" "0 \<le> s" "s < 2 ^ 34"
  shows "of_int s \<le> fl64 (of_int s + f) \<and> fl64 (of_int s + f) \<le> of_int (s + 1)"
proof (cases "of_int s + f = 0")
  case True
  with fraction_ok_range [OF assms(1)] assms(2) have "s = 0" "f = 0"
    by (simp_all add: add_nonneg_eq_0_iff)
  then show ?thesis by simp
next
  case False
  have f: "0 \<le> f" "f < 1" using fraction_ok_range [OF assms(1)] by auto
  have one: "(2::rat) powi (- 64) \<le> 1" by (simp add: power_int_def power_le_one)
  have lo: "2 powi (- 64) \<le> of_int s + f"
  proof (cases "s = 0")
    case True
    with False assms(1) show ?thesis by (auto simp: fraction_ok_def)
  next
    case False
    with assms(2) have "1 \<le> s" by linarith
    then have "1 \<le> (of_int s :: rat)" by simp
    with one f show ?thesis by linarith
  qed
  have "(of_int s :: rat) < of_int (2 ^ 34)" using assms(3) by (simp only: of_int_less_iff)
  with f have hi: "of_int s + f < (2 ^ 53 :: rat)" by simp
  show ?thesis
    using fl64_int_bounds(1) [OF lo hi, of s] fl64_int_bounds(2) [OF lo hi, of "s + 1"] f
    by simp
qed

text \<open>Below \<open>2^24\<close> seconds the rounded sum stays under the next whole second.\<close>

lemma seconds_sum_exact:
  assumes "fraction_ok f" "0 \<le> s" "s < 2 ^ 24"
  shows "fl64 (of_int s + f) < of_int (s + 1)"
proof (cases "of_int s + f < 1 / 2 \<or> f = 0")
  case True
  show ?thesis
  proof (cases "f = 0")
    case True
    then show ?thesis using assms by (simp add: fl64_of_int)
  next
    case False
    with \<open>of_int s + f < 1 / 2 \<or> f = 0\<close> have half: "of_int s + f < 1 / 2" by simp
    have "s = 0"
    proof (rule ccontr)
      assume "s \<noteq> 0"
      with assms(2) have "1 \<le> s" by linarith
      then have "1 \<le> (of_int s :: rat)" by simp
      with half fraction_ok_range [OF assms(1)] show False by linarith
    qed
    with half False assms(1) have "\<bar>fl64 f - f\<bar> \<le> 2 powi (- 1 - 53)"
      by (intro fl64_error) (auto simp: fraction_ok_def power_int_def)
    moreover have "(2::rat) powi (- 1 - 53) \<le> 1 / 2" by (simp add: power_int_def power_one_over)
    ultimately have "\<bar>fl64 f - f\<bar> \<le> 1 / 2" by linarith
    with half \<open>s = 0\<close> have "fl64 f < 1" by linarith
    with \<open>s = 0\<close> show ?thesis by simp
  qed
next
  case False
  have f: "0 \<le> f" "f \<le> 999999999 / 1000000000 + 2 powi (- 54)"
    using assms(1) False by (auto simp: fraction_ok_def)
  have "(2::rat) powi (- 64) \<le> 1 / 2" by (simp add: power_int_def power_one_over)
  with False have lo: "2 powi (- 64) \<le> of_int s + f" by linarith
  have "s + 1 \<le> 2 ^ 24" using assms(3) by simp
  then have "(of_int (s + 1) :: rat) \<le> of_int (2 ^ 24)" by (simp only: of_int_le_iff)
  with fraction_ok_range [OF assms(1)] have hi: "of_int s + f < (2 :: rat) ^ 24" by simp
  then have "\<bar>fl64 (of_int s + f) - (of_int s + f)\<bar> \<le> 2 powi (23 - 53)"
    using lo by (intro fl64_error) (simp_all add: power_int_def)
  moreover have "(2::rat) powi (23 - 53) + 2 powi (- 54) < 1 / 1000000000"
    by (simp add: power_int_def power_one_over)
  ultimately have "fl64 (of_int s + f) < of_int s + 1" using f(2) by linarith
  then show ?thesis by simp
qed

section \<open>The conversion the metric merge relies on\<close>

lemma sint64_range: "- (2 ^ 63) \<le> sint (d :: int64)" "sint (d :: int64) < 2 ^ 63"
  using sint_lt [of d] sint_ge [of d] by simp_all

lemma duration_to_seconds_bounds:
  assumes "0 \<le> sint d"
  shows "sint d div Second \<le> duration_to_seconds d \<and> duration_to_seconds d \<le> sint d div Second + 1"
proof -
  obtain f where f: "seconds_of (sint d) = fl64 (of_int (sint d div Second) + f)" "fraction_ok f"
    "0 \<le> sint d div Second" "sint d div Second < 2 ^ 34"
    using seconds_of_nonneg [of "sint d"] assms sint64_range(2) [of d] by (metis less_imp_le)
  from seconds_sum_range [OF f(2-4)] f(3)
  have "sint d div Second \<le> duration_to_seconds d \<and> duration_to_seconds d < sint d div Second + 2"
    unfolding duration_to_seconds_def Duration_Seconds_def f(1)
    by (intro float_to_int_between) auto
  then show ?thesis by linarith
qed

lemma duration_to_seconds_exact:
  assumes "0 \<le> sint d" "sint d < 2 ^ 24 * Second"
  shows "duration_to_seconds d = sint d div Second"
proof -
  obtain f where f: "seconds_of (sint d) = fl64 (of_int (sint d div Second) + f)" "fraction_ok f"
    "0 \<le> sint d div Second" "sint d div Second < 2 ^ 34"
    using seconds_of_nonneg [of "sint d"] assms sint64_range(2) [of d] by (metis less_imp_le)
  have "sint d div Second < 2 ^ 24"
    using assms(2) by (simp add: Second_def)
  from seconds_sum_range [OF f(2-4)] seconds_sum_exact [OF f(2,3) this] f(3)
  have "sint d div Second \<le> duration_to_seconds d \<and> duration_to_seconds d < sint d div Second + 1"
    unfolding duration_to_seconds_def Duration_Seconds_def f(1)
    by (intro float_to_int_between) auto
  then show ?thesis by linarith
qed

lemma duration_to_seconds_nonpos:
  assumes "sint d \<le> 0"
  shows "duration_to_seconds d \<le> 0"
proof -
  define n where "n = - sint d"
  have n: "0 \<le> n" "n \<le> 2 ^ 63" using assms sint64_range(1) [of d] by (simp_all add: n_def)
  then obtain f where f: "seconds_of n = fl64 (of_int (n div Second) + f)" "fraction_ok f"
    "0 \<le> n div Second" "n div Second < 2 ^ 34"
    by (rule seconds_of_nonneg)
  have "(0::rat) \<le> of_int (n div Second)" using f(3) by simp
  then have "0 \<le> seconds_of n" using seconds_sum_range [OF f(2-4)] unfolding f(1) by linarith
  moreover have "Duration_Seconds d = - seconds_of n"
    using seconds_of_minus [OF n(1)] by (simp add: Duration_Seconds_def n_def)
  ultimately show ?thesis by (auto simp: duration_to_seconds_def float_to_int_def)
qed

end
