(* ===== verification/ApiTypes.thy ===== *)
theory ApiTypes
  imports GoTime
begin

text \<open>
  The custom resources of \<open>api/v1\<close> as records, one field per Go field, a short prefix
  telling apart the fields that share a name. An optional struct (a Go pointer) is an \<open>option\<close>,
  an optional map or slice is empty when absent, a \<open>string\<close> with \<open>omitempty\<close> is \<open>''''\<close> when
  absent. \<open>TypeMeta\<close> is fixed by the record. From \<open>metav1.ObjectMeta\<close>, \<open>metav1.Condition\<close> and
  \<open>corev1.ResourceRequirements\<close> (declared in Kubernetes) the fields the program reads or writes are
  kept. A \<open>metav1.Time\<close> is a number of nanoseconds since Go's zero time.
\<close>

section \<open>Types of Kubernetes the custom resources embed\<close>

type_synonym Time = int

record OwnerReference =
  or_Kind :: string
  or_Name :: string
  or_UID :: string
  or_Controller :: bool

record ObjectMeta =
  om_Name :: string
  om_Namespace :: string
  om_UID :: string
  om_Labels :: "(string, string) gomap"
  om_Annotations :: "(string, string) gomap"
  om_Finalizers :: "string list"
  om_OwnerReferences :: "OwnerReference list"
  om_Generation :: int64
  om_ResourceVersion :: string
  om_DeletionTimestamp :: "Time option"
  om_ManagedFields :: "string list"

definition emptyMeta :: ObjectMeta where
  "emptyMeta = \<lparr>om_Name = [], om_Namespace = [], om_UID = [], om_Labels = [], om_Annotations = [],
     om_Finalizers = [], om_OwnerReferences = [], om_Generation = 0, om_ResourceVersion = [],
     om_DeletionTimestamp = None, om_ManagedFields = []\<rparr>"

datatype ConditionStatus = ConditionTrue | ConditionFalse | ConditionUnknown

record Condition =
  cd_Type :: string
  cd_Status :: ConditionStatus
  cd_ObservedGeneration :: int64
  cd_LastTransitionTime :: Time
  cd_Reason :: string
  cd_Message :: string

record ResourceRequirements =
  rr_Limits :: "(string, string) gomap"
  rr_Requests :: "(string, string) gomap"

record NamespacedName =
  nn_Namespace :: string
  nn_Name :: string

section \<open>Metric definitions and libraries\<close>

record MetricDefinition =
  md_Name :: string
  md_Description :: string
  md_Interval :: "int64 option"
  md_SQLs :: "(string, string) gomap"
  md_Gauges :: "string list"
  md_StatementTimeoutSeconds :: int32
  md_MasterOnly :: bool
  md_StandbyOnly :: bool
  md_IsInstanceLevel :: bool

record PgpilotMetricLibrarySpec =
  ls_Metrics :: "MetricDefinition list"

record PgpilotMetricLibraryStatus =
  lst_ObservedGeneration :: int64
  lst_Conditions :: "Condition list"

record PgpilotMetricLibrary =
  lib_Meta :: ObjectMeta
  lib_Spec :: PgpilotMetricLibrarySpec
  lib_Status :: PgpilotMetricLibraryStatus

record LibraryRef =
  lr_Name :: string

record MetricsSpec =
  ms_Preset :: string
  ms_FromLibraries :: "LibraryRef list"
  ms_Custom :: "MetricDefinition list"

section \<open>Database, sinks, image\<close>

type_synonym SSLMode = string

definition SSLModeDisable :: SSLMode where "SSLModeDisable = ''disable''"
definition SSLModeAllow :: SSLMode where "SSLModeAllow = ''allow''"
definition SSLModePrefer :: SSLMode where "SSLModePrefer = ''prefer''"
definition SSLModeRequire :: SSLMode where "SSLModeRequire = ''require''"
definition SSLModeVerifyCA :: SSLMode where "SSLModeVerifyCA = ''verify-ca''"
definition SSLModeVerifyFull :: SSLMode where "SSLModeVerifyFull = ''verify-full''"

record CredentialsSecretRef =
  cs_Name :: string
  cs_UsernameKey :: string
  cs_PasswordKey :: string

record DatabaseRef =
  db_Host :: string
  db_Port :: int32
  db_Database :: string
  db_SSLMode :: SSLMode
  db_Username :: string
  db_Password :: string
  db_CredentialsSecret :: "CredentialsSecretRef option"
  db_CustomTags :: "(string, string) gomap"

record PrometheusSink =
  ps_Enabled :: bool
  ps_Port :: int32

record GRPCTLS =
  gt_CASecretRef :: string

record GRPCSink =
  gs_Enabled :: bool
  gs_Endpoint :: string
  gs_TLS :: "GRPCTLS option"

record SinksSpec =
  ss_Prometheus :: "PrometheusSink option"
  ss_GRPC :: "GRPCSink option"

record ImageSpec =
  im_Repository :: string
  im_Tag :: string
  im_PullPolicy :: string

record ObjectMetadataOverrides =
  mo_Labels :: "(string, string) gomap"
  mo_Annotations :: "(string, string) gomap"

section \<open>The monitor\<close>

record PgpilotMonitorSpec =
  sp_Database :: DatabaseRef
  sp_Metrics :: MetricsSpec
  sp_Sinks :: SinksSpec
  sp_Resources :: ResourceRequirements
  sp_Image :: ImageSpec
  sp_PodMetadata :: ObjectMetadataOverrides
  sp_ServiceMetadata :: ObjectMetadataOverrides

record PgpilotMonitorStatus =
  st_Ready :: bool
  st_PodName :: string
  st_ObservedGeneration :: int64
  st_ConfigHash :: string
  st_LastReconciled :: "Time option"
  st_Conditions :: "Condition list"

record PgpilotMonitor =
  pm_Meta :: ObjectMeta
  pm_Spec :: PgpilotMonitorSpec
  pm_Status :: PgpilotMonitorStatus

abbreviation pm_Name :: "PgpilotMonitor \<Rightarrow> string" where
  "pm_Name m \<equiv> om_Name (pm_Meta m)"

abbreviation pm_Namespace :: "PgpilotMonitor \<Rightarrow> string" where
  "pm_Namespace m \<equiv> om_Namespace (pm_Meta m)"

abbreviation pm_Database :: "PgpilotMonitor \<Rightarrow> DatabaseRef" where
  "pm_Database m \<equiv> sp_Database (pm_Spec m)"

definition monitor_key :: "PgpilotMonitor \<Rightarrow> NamespacedName" where
  "monitor_key m = \<lparr>nn_Namespace = pm_Namespace m, nn_Name = pm_Name m\<rparr>"

text \<open>
  The maps of a resource read from the API server are decoded from JSON objects, so their keys
  are distinct. This is the well-formedness the builders assume of their input.
\<close>

definition metric_wf :: "MetricDefinition \<Rightarrow> bool" where
  "metric_wf md \<longleftrightarrow> gomap_wf (md_SQLs md)"

definition overrides_wf :: "ObjectMetadataOverrides \<Rightarrow> bool" where
  "overrides_wf o' \<longleftrightarrow> gomap_wf (mo_Labels o') \<and> gomap_wf (mo_Annotations o')"

definition monitor_wf :: "PgpilotMonitor \<Rightarrow> bool" where
  "monitor_wf m \<longleftrightarrow>
     overrides_wf (sp_PodMetadata (pm_Spec m)) \<and> overrides_wf (sp_ServiceMetadata (pm_Spec m))
     \<and> gomap_wf (db_CustomTags (pm_Database m))
     \<and> list_all metric_wf (ms_Custom (sp_Metrics (pm_Spec m)))"

text \<open>The rule of the CRD schema for the credentials (\<open>XValidation\<close> on \<open>DatabaseRef\<close>).\<close>

definition credentials_valid :: "DatabaseRef \<Rightarrow> bool" where
  "credentials_valid db \<longleftrightarrow>
     ((db_Username db \<noteq> [] \<and> db_Password db \<noteq> []) \<noteq> (db_CredentialsSecret db \<noteq> None))
     \<and> (db_Username db = [] \<or> db_Password db \<noteq> [])
     \<and> (db_Password db = [] \<or> db_Username db \<noteq> [])"

end
