(* ===== verification/KubeTypes.thy ===== *)
theory KubeTypes
  imports ApiTypes
begin

text \<open>
  The Kubernetes objects the builders produce: of each \<open>corev1\<close>, \<open>appsv1\<close> and
  \<open>monitoringv1\<close> struct the fields the source sets, plus \<open>ImagePullPolicy\<close>, which it leaves at
  its zero value, and the deployment's \<open>Status.ReadyReplicas\<close>, which the controller reads.
  A selector matches a label set as Kubernetes documents \<open>matchLabels\<close>: every pair of the
  selector is a label.
\<close>

section \<open>Objects\<close>

datatype IntOrString = FromInt32 int32 | FromString string

record ConfigMap =
  cm_Meta :: ObjectMeta
  cm_Data :: "(string, string) gomap"

record SecretKeySelector =
  sk_Name :: string
  sk_Key :: string

record EnvVar =
  ev_Name :: string
  ev_Value :: string
  ev_SecretKeyRef :: "SecretKeySelector option"

record ContainerPort =
  cp_Name :: string
  cp_ContainerPort :: int32
  cp_Protocol :: string

record Probe =
  pr_TCPSocketPort :: IntOrString
  pr_InitialDelaySeconds :: int32
  pr_PeriodSeconds :: int32
  pr_TimeoutSeconds :: int32
  pr_SuccessThreshold :: int32
  pr_FailureThreshold :: int32

record SecurityContext =
  sc_RunAsNonRoot :: bool
  sc_RunAsUser :: int64
  sc_ReadOnlyRootFilesystem :: bool
  sc_AllowPrivilegeEscalation :: bool
  sc_CapabilitiesDrop :: "string list"

record VolumeMount =
  vm_Name :: string
  vm_MountPath :: string
  vm_ReadOnly :: bool

datatype VolumeSource = ConfigMapVolume string | EmptyDirVolume

record Volume =
  vol_Name :: string
  vol_Source :: VolumeSource

record Container =
  c_Name :: string
  c_Image :: string
  c_ImagePullPolicy :: string
  c_Args :: "string list"
  c_Env :: "EnvVar list"
  c_Ports :: "ContainerPort list"
  c_Resources :: ResourceRequirements
  c_LivenessProbe :: Probe
  c_ReadinessProbe :: Probe
  c_SecurityContext :: SecurityContext
  c_VolumeMounts :: "VolumeMount list"

record PodTemplate =
  pt_Labels :: "(string, string) gomap"
  pt_Annotations :: "(string, string) gomap"
  pt_Containers :: "Container list"
  pt_Volumes :: "Volume list"
  pt_RunAsNonRoot :: bool

record Deployment =
  dep_Meta :: ObjectMeta
  dep_Replicas :: int32
  dep_Selector :: "(string, string) gomap"
  dep_Template :: PodTemplate
  dep_ReadyReplicas :: int32

record ServicePort =
  svp_Name :: string
  svp_Protocol :: string
  svp_Port :: int32
  svp_TargetPort :: IntOrString

record Service =
  svc_Meta :: ObjectMeta
  svc_Type :: string
  svc_Selector :: "(string, string) gomap"
  svc_Ports :: "ServicePort list"

record Endpoint =
  ep_Port :: string
  ep_Interval :: string
  ep_ScrapeTimeout :: string

record ServiceMonitor =
  sm_Meta :: ObjectMeta
  sm_Selector :: "(string, string) gomap"
  sm_NamespaceNames :: "string list"
  sm_Endpoints :: "Endpoint list"

section \<open>The children of a monitor\<close>

datatype Child =
    ChildConfigMap ConfigMap
  | ChildDeployment Deployment
  | ChildService Service
  | ChildServiceMonitor ServiceMonitor

datatype ChildKind = KConfigMap | KDeployment | KService | KServiceMonitor

text \<open>The kinds in the order in which a reconcile applies them: what a kind needs comes before it.\<close>

fun apply_rank :: "ChildKind \<Rightarrow> nat" where
  "apply_rank KConfigMap = 0"
| "apply_rank KDeployment = 1"
| "apply_rank KService = 2"
| "apply_rank KServiceMonitor = 3"

lemma apply_rank_inject: "apply_rank a = apply_rank b \<longleftrightarrow> a = b"
  by (cases a; cases b) simp_all

instantiation ChildKind :: linorder
begin

definition less_eq_ChildKind :: "ChildKind \<Rightarrow> ChildKind \<Rightarrow> bool" where
  "less_eq_ChildKind a b \<longleftrightarrow> apply_rank a \<le> apply_rank b"

definition less_ChildKind :: "ChildKind \<Rightarrow> ChildKind \<Rightarrow> bool" where
  "less_ChildKind a b \<longleftrightarrow> apply_rank a < apply_rank b"

instance
  by standard (auto simp: less_eq_ChildKind_def less_ChildKind_def apply_rank_inject)

end

fun child_kind :: "Child \<Rightarrow> ChildKind" where
  "child_kind (ChildConfigMap _) = KConfigMap"
| "child_kind (ChildDeployment _) = KDeployment"
| "child_kind (ChildService _) = KService"
| "child_kind (ChildServiceMonitor _) = KServiceMonitor"

fun child_meta :: "Child \<Rightarrow> ObjectMeta" where
  "child_meta (ChildConfigMap x) = cm_Meta x"
| "child_meta (ChildDeployment x) = dep_Meta x"
| "child_meta (ChildService x) = svc_Meta x"
| "child_meta (ChildServiceMonitor x) = sm_Meta x"

fun set_child_meta :: "ObjectMeta \<Rightarrow> Child \<Rightarrow> Child" where
  "set_child_meta m (ChildConfigMap x) = ChildConfigMap (x\<lparr>cm_Meta := m\<rparr>)"
| "set_child_meta m (ChildDeployment x) = ChildDeployment (x\<lparr>dep_Meta := m\<rparr>)"
| "set_child_meta m (ChildService x) = ChildService (x\<lparr>svc_Meta := m\<rparr>)"
| "set_child_meta m (ChildServiceMonitor x) = ChildServiceMonitor (x\<lparr>sm_Meta := m\<rparr>)"

definition child_name :: "Child \<Rightarrow> NamespacedName" where
  "child_name c = \<lparr>nn_Namespace = om_Namespace (child_meta c), nn_Name = om_Name (child_meta c)\<rparr>"

lemma child_meta_set [simp]: "child_meta (set_child_meta m c) = m"
  by (cases c) simp_all

lemma child_kind_set [simp]: "child_kind (set_child_meta m c) = child_kind c"
  by (cases c) simp_all

lemma set_child_meta_twice [simp]: "set_child_meta m (set_child_meta m' c) = set_child_meta m c"
  by (cases c) simp_all

lemma set_child_meta_same [simp]: "set_child_meta (child_meta c) c = c"
  by (cases c) simp_all

section \<open>Selectors\<close>

definition selects :: "(string, string) gomap \<Rightarrow> (string, string) gomap \<Rightarrow> bool" where
  "selects sel labels \<longleftrightarrow> list_all (\<lambda>(k, v). gm_get labels k = Some v) sel"

lemma selectsI: "(\<And>k v. (k, v) \<in> set sel \<Longrightarrow> gm_get labels k = Some v) \<Longrightarrow> selects sel labels"
  by (auto simp: selects_def list_all_iff)

end
