(* ===== verification/Labels.thy ===== *)
theory Labels
  imports KubeTypes
begin

text \<open>
  \<open>internal/builder/labels.go\<close>: the label keys, the labels every object of a monitor carries, the
  merge of system and user labels and annotations, and the name of the generated objects. The
  contract of the merge is the locale \<open>label_merge\<close>; its clients are the pod template, the
  Service and the ServiceMonitor, whose selectors must keep matching whatever the user adds.
\<close>

section \<open>Keys and names\<close>

definition LabelAppName :: string where "LabelAppName = ''app.kubernetes.io/name''"
definition LabelAppInstance :: string where "LabelAppInstance = ''app.kubernetes.io/instance''"
definition LabelAppManagedBy :: string where "LabelAppManagedBy = ''app.kubernetes.io/managed-by''"
definition LabelAppComponent :: string where "LabelAppComponent = ''app.kubernetes.io/component''"
definition LabelMonitorName :: string where "LabelMonitorName = ''pgpilot.io/monitor''"
definition AnnotationConfigHash :: string where "AnnotationConfigHash = ''pgpilot.io/config-hash''"
definition AppName :: string where "AppName = ''pgpilot-monitor''"
definition ManagedBy :: string where "ManagedBy = ''pgpilot-operator''"

lemmas label_keys = LabelAppName_def LabelAppInstance_def LabelAppManagedBy_def
  LabelAppComponent_def LabelMonitorName_def AnnotationConfigHash_def

definition SystemLabels :: "string \<Rightarrow> (string, string) gomap" where
  "SystemLabels monitorName =
     [(LabelAppName, AppName),
      (LabelAppInstance, monitorName),
      (LabelAppManagedBy, ManagedBy),
      (LabelAppComponent, ''pgwatch''),
      (LabelMonitorName, monitorName)]"

definition MergeLabels ::
  "(string, string) gomap \<Rightarrow> (string, string) gomap \<Rightarrow> (string, string) gomap" where
  "MergeLabels system user = maps_Copy (maps_Copy [] user) system"

definition MergeAnnotations ::
  "(string, string) gomap \<Rightarrow> (string, string) gomap \<Rightarrow> (string, string) gomap" where
  "MergeAnnotations system user = maps_Copy (maps_Copy [] user) system"

definition ResourceName :: "string \<Rightarrow> string" where
  "ResourceName monitorName = ''pgpilot-'' @ monitorName"

text \<open>The two labels every selector of the operator uses.\<close>

definition selector_labels :: "string \<Rightarrow> (string, string) gomap" where
  "selector_labels monitorName = [(LabelAppInstance, monitorName), (LabelAppName, AppName)]"

section \<open>The contract of a merge\<close>

locale label_merge =
  fixes merge :: "(string, string) gomap \<Rightarrow> (string, string) gomap \<Rightarrow> (string, string) gomap"
  assumes merge_wf: "gomap_wf (merge system user)"
    and merge_system: "gomap_wf system \<Longrightarrow> gm_get system k = Some v \<Longrightarrow>
          gm_get (merge system user) k = Some v"
    and merge_user: "gomap_wf user \<Longrightarrow> gm_get system k = None \<Longrightarrow>
          gm_get (merge system user) k = gm_get user k"
begin

lemma merge_get:
  assumes "gomap_wf system" "gomap_wf user"
  shows "gm_get (merge system user) k =
    (case gm_get system k of Some v \<Rightarrow> Some v | None \<Rightarrow> gm_get user k)"
  using merge_system [OF assms(1)] merge_user [OF assms(2)] by (auto split: option.split)

lemma merge_dom:
  assumes "gomap_wf system" "gomap_wf user"
  shows "dom (gm_get (merge system user)) = dom (gm_get system) \<union> dom (gm_get user)"
  by (auto simp: dom_def merge_get [OF assms] split: option.splits)

lemma merge_idem:
  assumes "gomap_wf system" "gomap_wf user"
  shows "gm_get (merge system (merge system user)) = gm_get (merge system user)"
  by (rule ext) (simp add: merge_get assms merge_wf split: option.split)

text \<open>A selector that the system labels satisfy is satisfied after any merge.\<close>

lemma selector_survives:
  assumes "gomap_wf system" "selects sel system"
  shows "selects sel (merge system user)"
  using assms by (auto simp: selects_def list_all_iff intro: merge_system)

end

lemma maps_Copy_wins: "gomap_wf src \<Longrightarrow> gm_get src k = Some v \<Longrightarrow> gm_get (maps_Copy dst src) k = Some v"
  by (simp add: gomap_simps)

lemma maps_Copy_keeps: "gm_get src k = None \<Longrightarrow> gm_get (maps_Copy dst src) k = gm_get dst k"
  by (induction dst src rule: maps_Copy.induct) (auto simp: gomap_simps split: if_splits)

interpretation labels: label_merge MergeLabels
  by unfold_locales
    (auto simp: MergeLabels_def maps_Copy_wins maps_Copy_keeps gomap_simps intro: wf_intros)

interpretation annotations: label_merge MergeAnnotations
  by unfold_locales
    (auto simp: MergeAnnotations_def maps_Copy_wins maps_Copy_keeps gomap_simps intro: wf_intros)

section \<open>Facts of the system labels and names\<close>

lemma SystemLabels_wf [simp, wf_intros]: "gomap_wf (SystemLabels n)"
  by (simp add: gomap_wf_def SystemLabels_def label_keys)

lemma selector_SystemLabels [simp]: "selects (selector_labels n) (SystemLabels n)"
  by (simp add: selects_def selector_labels_def SystemLabels_def label_keys)

lemma ResourceName_inject [simp]: "ResourceName n = ResourceName n' \<longleftrightarrow> n = n'"
  by (simp add: ResourceName_def)

text \<open>A selector of one monitor never selects the labels of another.\<close>

lemma selector_separates:
  assumes "selects (selector_labels n) (MergeLabels (SystemLabels n') user)"
  shows "n = n'"
proof -
  have "gm_get (MergeLabels (SystemLabels n') user) LabelAppInstance = Some n'"
    by (rule labels.merge_system) (simp_all add: SystemLabels_def label_keys)
  with assms show ?thesis by (simp add: selects_def selector_labels_def)
qed

end
