(* ===== verification/MetricsMerge.thy ===== *)
theory MetricsMerge
  imports Labels
begin

text \<open>
  \<open>internal/builder/metrics_merge.go\<close>: resolving the metric sources of a monitor into intervals
  and SQL definitions. The loops over slices are folds in the source's order; the loop over the
  map \<open>md.SQLs\<close> runs in the order of the association list, which stands for the order the Go
  runtime picks. The abstract specification is \<open>effective_metric\<close>: of all definitions with one
  name, the last one counts (libraries in the order listed, then the inline ones).
\<close>

section \<open>The merge\<close>

record MetricDef =
  mf_SQLs :: "(int, string) gomap"
  mf_Gauges :: "string list"
  mf_IsInstanceLevel :: bool
  mf_NodeStatus :: string
  mf_Description :: string

record MergedMetrics =
  mm_Preset :: string
  mm_Intervals :: "(string, int) gomap"
  mm_Definitions :: "(string, MetricDef) gomap"

definition defaultInterval :: int where "defaultInterval = 60"

definition metric_interval :: "MetricDefinition \<Rightarrow> int" where
  "metric_interval md =
     (let interval = (case md_Interval md of
                        None \<Rightarrow> defaultInterval
                      | Some d \<Rightarrow> duration_to_seconds d)
      in if interval \<le> 0 then defaultInterval else interval)"

fun sqls_loop :: "(int, string) gomap \<Rightarrow> (string, string) gomap \<Rightarrow> (int, string) gomap" where
  "sqls_loop sqls [] = sqls"
| "sqls_loop sqls ((verStr, sql) # rest) =
     (case Atoi verStr of
        None \<Rightarrow> sqls_loop sqls rest
      | Some ver \<Rightarrow> sqls_loop (gm_put ver sql sqls) rest)"

definition node_status :: "MetricDefinition \<Rightarrow> string" where
  "node_status md =
     (if md_MasterOnly md then ''primary'' else if md_StandbyOnly md then ''standby'' else [])"

definition metric_def :: "MetricDefinition \<Rightarrow> MetricDef" where
  "metric_def md =
     \<lparr>mf_SQLs = sqls_loop [] (md_SQLs md),
      mf_Gauges = md_Gauges md,
      mf_IsInstanceLevel = md_IsInstanceLevel md,
      mf_NodeStatus = node_status md,
      mf_Description = md_Description md\<rparr>"

definition addMetric :: "MergedMetrics \<Rightarrow> MetricDefinition \<Rightarrow> MergedMetrics" where
  "addMetric m md =
     m\<lparr>mm_Intervals := gm_put (md_Name md) (metric_interval md) (mm_Intervals m),
       mm_Definitions := gm_put (md_Name md) (metric_def md) (mm_Definitions m)\<rparr>"

definition MergeMetrics :: "MetricsSpec \<Rightarrow> PgpilotMetricLibrary list \<Rightarrow> MergedMetrics" where
  "MergeMetrics spec libraries =
     (let m0 = \<lparr>mm_Preset = ms_Preset spec, mm_Intervals = [], mm_Definitions = []\<rparr>;
          m1 = foldl (\<lambda>m lib. foldl addMetric m (ls_Metrics (lib_Spec lib))) m0 libraries
      in foldl addMetric m1 (ms_Custom spec))"

section \<open>Abstract specification\<close>

definition all_metrics :: "MetricsSpec \<Rightarrow> PgpilotMetricLibrary list \<Rightarrow> MetricDefinition list" where
  "all_metrics spec libraries = concat (map (\<lambda>lib. ls_Metrics (lib_Spec lib)) libraries) @ ms_Custom spec"

definition effective_metric ::
  "MetricsSpec \<Rightarrow> PgpilotMetricLibrary list \<Rightarrow> string \<Rightarrow> MetricDefinition option" where
  "effective_metric spec libraries =
     last_of (map (\<lambda>md. (md_Name md, md)) (all_metrics spec libraries))"

lemma MergeMetrics_foldl:
  "MergeMetrics spec libraries =
     foldl addMetric \<lparr>mm_Preset = ms_Preset spec, mm_Intervals = [], mm_Definitions = []\<rparr>
       (all_metrics spec libraries)"
proof -
  have "foldl (\<lambda>m lib. foldl addMetric m (ls_Metrics (lib_Spec lib))) m libraries =
        foldl addMetric m (concat (map (\<lambda>lib. ls_Metrics (lib_Spec lib)) libraries))" for m
    by (induction libraries arbitrary: m) simp_all
  then show ?thesis by (simp add: MergeMetrics_def all_metrics_def Let_def)
qed

section \<open>The fold keeps the last definition of every name\<close>

lemma addMetric_simps [simp]:
  "mm_Preset (addMetric m md) = mm_Preset m"
  "mm_Intervals (addMetric m md) = gm_put (md_Name md) (metric_interval md) (mm_Intervals m)"
  "mm_Definitions (addMetric m md) = gm_put (md_Name md) (metric_def md) (mm_Definitions m)"
  by (simp_all add: addMetric_def)

lemma foldl_addMetric_preset: "mm_Preset (foldl addMetric m mds) = mm_Preset m"
  by (induction mds arbitrary: m) simp_all

lemma foldl_addMetric_get:
  "gm_get (mm_Intervals (foldl addMetric m mds)) n =
     (case last_of (map (\<lambda>md. (md_Name md, md)) mds) n of
        None \<Rightarrow> gm_get (mm_Intervals m) n | Some md \<Rightarrow> Some (metric_interval md))"
  "gm_get (mm_Definitions (foldl addMetric m mds)) n =
     (case last_of (map (\<lambda>md. (md_Name md, md)) mds) n of
        None \<Rightarrow> gm_get (mm_Definitions m) n | Some md \<Rightarrow> Some (metric_def md))"
  by (induction mds rule: rev_induct) (auto simp: last_of_snoc gomap_simps)

lemma foldl_addMetric_wf:
  assumes "gomap_wf (mm_Intervals m)" "gomap_wf (mm_Definitions m)"
  shows "gomap_wf (mm_Intervals (foldl addMetric m mds)) \<and> gomap_wf (mm_Definitions (foldl addMetric m mds))"
  using assms by (induction mds rule: rev_induct) (auto intro: wf_intros)

lemma foldl_addMetric_keys:
  assumes "gm_keys (mm_Intervals m) = gm_keys (mm_Definitions m)"
  shows "gm_keys (mm_Intervals (foldl addMetric m mds)) = gm_keys (mm_Definitions (foldl addMetric m mds))"
  using assms
proof (induction mds rule: rev_induct)
  case (snoc md mds)
  then show ?case by (simp add: gm_put_def update_keys)
qed simp

definition merged_wf :: "MergedMetrics \<Rightarrow> bool" where
  "merged_wf m \<longleftrightarrow> gomap_wf (mm_Intervals m) \<and> gomap_wf (mm_Definitions m)
     \<and> gm_keys (mm_Intervals m) = gm_keys (mm_Definitions m)
     \<and> list_all (\<lambda>(n, i). 0 < i) (mm_Intervals m)"

lemma MergeMetrics_get:
  "gm_get (mm_Intervals (MergeMetrics spec libs)) n = map_option metric_interval (effective_metric spec libs n)"
  "gm_get (mm_Definitions (MergeMetrics spec libs)) n = map_option metric_def (effective_metric spec libs n)"
  by (auto simp: MergeMetrics_foldl effective_metric_def foldl_addMetric_get split: option.split)

lemma MergeMetrics_preset [simp]: "mm_Preset (MergeMetrics spec libs) = ms_Preset spec"
  by (simp add: MergeMetrics_foldl foldl_addMetric_preset)

lemma metric_interval_pos: "0 < metric_interval md"
  by (auto simp: metric_interval_def Let_def defaultInterval_def split: option.splits)

lemma MergeMetrics_wf: "merged_wf (MergeMetrics spec libs)"
proof -
  have wf: "gomap_wf (mm_Intervals (MergeMetrics spec libs))" "gomap_wf (mm_Definitions (MergeMetrics spec libs))"
    by (simp_all add: MergeMetrics_foldl foldl_addMetric_wf)
  have keys: "gm_keys (mm_Intervals (MergeMetrics spec libs)) = gm_keys (mm_Definitions (MergeMetrics spec libs))"
    unfolding MergeMetrics_foldl by (rule foldl_addMetric_keys) simp
  have "0 < i" if "(n, i) \<in> set (mm_Intervals (MergeMetrics spec libs))" for n i
  proof -
    from that wf(1) have "gm_get (mm_Intervals (MergeMetrics spec libs)) n = Some i"
      by (simp add: gomap_wf_def)
    then show ?thesis by (auto simp: MergeMetrics_get metric_interval_pos)
  qed
  with wf keys show ?thesis by (auto simp: merged_wf_def list_all_iff)
qed

lemma merged_wf_empty_iff: "merged_wf m \<Longrightarrow> mm_Intervals m = [] \<longleftrightarrow> mm_Definitions m = []"
  by (auto simp: merged_wf_def dest: arg_cong [where f = length])

section \<open>The versions of one metric\<close>

text \<open>
  The pairs the loop over \<open>md.SQLs\<close> assigns, in iteration order: keys that \<open>Atoi\<close> rejects
  are skipped.
\<close>

definition sql_assignments :: "(string, string) gomap \<Rightarrow> (int \<times> string) list" where
  "sql_assignments m = List.map_filter (\<lambda>(k, q). map_option (\<lambda>v. (v, q)) (Atoi k)) m"

lemma sql_assignments_simps [simp]:
  "sql_assignments [] = []"
  "sql_assignments ((k, q) # m) =
     (case Atoi k of None \<Rightarrow> sql_assignments m | Some v \<Rightarrow> (v, q) # sql_assignments m)"
  by (simp_all add: sql_assignments_def List.map_filter_simps split: option.split)

lemma sqls_loop_get:
  "gm_get (sqls_loop sqls m) v =
     (case last_of (sql_assignments m) v of None \<Rightarrow> gm_get sqls v | Some q \<Rightarrow> Some q)"
proof (induction sqls m rule: sqls_loop.induct)
  case (2 sqls k q rest)
  show ?case
    using 2 by (auto simp: gomap_simps last_of_Cons split: option.split)
qed simp

lemma sqls_loop_wf [wf_intros]: "gomap_wf sqls \<Longrightarrow> gomap_wf (sqls_loop sqls m)"
  by (induction sqls m rule: sqls_loop.induct) (auto intro: wf_intros split: option.split)

lemma sql_assignments_mem:
  "(v, q) \<in> set (sql_assignments m) \<longleftrightarrow> (\<exists>k. (k, q) \<in> set m \<and> Atoi k = Some v)"
  by (induction m) (auto split: option.splits)

definition versions_distinct :: "(string, string) gomap \<Rightarrow> bool" where
  "versions_distinct m \<longleftrightarrow> inj_on Atoi {k \<in> set (gm_keys m). Atoi k \<noteq> None}"

text \<open>
  When no two keys denote one version the loop computes the relabelled map, whatever the
  iteration order: version \<open>v\<close> gets the statement of the one key that denotes it.
\<close>

lemma sqls_loop_unique:
  assumes "gomap_wf m" "versions_distinct m"
  shows "gm_get (sqls_loop [] m) v = Some q \<longleftrightarrow> (\<exists>k. gm_get m k = Some q \<and> Atoi k = Some v)"
proof -
  have mem: "(k, q) \<in> set m \<longleftrightarrow> gm_get m k = Some q" for k q
    using assms(1) by (simp add: gomap_wf_def)
  have one: "q = q'" if "(v, q) \<in> set (sql_assignments m)" "(v, q') \<in> set (sql_assignments m)" for q q'
  proof -
    from that obtain k k' where k: "(k, q) \<in> set m" "Atoi k = Some v" "(k', q') \<in> set m" "Atoi k' = Some v"
      by (auto simp: sql_assignments_mem)
    then have "k \<in> set (gm_keys m)" "k' \<in> set (gm_keys m)" by force+
    with k(2,4) have "k = k'"
      by (intro inj_onD [OF assms(2) [unfolded versions_distinct_def]]) auto
    with k mem show ?thesis by auto
  qed
  have "last_of (sql_assignments m) v = Some q \<longleftrightarrow> (v, q) \<in> set (sql_assignments m)"
  proof
    assume "(v, q) \<in> set (sql_assignments m)"
    then have "v \<in> fst ` set (sql_assignments m)" by force
    then obtain q' where "last_of (sql_assignments m) v = Some q'"
      by (metis last_of_eq_None not_None_eq)
    with one last_of_in_set \<open>(v, q) \<in> set (sql_assignments m)\<close> show "last_of (sql_assignments m) v = Some q"
      by metis
  qed (rule last_of_in_set)
  moreover have "gm_get (sqls_loop [] m) v = last_of (sql_assignments m) v"
    by (simp add: sqls_loop_get split: option.split)
  ultimately show ?thesis by (simp add: sql_assignments_mem mem)
qed

lemma sqls_loop_order:
  assumes "gomap_wf m" "gomap_wf m'" "gm_get m = gm_get m'" "versions_distinct m"
  shows "gm_get (sqls_loop [] m) = gm_get (sqls_loop [] m')"
proof
  fix v
  have "versions_distinct m'"
    using assms(4) unfolding versions_distinct_def gomap_keys_set_eq [OF assms(3)] .
  then have "gm_get (sqls_loop [] m) v = Some q \<longleftrightarrow> gm_get (sqls_loop [] m') v = Some q" for q
    using sqls_loop_unique [OF assms(1,4)] sqls_loop_unique [OF assms(2)] assms(3) by simp
  then show "gm_get (sqls_loop [] m) v = gm_get (sqls_loop [] m') v"
    by (metis option.exhaust)
qed

section \<open>Merging is insensitive to map order\<close>

definition metric_def_equiv :: "MetricDef \<Rightarrow> MetricDef \<Rightarrow> bool" where
  "metric_def_equiv d d' \<longleftrightarrow>
     gm_eq (mf_SQLs d) (mf_SQLs d') \<and> d\<lparr>mf_SQLs := []\<rparr> = d'\<lparr>mf_SQLs := []\<rparr>"

definition merged_equiv :: "MergedMetrics \<Rightarrow> MergedMetrics \<Rightarrow> bool" where
  "merged_equiv m m' \<longleftrightarrow> mm_Preset m = mm_Preset m'
     \<and> gm_eq (mm_Intervals m) (mm_Intervals m')
     \<and> gm_rel metric_def_equiv (mm_Definitions m) (mm_Definitions m')"

text \<open>One metric definition read twice: the map \<open>sqls\<close> may be iterated in another order.\<close>

definition metric_equiv :: "MetricDefinition \<Rightarrow> MetricDefinition \<Rightarrow> bool" where
  "metric_equiv md md' \<longleftrightarrow>
     gomap_wf (md_SQLs md) \<and> gomap_wf (md_SQLs md') \<and> gm_eq (md_SQLs md) (md_SQLs md')
     \<and> versions_distinct (md_SQLs md) \<and> md\<lparr>md_SQLs := []\<rparr> = md'\<lparr>md_SQLs := []\<rparr>"

lemma metric_equiv_fields:
  assumes "metric_equiv md md'"
  shows "md_Name md = md_Name md'" "metric_interval md = metric_interval md'"
    "metric_def_equiv (metric_def md) (metric_def md')"
proof -
  have eq: "md\<lparr>md_SQLs := []\<rparr> = md'\<lparr>md_SQLs := []\<rparr>"
    using assms by (simp add: metric_equiv_def)
  then have f: "md_Name md = md_Name md'" "md_Interval md = md_Interval md'"
      "md_Gauges md = md_Gauges md'" "md_IsInstanceLevel md = md_IsInstanceLevel md'"
      "md_MasterOnly md = md_MasterOnly md'" "md_StandbyOnly md = md_StandbyOnly md'"
      "md_Description md = md_Description md'"
    by (cases md, cases md', simp)+
  then show "md_Name md = md_Name md'" "metric_interval md = metric_interval md'"
    by (simp_all add: metric_interval_def)
  have "gm_get (sqls_loop [] (md_SQLs md)) = gm_get (sqls_loop [] (md_SQLs md'))"
    using assms by (intro sqls_loop_order) (auto simp: metric_equiv_def gm_eq_iff)
  with f show "metric_def_equiv (metric_def md) (metric_def md')"
    by (simp add: metric_def_equiv_def metric_def_def gm_eq_iff node_status_def)
qed

lemma effective_metric_equiv:
  assumes "list_all2 metric_equiv (all_metrics spec libs) (all_metrics spec' libs')"
  shows "rel_option metric_equiv (effective_metric spec libs n) (effective_metric spec' libs' n)"
  unfolding effective_metric_def
  using assms
proof (induction rule: list_all2_induct)
  case (Cons md mds md' mds')
  then show ?case
    using metric_equiv_fields(1) [of md md']
    by (auto simp: last_of_Cons option_rel_Some1 option_rel_Some2 split: option.split)
qed simp

lemma MergeMetrics_equiv:
  assumes "ms_Preset spec = ms_Preset spec'"
    and "list_all2 metric_equiv (all_metrics spec libs) (all_metrics spec' libs')"
  shows "merged_equiv (MergeMetrics spec libs) (MergeMetrics spec' libs')"
proof -
  have eff: "rel_option metric_equiv (effective_metric spec libs n) (effective_metric spec' libs' n)" for n
    by (rule effective_metric_equiv [OF assms(2)])
  have "rel_option (=) (map_option metric_interval (effective_metric spec libs n))
      (map_option metric_interval (effective_metric spec' libs' n))" for n
    using eff [of n] by (rule option.rel_cases) (auto dest: metric_equiv_fields(2))
  moreover have "rel_option metric_def_equiv (map_option metric_def (effective_metric spec libs n))
      (map_option metric_def (effective_metric spec' libs' n))" for n
    using eff [of n] by (rule option.rel_cases) (auto dest: metric_equiv_fields(3))
  ultimately show ?thesis
    using assms(1) by (simp add: merged_equiv_def gm_rel_iff MergeMetrics_get)
qed

end
