(* ===== verification/PgwatchBuiltin.thy ===== *)
theory PgwatchBuiltin
  imports MetricsMerge
begin

text \<open>
  \<open>internal/builder/pgwatch_builtin.go\<close> and the pgwatch file formats of \<open>configmap.go\<close>. The two
  YAML libraries are not part of the repository: they are the fields of a \<open>yaml_lib\<close>, together
  with the embedded bytes of \<open>pgwatchdata/metrics.yaml\<close>, and every definition that reaches them
  takes the record as an argument.
\<close>

section \<open>File formats\<close>

record pgwatchSource =
  src_Name :: string
  src_ConnStr :: string
  src_Kind :: string
  src_PresetMetrics :: string
  src_CustomMetrics :: "(string, int) gomap"
  src_IsEnabled :: bool
  src_CustomTags :: "(string, string) gomap"

record pgwatchMetric =
  pw_InitSQL :: string
  pw_SQLs :: "(int, string) gomap"
  pw_Gauges :: "string list"
  pw_IsInstanceLevel :: bool
  pw_NodeStatus :: string
  pw_StorageName :: string
  pw_Description :: string

record pgwatchPreset =
  pp_Description :: string
  pp_Metrics :: "(string, int) gomap"

record pgwatchMetricsFile =
  pf_Metrics :: "(string, pgwatchMetric) gomap"
  pf_Presets :: "(string, pgwatchPreset) gomap"

section \<open>The YAML libraries\<close>

record yaml_lib =
  yaml_Marshal :: "pgwatchSource list \<Rightarrow> goerror + string"
  yamlv3_Marshal :: "pgwatchMetricsFile \<Rightarrow> goerror + string"
  yamlv3_Unmarshal :: "string \<Rightarrow> goerror + pgwatchMetricsFile"
  builtinMetricsYAML :: string

section \<open>The embedded registry\<close>

definition loadBuiltinMetrics ::
  "yaml_lib \<Rightarrow> goerror + (string, pgwatchMetric) gomap \<times> (string, pgwatchPreset) gomap" where
  "loadBuiltinMetrics y =
     (case yamlv3_Unmarshal y (builtinMetricsYAML y) of
        Inl err \<Rightarrow> Inl (ErrWrap ''parse embedded pgwatch metrics.yaml'' err)
      | Inr parsed \<Rightarrow> Inr (pf_Metrics parsed, pf_Presets parsed))"

definition expandPresetIntoIntervals ::
  "yaml_lib \<Rightarrow> string \<Rightarrow> (string, int) gomap \<Rightarrow> goerror + (string, int) gomap" where
  "expandPresetIntoIntervals y presetName userIntervals =
     (case loadBuiltinMetrics y of
        Inl err \<Rightarrow> Inl err
      | Inr (_, presets) \<Rightarrow>
          (case gm_get presets presetName of
             None \<Rightarrow> Inl (ErrOther (''unknown pgwatch preset '' @ go_quote presetName))
           | Some preset \<Rightarrow> Inr (maps_Copy (maps_Copy [] (pp_Metrics preset)) userIntervals)))"

text \<open>
  What a registry read from YAML satisfies: its maps have no duplicate keys. That every preset lists
  metrics the registry defines is not assumed: the embedded file has a preset that does not.
\<close>

definition registry_wf :: "(string, pgwatchMetric) gomap \<Rightarrow> (string, pgwatchPreset) gomap \<Rightarrow> bool" where
  "registry_wf bm bp \<longleftrightarrow> gomap_wf bm \<and> gomap_wf bp \<and> list_all (\<lambda>(_, p). gomap_wf (pp_Metrics p)) bp"

lemma registry_wf_preset: "registry_wf bm bp \<Longrightarrow> gm_get bp n = Some p \<Longrightarrow> gomap_wf (pp_Metrics p)"
  by (auto simp: registry_wf_def list_all_iff dest: map_of_SomeD)

lemma expandPreset_unknown:
  assumes "loadBuiltinMetrics y = Inr (bm, bp)" "gm_get bp n = None"
  shows "expandPresetIntoIntervals y n user = Inl (ErrOther (''unknown pgwatch preset '' @ go_quote n))"
  using assms by (simp add: expandPresetIntoIntervals_def)

lemma expandPreset_get:
  assumes "loadBuiltinMetrics y = Inr (bm, bp)" "registry_wf bm bp" "gm_get bp n = Some p" "gomap_wf user"
  obtains out where "expandPresetIntoIntervals y n user = Inr out" "gomap_wf out"
    "gm_get out = gm_get (pp_Metrics p) ++ gm_get user"
proof
  show "expandPresetIntoIntervals y n user = Inr (maps_Copy (maps_Copy [] (pp_Metrics p)) user)"
    using assms by (simp add: expandPresetIntoIntervals_def)
  show "gm_get (maps_Copy (maps_Copy [] (pp_Metrics p)) user) = gm_get (pp_Metrics p) ++ gm_get user"
    using registry_wf_preset [OF assms(2,3)] assms(4) by (simp add: gomap_simps)
qed (auto intro: wf_intros)

end
