(* ===== verification/Sha256.thy ===== *)
theory Sha256
  imports GoStrings
begin

text \<open>
  Go's \<open>crypto/sha256\<close> as FIPS 180-4 defines it, on 32-bit words whose additions wrap, and
  the lower-case hexadecimal rendering \<open>%x\<close> of the 32-byte digest. The configuration hash of
  the operator is such a rendering. No collision resistance is assumed anywhere: where two
  configurations could only have one hash by a collision, the theorem says so.
\<close>

unbundle bit_operations_syntax

type_synonym u32 = "32 word"
type_synonym byte = "8 word"
type_synonym sha_state = "u32 \<times> u32 \<times> u32 \<times> u32 \<times> u32 \<times> u32 \<times> u32 \<times> u32"

section \<open>The compression function\<close>

definition sha_K :: "u32 list" where
  "sha_K =
    [1116352408, 1899447441, 3049323471, 3921009573, 961987163, 1508970993,
     2453635748, 2870763221, 3624381080, 310598401, 607225278, 1426881987,
     1925078388, 2162078206, 2614888103, 3248222580, 3835390401, 4022224774,
     264347078, 604807628, 770255983, 1249150122, 1555081692, 1996064986,
     2554220882, 2821834349, 2952996808, 3210313671, 3336571891, 3584528711,
     113926993, 338241895, 666307205, 773529912, 1294757372, 1396182291,
     1695183700, 1986661051, 2177026350, 2456956037, 2730485921, 2820302411,
     3259730800, 3345764771, 3516065817, 3600352804, 4094571909, 275423344,
     430227734, 506948616, 659060556, 883997877, 958139571, 1322822218,
     1537002063, 1747873779, 1955562222, 2024104815, 2227730452, 2361852424,
     2428436474, 2756734187, 3204031479, 3329325298]"

definition sha_init :: sha_state where
  "sha_init =
    (1779033703, 3144134277, 1013904242, 2773480762,
     1359893119, 2600822924, 528734635, 1541459225)"

text \<open>
  Where the constants come from, as a check of the tables: the first 32 bits of the fractional parts
  of the cube roots (and, for the initial state, of the square roots) of the first primes.
\<close>

definition sha_primes :: "int list" where
  "sha_primes =
    [2, 3, 5, 7, 11, 13, 17, 19, 23, 29, 31, 37, 41, 43, 47, 53, 59, 61, 67, 71, 73, 79, 83, 89, 97, 101,
     103, 107, 109, 113, 127, 131, 137, 139, 149, 151, 157, 163, 167, 173, 179, 181, 191, 193, 197, 199,
     211, 223, 227, 229, 233, 239, 241, 251, 257, 263, 269, 271, 277, 281, 283, 293, 307, 311]"

definition root_digits :: "nat \<Rightarrow> int \<Rightarrow> int \<Rightarrow> u32 \<Rightarrow> bool" where
  "root_digits n whole p k \<longleftrightarrow>
     (let x = whole * 2 ^ 32 + uint k; y = p * 2 ^ (32 * n) in x ^ n \<le> y \<and> y < (x + 1) ^ n)"

lemma sha_init_square_roots:
  "(case sha_init of (a, b, c, d, e, f, g, h) \<Rightarrow>
     list_all (\<lambda>(whole, p, k). root_digits 2 whole p k)
       (zip [1, 1, 2, 2, 3, 3, 4, 4] (zip sha_primes [a, b, c, d, e, f, g, h])))"
  by (simp add: sha_primes_def sha_init_def root_digits_def Let_def)

lemma sha_K_cube_roots:
  "list_all (\<lambda>(whole, p, k). root_digits 3 whole p k)
     (zip [1, 1, 1, 1, 2, 2, 2, 2, 2, 3, 3, 3, 3, 3, 3, 3, 3, 3, 4, 4, 4, 4, 4, 4, 4, 4, 4, 4, 4, 4, 5, 5,
         5, 5, 5, 5, 5, 5, 5, 5, 5, 5, 5, 5, 5, 5, 5, 6, 6, 6, 6, 6, 6, 6, 6, 6, 6, 6, 6, 6, 6, 6, 6, 6]
       (zip sha_primes sha_K))"
  by (simp add: sha_primes_def sha_K_def root_digits_def Let_def)

text \<open>\<open>bits.RotateLeft32(x, -n)\<close> for \<open>0 < n < 32\<close>: a rotation to the right.\<close>

definition sha_rotr :: "nat \<Rightarrow> u32 \<Rightarrow> u32" where
  "sha_rotr n x = drop_bit n x OR push_bit (32 - n) x"

definition sha_ch :: "u32 \<Rightarrow> u32 \<Rightarrow> u32 \<Rightarrow> u32" where
  "sha_ch x y z = (x AND y) XOR (NOT x AND z)"

definition sha_maj :: "u32 \<Rightarrow> u32 \<Rightarrow> u32 \<Rightarrow> u32" where
  "sha_maj x y z = (x AND y) XOR (x AND z) XOR (y AND z)"

definition sha_Sig0 :: "u32 \<Rightarrow> u32" where
  "sha_Sig0 x = sha_rotr 2 x XOR sha_rotr 13 x XOR sha_rotr 22 x"

definition sha_Sig1 :: "u32 \<Rightarrow> u32" where
  "sha_Sig1 x = sha_rotr 6 x XOR sha_rotr 11 x XOR sha_rotr 25 x"

definition sha_sig0 :: "u32 \<Rightarrow> u32" where
  "sha_sig0 x = sha_rotr 7 x XOR sha_rotr 18 x XOR drop_bit 3 x"

definition sha_sig1 :: "u32 \<Rightarrow> u32" where
  "sha_sig1 x = sha_rotr 17 x XOR sha_rotr 19 x XOR drop_bit 10 x"

text \<open>
  The message schedule, newest word first: with \<open>ws = w(t-1) # w(t-2) # ...\<close> the next word
  reads the positions 1, 6, 14 and 15.
\<close>

fun sha_extend :: "nat \<Rightarrow> u32 list \<Rightarrow> u32 list" where
  "sha_extend 0 ws = ws"
| "sha_extend (Suc n) ws =
     sha_extend n ((sha_sig1 (ws ! 1) + ws ! 6 + sha_sig0 (ws ! 14) + ws ! 15) # ws)"

definition sha_schedule :: "u32 list \<Rightarrow> u32 list" where
  "sha_schedule block = rev (sha_extend 48 (rev block))"

fun sha_round :: "sha_state \<Rightarrow> u32 \<times> u32 \<Rightarrow> sha_state" where
  "sha_round (a, b, c, d, e, f, g, h) (k, w) =
     (let t1 = h + sha_Sig1 e + sha_ch e f g + k + w;
          t2 = sha_Sig0 a + sha_maj a b c
      in (t1 + t2, a, b, c, d + t1, e, f, g))"

fun sha_add :: "sha_state \<Rightarrow> sha_state \<Rightarrow> sha_state" where
  "sha_add (a, b, c, d, e, f, g, h) (a', b', c', d', e', f', g', h') =
     (a + a', b + b', c + c', d + d', e + e', f + f', g + g', h + h')"

definition sha_compress :: "sha_state \<Rightarrow> u32 list \<Rightarrow> sha_state" where
  "sha_compress s block = sha_add s (foldl sha_round s (zip sha_K (sha_schedule block)))"

section \<open>Padding, blocks and the digest\<close>

definition be_bytes :: "nat \<Rightarrow> nat \<Rightarrow> byte list" where
  "be_bytes k n = map (\<lambda>i. of_nat (n div 256 ^ (k - 1 - i))) [0..<k]"

definition sha_pad :: "byte list \<Rightarrow> byte list" where
  "sha_pad msg = msg @ [0x80] @ replicate ((119 - length msg mod 64) mod 64) 0
                   @ be_bytes 8 (8 * length msg)"

fun be_words :: "byte list \<Rightarrow> u32 list" where
  "be_words (b0 # b1 # b2 # b3 # bs) =
     (push_bit 24 (ucast b0) OR push_bit 16 (ucast b1) OR push_bit 8 (ucast b2) OR ucast b3)
     # be_words bs"
| "be_words _ = []"

function sha_blocks :: "u32 list \<Rightarrow> u32 list list" where
  "sha_blocks ws = (if ws = [] then [] else take 16 ws # sha_blocks (drop 16 ws))"
  by pat_completeness auto
termination
  by (relation "measure length") auto

declare sha_blocks.simps [simp del]

definition word_bytes :: "u32 \<Rightarrow> byte list" where
  "word_bytes w = [ucast (drop_bit 24 w), ucast (drop_bit 16 w), ucast (drop_bit 8 w), ucast w]"

fun sha_digest :: "sha_state \<Rightarrow> byte list" where
  "sha_digest (a, b, c, d, e, f, g, h) =
     concat (map word_bytes [a, b, c, d, e, f, g, h])"

definition string_bytes :: "string \<Rightarrow> byte list" where
  "string_bytes s = map (\<lambda>c. of_nat (of_char c)) s"

definition sha256_Sum :: "string \<Rightarrow> byte list" where
  "sha256_Sum s =
     sha_digest (foldl sha_compress sha_init (sha_blocks (be_words (sha_pad (string_bytes s)))))"

text \<open>\<open>fmt.Sprintf("%x", bytes)\<close>.\<close>

definition hex_string :: "byte list \<Rightarrow> string" where
  "hex_string bs = concat (map (\<lambda>b. hex_byte (unat b)) bs)"

section \<open>Shape of the result\<close>

lemma sha_digest_length [simp]: "length (sha_digest s) = 32"
  by (cases s rule: sha_digest.cases) (simp add: word_bytes_def)

lemma sha256_Sum_length [simp]: "length (sha256_Sum s) = 32"
  by (simp add: sha256_Sum_def)

lemma hex_string_length [simp]: "length (hex_string bs) = 2 * length bs"
  by (induction bs) (auto simp: hex_string_def hex_byte_def)

lemma be_bytes_length [simp]: "length (be_bytes k n) = k"
  by (simp add: be_bytes_def)

text \<open>The padded message is a whole number of 64-byte blocks.\<close>

lemma sha_pad_length: "length (sha_pad msg) mod 64 = 0"
proof -
  define r where "r = length msg mod 64"
  have "r < 64" by (simp add: r_def)
  have "length (sha_pad msg) = length msg + (9 + (119 - r) mod 64)"
    by (simp add: sha_pad_def r_def)
  then have "length (sha_pad msg) mod 64 = (r + (9 + (119 - r) mod 64)) mod 64"
    by (simp add: r_def mod_add_left_eq)
  also have "\<dots> = (r + 9 + (119 - r)) mod 64"
    by (metis add.assoc mod_add_right_eq)
  also have "\<dots> = 0" using \<open>r < 64\<close> by simp
  finally show ?thesis .
qed

end
