(* ===== verification/ConfigMap.thy ===== *)
theory ConfigMap
  imports PgwatchBuiltin Sha256
begin

text \<open>
  \<open>internal/builder/configmap.go\<close>: the two files the pgwatch pod mounts, and the hash that rolls
  the pod. \<open>source_entry\<close> and \<open>metrics_file\<close> are the structs \<open>renderSources\<close> and
  \<open>renderMetrics\<close> build before they marshal them.
\<close>

section \<open>Rendering\<close>

definition SourcesKey :: string where "SourcesKey = ''sources.yaml''"
definition MetricsKey :: string where "MetricsKey = ''metrics.yaml''"

definition buildConnStr :: "DatabaseRef \<Rightarrow> string" where
  "buildConnStr db =
     (let port = (if db_Port db = 0 then 5432 else db_Port db);
          sslmode = (if db_SSLMode db = [] then SSLModeDisable else db_SSLMode db)
      in ''postgresql://'' @ db_Host db @ '':'' @ itoa (sint port) @ ''/'' @ db_Database db
           @ ''?sslmode='' @ sslmode)"

definition source_entry :: "yaml_lib \<Rightarrow> PgpilotMonitor \<Rightarrow> MergedMetrics \<Rightarrow> goerror + pgwatchSource" where
  "source_entry y monitor merged =
     (let db = pm_Database monitor;
          src = \<lparr>src_Name = pm_Name monitor,
                 src_ConnStr = buildConnStr db,
                 src_Kind = ''postgres'',
                 src_PresetMetrics = [],
                 src_CustomMetrics = [],
                 src_IsEnabled = True,
                 src_CustomTags = db_CustomTags db\<rparr>
      in if mm_Preset merged \<noteq> [] \<and> mm_Intervals merged \<noteq> []
         then (case expandPresetIntoIntervals y (mm_Preset merged) (mm_Intervals merged) of
                 Inl err \<Rightarrow> Inl err
               | Inr expanded \<Rightarrow> Inr (src\<lparr>src_CustomMetrics := expanded\<rparr>))
         else if mm_Preset merged \<noteq> [] then Inr (src\<lparr>src_PresetMetrics := mm_Preset merged\<rparr>)
         else if mm_Intervals merged \<noteq> [] then Inr (src\<lparr>src_CustomMetrics := mm_Intervals merged\<rparr>)
         else Inr src)"

definition renderSources :: "yaml_lib \<Rightarrow> PgpilotMonitor \<Rightarrow> MergedMetrics \<Rightarrow> goerror + string" where
  "renderSources y monitor merged =
     (case source_entry y monitor merged of
        Inl err \<Rightarrow> Inl err
      | Inr src \<Rightarrow> yaml_Marshal y [src])"

definition to_pgwatchMetric :: "MetricDef \<Rightarrow> pgwatchMetric" where
  "to_pgwatchMetric def =
     \<lparr>pw_InitSQL = [],
      pw_SQLs = mf_SQLs def,
      pw_Gauges = mf_Gauges def,
      pw_IsInstanceLevel = mf_IsInstanceLevel def,
      pw_NodeStatus = mf_NodeStatus def,
      pw_StorageName = [],
      pw_Description = mf_Description def\<rparr>"

fun definitions_loop ::
  "(string, pgwatchMetric) gomap \<Rightarrow> (string, MetricDef) gomap \<Rightarrow> (string, pgwatchMetric) gomap" where
  "definitions_loop metrics [] = metrics"
| "definitions_loop metrics ((name, def) # rest) =
     definitions_loop (gm_put name (to_pgwatchMetric def) metrics) rest"

definition metrics_file :: "yaml_lib \<Rightarrow> MergedMetrics \<Rightarrow> goerror + pgwatchMetricsFile" where
  "metrics_file y merged =
     (let base = (if mm_Preset merged \<noteq> []
                  then (case loadBuiltinMetrics y of
                          Inl err \<Rightarrow> Inl err
                        | Inr (bm, bp) \<Rightarrow> Inr (maps_Copy [] bm, maps_Copy [] bp))
                  else Inr ([], []))
      in case base of
           Inl err \<Rightarrow> Inl err
         | Inr (metrics, presets) \<Rightarrow>
             Inr \<lparr>pf_Metrics = definitions_loop metrics (mm_Definitions merged), pf_Presets = presets\<rparr>)"

definition renderMetrics :: "yaml_lib \<Rightarrow> MergedMetrics \<Rightarrow> goerror + string" where
  "renderMetrics y merged =
     (case metrics_file y merged of
        Inl err \<Rightarrow> Inl err
      | Inr mf \<Rightarrow> yamlv3_Marshal y mf)"

section \<open>The content hash\<close>

text \<open>The bytes written into the hash: every key, in sorted order, and its value, NUL-terminated.\<close>

definition hash_input :: "(string, string) gomap \<Rightarrow> string" where
  "hash_input data =
     concat (map (\<lambda>k. k @ [CHR 0x00] @ the (gm_get data k) @ [CHR 0x00]) (sort_Strings (gm_keys data)))"

definition contentHash :: "(string, string) gomap \<Rightarrow> string" where
  "contentHash data = hex_string (sha256_Sum (hash_input data))"

section \<open>The ConfigMap\<close>

definition needs_metrics_file :: "MergedMetrics \<Rightarrow> bool" where
  "needs_metrics_file merged \<longleftrightarrow> mm_Preset merged \<noteq> [] \<or> mm_Definitions merged \<noteq> []"

definition config_data :: "yaml_lib \<Rightarrow> PgpilotMonitor \<Rightarrow> MergedMetrics \<Rightarrow> goerror + (string, string) gomap" where
  "config_data y monitor merged =
     (case renderSources y monitor merged of
        Inl err \<Rightarrow> Inl (ErrWrap ''render sources.yaml'' err)
      | Inr sourcesYAML \<Rightarrow>
          (let data = [(SourcesKey, sourcesYAML)]
           in if needs_metrics_file merged
              then (case renderMetrics y merged of
                      Inl err \<Rightarrow> Inl (ErrWrap ''render metrics.yaml'' err)
                    | Inr metricsYAML \<Rightarrow> Inr (gm_put MetricsKey metricsYAML data))
              else Inr data))"

definition BuildConfigMap ::
  "yaml_lib \<Rightarrow> PgpilotMonitor \<Rightarrow> MergedMetrics \<Rightarrow> goerror + ConfigMap \<times> string" where
  "BuildConfigMap y monitor merged =
     (case config_data y monitor merged of
        Inl err \<Rightarrow> Inl err
      | Inr data \<Rightarrow>
          Inr (\<lparr>cm_Meta = emptyMeta\<lparr>om_Name := ResourceName (pm_Name monitor) @ ''-config'',
                                    om_Namespace := pm_Namespace monitor,
                                    om_Labels := SystemLabels (pm_Name monitor)\<rparr>,
                cm_Data = data\<rparr>, contentHash data))"

section \<open>What pgwatch collects\<close>

text \<open>
  The contract of pgwatch that \<open>renderSources\<close> is written against: the presets come from the
  \<open>--metrics\<close> file, which replaces the built-in registry, and a source with \<open>preset_metrics\<close> has
  its \<open>custom_metrics\<close> ignored.
\<close>

definition pgwatch_intervals :: "(string, pgwatchPreset) gomap \<Rightarrow> pgwatchSource \<Rightarrow> string \<Rightarrow> int option" where
  "pgwatch_intervals presets src =
     (if src_PresetMetrics src \<noteq> []
      then (case gm_get presets (src_PresetMetrics src) of
              None \<Rightarrow> Map.empty
            | Some p \<Rightarrow> gm_get (pp_Metrics p))
      else gm_get (src_CustomMetrics src))"

text \<open>What the monitor's specification asks for: the preset, overridden by the user's metrics.\<close>

definition intended_intervals :: "(string, pgwatchPreset) gomap \<Rightarrow> MergedMetrics \<Rightarrow> string \<Rightarrow> int option" where
  "intended_intervals bp merged =
     (case gm_get bp (mm_Preset merged) of
        None \<Rightarrow> Map.empty
      | Some p \<Rightarrow> if mm_Preset merged = [] then Map.empty else gm_get (pp_Metrics p))
     ++ gm_get (mm_Intervals merged)"

lemma definitions_loop_get:
  assumes "gomap_wf defs"
  shows "gm_get (definitions_loop ms defs) n =
     (case gm_get defs n of None \<Rightarrow> gm_get ms n | Some d \<Rightarrow> Some (to_pgwatchMetric d))"
  using assms
proof (induction ms defs rule: definitions_loop.induct)
  case (2 ms name def rest)
  then have "gm_get rest name = None" by (simp add: map_of_eq_None_iff)
  with 2 show ?case by (auto simp: gomap_simps split: option.split)
qed simp

lemma definitions_loop_wf [wf_intros]: "gomap_wf ms \<Longrightarrow> gomap_wf (definitions_loop ms defs)"
  by (induction ms defs rule: definitions_loop.induct) (auto intro: wf_intros)

lemma metrics_file_presets:
  assumes "loadBuiltinMetrics y = Inr (bm, bp)" "registry_wf bm bp" "metrics_file y merged = Inr mf"
    "mm_Preset merged \<noteq> []"
  shows "gm_get (pf_Presets mf) = gm_get bp"
  using assms by (auto simp: metrics_file_def Let_def gomap_simps registry_wf_def)

lemma metrics_file_metrics:
  assumes "loadBuiltinMetrics y = Inr (bm, bp)" "registry_wf bm bp" "metrics_file y merged = Inr mf"
    "gomap_wf (mm_Definitions merged)"
  shows "gm_get (pf_Metrics mf) n =
     (case gm_get (mm_Definitions merged) n of
        Some d \<Rightarrow> Some (to_pgwatchMetric d)
      | None \<Rightarrow> if mm_Preset merged = [] then None else gm_get bm n)"
proof (cases "mm_Preset merged = []")
  case True
  with assms(3) have "pf_Metrics mf = definitions_loop [] (mm_Definitions merged)"
    by (auto simp: metrics_file_def Let_def)
  with True assms(4) show ?thesis by (simp add: definitions_loop_get split: option.split)
next
  case False
  with assms(1,3) have "pf_Metrics mf = definitions_loop (maps_Copy [] bm) (mm_Definitions merged)"
    by (auto simp: metrics_file_def Let_def)
  moreover have "gm_get (maps_Copy [] bm) = gm_get bm"
    using assms(2) by (simp add: gomap_simps registry_wf_def)
  ultimately show ?thesis using False assms(4) by (simp add: definitions_loop_get split: option.split)
qed

lemma source_entry_cases:
  assumes "source_entry y monitor merged = Inr src"
  shows "src_Name src = pm_Name monitor" "src_ConnStr src = buildConnStr (pm_Database monitor)"
    "src_Kind src = ''postgres''" "src_IsEnabled src"
    "src_CustomTags src = db_CustomTags (pm_Database monitor)"
    "src_PresetMetrics src = (if mm_Intervals merged = [] then mm_Preset merged else [])"
  using assms by (auto simp: source_entry_def Let_def split: if_splits sum.splits)

lemma source_entry_effective:
  assumes load: "loadBuiltinMetrics y = Inr (bm, bp)" and reg: "registry_wf bm bp"
    and wf: "gomap_wf (mm_Intervals merged)"
    and src: "source_entry y monitor merged = Inr src"
    and mf: "metrics_file y merged = Inr mf"
  shows "pgwatch_intervals (pf_Presets mf) src = intended_intervals bp merged"
proof (cases "mm_Preset merged = []")
  case True
  with src have "src_PresetMetrics src = []" "src_CustomMetrics src = mm_Intervals merged"
    by (auto simp: source_entry_def Let_def split: if_splits)
  with True show ?thesis
    by (auto simp: pgwatch_intervals_def intended_intervals_def split: option.split)
next
  case preset: False
  show ?thesis
  proof (cases "mm_Intervals merged = []")
    case True
    with preset src have "src_PresetMetrics src = mm_Preset merged"
      by (auto simp: source_entry_def Let_def split: if_splits)
    with True preset metrics_file_presets [OF load reg mf] show ?thesis
      by (auto simp: pgwatch_intervals_def intended_intervals_def split: option.split)
  next
    case False
    with preset src obtain out where
      out: "expandPresetIntoIntervals y (mm_Preset merged) (mm_Intervals merged) = Inr out"
        "src_PresetMetrics src = []" "src_CustomMetrics src = out"
      by (auto simp: source_entry_def Let_def split: if_splits sum.splits)
    then obtain p where p: "gm_get bp (mm_Preset merged) = Some p"
      using load expandPreset_unknown [OF load] by (cases "gm_get bp (mm_Preset merged)") auto
    have "gm_get out = gm_get (pp_Metrics p) ++ gm_get (mm_Intervals merged)"
      using expandPreset_get [OF load reg p wf] out(1) by auto
    with out p preset show ?thesis
      by (auto simp: pgwatch_intervals_def intended_intervals_def)
  qed
qed

text \<open>
  Whether a metric pgwatch is told to collect is defined in the file it reads: the ones of the user
  always are, the ones of the preset when the registry defines them.
\<close>

lemma source_entry_defined:
  assumes load: "loadBuiltinMetrics y = Inr (bm, bp)" and reg: "registry_wf bm bp"
    and wf: "merged_wf merged"
    and src: "source_entry y monitor merged = Inr src"
    and mf: "metrics_file y merged = Inr mf"
    and n: "pgwatch_intervals (pf_Presets mf) src n = Some i"
  shows "(gm_get (pf_Metrics mf) n = None \<longleftrightarrow> gm_get (mm_Intervals merged) n = None \<and> gm_get bm n = None)
     \<and> (gm_get (mm_Intervals merged) n = None \<longrightarrow>
          (\<exists>p. gm_get bp (mm_Preset merged) = Some p \<and> gm_get (pp_Metrics p) n = Some i))"
proof -
  have wfs: "gomap_wf (mm_Intervals merged)" "gomap_wf (mm_Definitions merged)"
    using wf by (simp_all add: merged_wf_def)
  have keys: "gm_get (mm_Definitions merged) n = None \<longleftrightarrow> gm_get (mm_Intervals merged) n = None"
    using wf by (auto simp: merged_wf_def dest: gm_get_None_keys [where k = n])
  note defined = metrics_file_metrics [OF load reg mf wfs(2)]
  from n have "intended_intervals bp merged n = Some i"
    using source_entry_effective [OF load reg wfs(1) src mf] by simp
  then consider "gm_get (mm_Intervals merged) n = Some i"
    | p where "gm_get bp (mm_Preset merged) = Some p" "mm_Preset merged \<noteq> []" "gm_get (pp_Metrics p) n = Some i"
    by (auto simp: intended_intervals_def map_add_Some_iff split: option.splits if_splits)
  then show ?thesis
    using keys by cases (auto simp: defined split: option.split)
qed

section \<open>The hash\<close>

definition nul_free :: "string \<Rightarrow> bool" where
  "nul_free s \<longleftrightarrow> CHR 0x00 \<notin> set s"

definition data_nul_free :: "(string, string) gomap \<Rightarrow> bool" where
  "data_nul_free data \<longleftrightarrow> list_all (\<lambda>(k, v). nul_free k \<and> nul_free v) data"

fun encode_pairs :: "(string \<times> string) list \<Rightarrow> string" where
  "encode_pairs [] = []"
| "encode_pairs ((k, v) # rest) = k @ CHR 0x00 # v @ CHR 0x00 # encode_pairs rest"

definition sorted_pairs :: "(string, string) gomap \<Rightarrow> (string \<times> string) list" where
  "sorted_pairs data = map (\<lambda>k. (k, the (gm_get data k))) (sort_Strings (gm_keys data))"

lemma hash_input_encode: "hash_input data = encode_pairs (sorted_pairs data)"
proof -
  have "concat (map (\<lambda>k. k @ [CHR 0x00] @ f k @ [CHR 0x00]) ks) = encode_pairs (map (\<lambda>k. (k, f k)) ks)"
    for f :: "string \<Rightarrow> string" and ks
    by (induction ks) simp_all
  then show ?thesis by (simp add: hash_input_def sorted_pairs_def)
qed

lemma encode_pairs_inject:
  assumes "encode_pairs xs = encode_pairs ys" "data_nul_free xs" "data_nul_free ys"
  shows "xs = ys"
  using assms
proof (induction xs arbitrary: ys)
  case Nil
  then show ?case by (cases ys) auto
next
  case (Cons x xs)
  obtain k v where x: "x = (k, v)" by (cases x)
  from Cons.prems(1) x obtain k' v' ys' where y: "ys = (k', v') # ys'"
    by (cases ys) auto
  have nul: "CHR 0x00 \<notin> set k" "CHR 0x00 \<notin> set v" "CHR 0x00 \<notin> set k'" "CHR 0x00 \<notin> set v'"
    using Cons.prems(2,3) by (auto simp: data_nul_free_def nul_free_def x y)
  from Cons.prems(1) have "k @ CHR 0x00 # (v @ CHR 0x00 # encode_pairs xs) =
      k' @ CHR 0x00 # (v' @ CHR 0x00 # encode_pairs ys')"
    by (simp add: x y)
  note key = append_Cons_inject_first [OF this nul(1,3)]
  then have k: "k = k'" and rest: "v @ CHR 0x00 # encode_pairs xs = v' @ CHR 0x00 # encode_pairs ys'"
    by (rule conjunct1, rule conjunct2)
  from append_Cons_inject_first [OF rest nul(2,4)] have "v = v'" "encode_pairs xs = encode_pairs ys'"
    by blast+
  moreover have "xs = ys'"
    using Cons.prems(2,3) \<open>encode_pairs xs = encode_pairs ys'\<close>
    by (intro Cons.IH) (auto simp: data_nul_free_def x y)
  ultimately show ?case by (simp add: x y k)
qed

lemma sorted_pairs_get: "gm_get (sorted_pairs data) = gm_get data"
proof
  fix k
  have "gm_get (map (\<lambda>k. (k, f k)) ks) k = (if k \<in> set ks then Some (f k) else None)"
    for f :: "string \<Rightarrow> string" and ks
    by (induction ks) auto
  moreover have "k \<in> set (gm_keys data) \<longleftrightarrow> gm_get data k \<noteq> None"
    by (simp add: map_of_eq_None_iff)
  ultimately show "gm_get (sorted_pairs data) k = gm_get data k"
    by (auto simp: sorted_pairs_def)
qed

lemma sorted_pairs_nul_free: "data_nul_free data \<Longrightarrow> data_nul_free (sorted_pairs data)"
proof -
  assume nf: "data_nul_free data"
  have "nul_free k \<and> nul_free v" if "gm_get data k = Some v" for k v
    using nf map_of_SomeD [OF that] by (auto simp: data_nul_free_def list_all_iff)
  then have "nul_free k \<and> nul_free (the (gm_get data k))" if "k \<in> set (gm_keys data)" for k
    using that by (metis map_of_eq_None_iff not_None_eq option.sel set_map)
  then show ?thesis by (simp add: data_nul_free_def sorted_pairs_def list_all_iff)
qed

lemma hash_input_order:
  assumes "gomap_wf d" "gomap_wf d'" "gm_get d = gm_get d'"
  shows "hash_input d = hash_input d'"
proof -
  have "sort_Strings (gm_keys d) = sort_Strings (gm_keys d')"
    using assms gomap_keys_set_eq [OF assms(3)]
    by (intro sort_Strings_set_eq) (auto simp: gomap_wf_def)
  with assms(3) show ?thesis by (simp add: hash_input_def)
qed

lemma hash_input_inject:
  assumes "gomap_wf d" "gomap_wf d'" "data_nul_free d" "data_nul_free d'"
  shows "hash_input d = hash_input d' \<longleftrightarrow> gm_get d = gm_get d'"
proof
  assume "hash_input d = hash_input d'"
  then have "sorted_pairs d = sorted_pairs d'"
    using assms(3,4) by (intro encode_pairs_inject) (simp_all add: hash_input_encode sorted_pairs_nul_free)
  then show "gm_get d = gm_get d'" by (metis sorted_pairs_get)
qed (rule hash_input_order [OF assms(1,2)])

lemma contentHash_length [simp]: "length (contentHash d) = 64"
  by (simp add: contentHash_def)

section \<open>Connection strings\<close>

lemma buildConnStr_inject:
  assumes "CHR ''/'' \<notin> set (db_Host db)" "CHR ''/'' \<notin> set (db_Host db')"
    and "CHR ''?'' \<notin> set (db_SSLMode db)" "CHR ''?'' \<notin> set (db_SSLMode db')"
    and eq: "buildConnStr db = buildConnStr db'"
  shows "db_Host db = db_Host db'" "db_Database db = db_Database db'"
    "(if db_Port db = 0 then 5432 else db_Port db) = (if db_Port db' = 0 then 5432 else db_Port db')"
    "(if db_SSLMode db = [] then SSLModeDisable else db_SSLMode db) =
     (if db_SSLMode db' = [] then SSLModeDisable else db_SSLMode db')"
proof -
  define port where "port d = (if db_Port d = 0 then 5432 else db_Port d)" for d :: DatabaseRef
  define mode where "mode d = (if db_SSLMode d = [] then SSLModeDisable else db_SSLMode d)" for d :: DatabaseRef
  have str: "buildConnStr d = ''postgresql://'' @ (db_Host d @ CHR '':'' # itoa (sint (port d))) @
      CHR ''/'' # (db_Database d @ CHR ''?'' # (''sslmode='' @ mode d))" for d :: DatabaseRef
    by (simp add: buildConnStr_def Let_def port_def mode_def)
  have slash: "CHR ''/'' \<notin> set (db_Host d @ CHR '':'' # itoa (sint (port d)))"
    if "CHR ''/'' \<notin> set (db_Host d)" for d :: DatabaseRef
    using that itoa_no_sep by simp
  have mode: "CHR ''?'' \<notin> set (''sslmode='' @ mode d)" if "CHR ''?'' \<notin> set (db_SSLMode d)" for d :: DatabaseRef
    using that by (simp add: mode_def SSLModeDisable_def)
  from eq have eq': "(db_Host db @ CHR '':'' # itoa (sint (port db))) @
        CHR ''/'' # (db_Database db @ CHR ''?'' # (''sslmode='' @ mode db)) =
      (db_Host db' @ CHR '':'' # itoa (sint (port db'))) @
        CHR ''/'' # (db_Database db' @ CHR ''?'' # (''sslmode='' @ mode db'))"
    unfolding str by (rule same_append_eq [THEN iffD1])
  note split1 = append_Cons_inject_first [OF eq' slash [OF assms(1)] slash [OF assms(2)]]
  note hp = append_Cons_inject_last [OF split1 [THEN conjunct1] itoa_no_sep(1) itoa_no_sep(1)]
  note dm = append_Cons_inject_last [OF split1 [THEN conjunct2] mode [OF assms(3)] mode [OF assms(4)]]
  show "db_Host db = db_Host db'" using hp by blast
  show "db_Database db = db_Database db'" using dm by blast
  have "port db = port db'" using hp by (simp add: itoa_inject word_eq_iff_signed)
  then show "(if db_Port db = 0 then 5432 else db_Port db) = (if db_Port db' = 0 then 5432 else db_Port db')"
    by (simp add: port_def)
  have "mode db = mode db'" using dm by simp
  then show "(if db_SSLMode db = [] then SSLModeDisable else db_SSLMode db) =
     (if db_SSLMode db' = [] then SSLModeDisable else db_SSLMode db')"
    by (simp add: mode_def)
qed

section \<open>Rendering does not depend on map order\<close>

definition source_equiv :: "pgwatchSource \<Rightarrow> pgwatchSource \<Rightarrow> bool" where
  "source_equiv s s' \<longleftrightarrow>
     gm_eq (src_CustomMetrics s) (src_CustomMetrics s') \<and> gm_eq (src_CustomTags s) (src_CustomTags s')
     \<and> s\<lparr>src_CustomMetrics := [], src_CustomTags := []\<rparr> = s'\<lparr>src_CustomMetrics := [], src_CustomTags := []\<rparr>"

definition pw_metric_equiv :: "pgwatchMetric \<Rightarrow> pgwatchMetric \<Rightarrow> bool" where
  "pw_metric_equiv a b \<longleftrightarrow> gm_eq (pw_SQLs a) (pw_SQLs b) \<and> a\<lparr>pw_SQLs := []\<rparr> = b\<lparr>pw_SQLs := []\<rparr>"

definition preset_equiv :: "pgwatchPreset \<Rightarrow> pgwatchPreset \<Rightarrow> bool" where
  "preset_equiv a b \<longleftrightarrow> gm_eq (pp_Metrics a) (pp_Metrics b) \<and> pp_Description a = pp_Description b"

definition file_equiv :: "pgwatchMetricsFile \<Rightarrow> pgwatchMetricsFile \<Rightarrow> bool" where
  "file_equiv f f' \<longleftrightarrow> gm_rel pw_metric_equiv (pf_Metrics f) (pf_Metrics f')
     \<and> gm_rel preset_equiv (pf_Presets f) (pf_Presets f')"

text \<open>
  What the hash relies on from the YAML libraries: map keys are sorted, so a value renders to one
  text whatever its iteration order, and the text of a YAML document holds no NUL character.
\<close>

locale yaml_contract =
  fixes y :: yaml_lib
  assumes marshal_source: "source_equiv s s' \<Longrightarrow> yaml_Marshal y [s] = yaml_Marshal y [s']"
    and marshal_file: "file_equiv f f' \<Longrightarrow> yamlv3_Marshal y f = yamlv3_Marshal y f'"
    and source_text: "yaml_Marshal y ss = Inr t \<Longrightarrow> nul_free t"
    and file_text: "yamlv3_Marshal y f = Inr t \<Longrightarrow> nul_free t"

lemma pw_metric_equiv_refl [simp]: "pw_metric_equiv a a"
  by (simp add: pw_metric_equiv_def gm_eq_iff)

lemma preset_equiv_refl [simp]: "preset_equiv a a"
  by (simp add: preset_equiv_def gm_eq_iff)

lemma to_pgwatchMetric_equiv: "metric_def_equiv d d' \<Longrightarrow> pw_metric_equiv (to_pgwatchMetric d) (to_pgwatchMetric d')"
  by (cases d, cases d') (simp add: metric_def_equiv_def pw_metric_equiv_def to_pgwatchMetric_def)

lemma expandPreset_equiv:
  assumes "gomap_wf u" "gomap_wf u'" "gm_eq u u'"
  shows "rel_sum (=) gm_eq (expandPresetIntoIntervals y n u) (expandPresetIntoIntervals y n u')"
  using assms
  by (auto simp: expandPresetIntoIntervals_def gm_eq_iff maps_Copy_get_wf split: sum.split option.split)

lemma source_entry_equiv:
  assumes "merged_equiv m m'" "merged_wf m" "merged_wf m'"
  shows "rel_sum (=) source_equiv (source_entry y monitor m) (source_entry y monitor m')"
proof -
  have wf: "gomap_wf (mm_Intervals m)" "gomap_wf (mm_Intervals m')"
    and p: "mm_Preset m' = mm_Preset m" and i: "gm_eq (mm_Intervals m) (mm_Intervals m')"
    using assms by (simp_all add: merged_wf_def merged_equiv_def)
  have e: "mm_Intervals m' = [] \<longleftrightarrow> mm_Intervals m = []"
    using gm_rel_Nil_iff [OF i] by simp
  have refl: "gm_eq t t" for t :: "(string, string) gomap" by (simp add: gm_eq_iff)
  from expandPreset_equiv [OF wf i, of y "mm_Preset m"] show ?thesis
    using i by (auto simp: source_entry_def Let_def p e source_equiv_def refl gm_eq_iff split: sum.splits)
qed

lemma metrics_file_equiv:
  assumes "merged_equiv m m'" "merged_wf m" "merged_wf m'"
  shows "rel_sum (=) file_equiv (metrics_file y m) (metrics_file y m')"
proof -
  have wf: "gomap_wf (mm_Definitions m)" "gomap_wf (mm_Definitions m')"
    and p: "mm_Preset m' = mm_Preset m"
    and d: "gm_rel metric_def_equiv (mm_Definitions m) (mm_Definitions m')"
    using assms by (simp_all add: merged_wf_def merged_equiv_def)
  have loop: "gm_rel pw_metric_equiv (definitions_loop ms (mm_Definitions m)) (definitions_loop ms (mm_Definitions m'))"
    for ms
    unfolding gm_rel_iff
  proof
    fix n
    show "rel_option pw_metric_equiv (gm_get (definitions_loop ms (mm_Definitions m)) n)
        (gm_get (definitions_loop ms (mm_Definitions m')) n)"
      using d [unfolded gm_rel_iff, rule_format, of n]
      by (rule option.rel_cases)
        (auto simp: definitions_loop_get wf to_pgwatchMetric_equiv intro!: option.rel_refl)
  qed
  have refl: "gm_rel preset_equiv ps ps" for ps :: "(string, pgwatchPreset) gomap"
    by (auto simp: gm_rel_iff intro!: option.rel_refl)
  show ?thesis
    using loop refl by (auto simp: metrics_file_def Let_def p file_equiv_def split: sum.split)
qed

context yaml_contract begin

lemma renderSources_order:
  assumes "merged_equiv m m'" "merged_wf m" "merged_wf m'"
  shows "renderSources y monitor m = renderSources y monitor m'"
  using source_entry_equiv [OF assms, of y monitor] marshal_source
  by (auto simp: renderSources_def split: sum.splits)

lemma renderMetrics_order:
  assumes "merged_equiv m m'" "merged_wf m" "merged_wf m'"
  shows "renderMetrics y m = renderMetrics y m'"
  using metrics_file_equiv [OF assms, of y] marshal_file
  by (auto simp: renderMetrics_def split: sum.splits)

lemma BuildConfigMap_order:
  assumes "merged_equiv m m'" "merged_wf m" "merged_wf m'"
  shows "BuildConfigMap y monitor m = BuildConfigMap y monitor m'"
proof -
  have "needs_metrics_file m = needs_metrics_file m'"
    using assms(1) gm_rel_Nil_iff [of _ "mm_Definitions m" "mm_Definitions m'"]
    by (auto simp: needs_metrics_file_def merged_equiv_def)
  then have "config_data y monitor m = config_data y monitor m'"
    unfolding config_data_def renderSources_order [OF assms] renderMetrics_order [OF assms]
    by (simp only:)
  then show ?thesis unfolding BuildConfigMap_def by (simp only:)
qed

lemma config_data_nul_free:
  assumes "config_data y monitor merged = Inr data"
  shows "data_nul_free data"
  using assms source_text file_text
  by (auto simp: config_data_def Let_def renderSources_def renderMetrics_def data_nul_free_def nul_free_def
      SourcesKey_def MetricsKey_def gm_put_def split: sum.splits if_splits)

end

section \<open>The ConfigMap on every branch\<close>

lemma BuildConfigMap_shape:
  assumes "BuildConfigMap y monitor merged = Inr (cm, h)"
  shows "om_Name (cm_Meta cm) = ResourceName (pm_Name monitor) @ ''-config''"
    "om_Namespace (cm_Meta cm) = pm_Namespace monitor"
    "om_Labels (cm_Meta cm) = SystemLabels (pm_Name monitor)"
    "om_OwnerReferences (cm_Meta cm) = []"
    "h = contentHash (cm_Data cm)"
    "gm_keys (cm_Data cm) = (if needs_metrics_file merged then [SourcesKey, MetricsKey] else [SourcesKey])"
  using assms
  by (auto simp: BuildConfigMap_def config_data_def Let_def emptyMeta_def gm_put_def
      SourcesKey_def MetricsKey_def split: sum.splits if_splits)

lemma config_data_wf:
  assumes "config_data y monitor merged = Inr data"
  shows "gomap_wf data"
  using assms by (auto simp: config_data_def Let_def intro: wf_intros split: sum.splits if_splits)

lemma BuildConfigMap_data:
  "BuildConfigMap y monitor merged = Inr (cm, h) \<Longrightarrow> config_data y monitor merged = Inr (cm_Data cm)"
  by (auto simp: BuildConfigMap_def split: sum.splits)

text \<open>An unknown preset is an error only when it has to be expanded.\<close>

lemma BuildConfigMap_unknown_preset:
  assumes "loadBuiltinMetrics y = Inr (bm, bp)" "gm_get bp (mm_Preset merged) = None"
    "mm_Preset merged \<noteq> []" "mm_Intervals merged \<noteq> []"
  shows "BuildConfigMap y monitor merged = Inl (ErrWrap ''render sources.yaml''
      (ErrOther (''unknown pgwatch preset '' @ go_quote (mm_Preset merged))))"
  using assms
  by (simp add: BuildConfigMap_def config_data_def renderSources_def source_entry_def Let_def
      expandPreset_unknown)

lemma source_entry_total:
  assumes "loadBuiltinMetrics y = Inr (bm, bp)"
  shows "(\<exists>src. source_entry y monitor merged = Inr src) \<longleftrightarrow>
     mm_Preset merged = [] \<or> mm_Intervals merged = [] \<or> gm_get bp (mm_Preset merged) \<noteq> None"
  using assms
  by (auto simp: source_entry_def Let_def expandPresetIntoIntervals_def split: option.splits)

section \<open>Credentials stay out of the ConfigMap\<close>

definition set_credentials ::
  "string \<Rightarrow> string \<Rightarrow> CredentialsSecretRef option \<Rightarrow> PgpilotMonitor \<Rightarrow> PgpilotMonitor" where
  "set_credentials user pass ref m =
     m\<lparr>pm_Spec := (pm_Spec m)\<lparr>sp_Database :=
         (pm_Database m)\<lparr>db_Username := user, db_Password := pass, db_CredentialsSecret := ref\<rparr>\<rparr>\<rparr>"

lemma set_credentials_simps [simp]:
  "pm_Meta (set_credentials u p r m) = pm_Meta m"
  "db_CustomTags (pm_Database (set_credentials u p r m)) = db_CustomTags (pm_Database m)"
  "buildConnStr (pm_Database (set_credentials u p r m)) = buildConnStr (pm_Database m)"
  by (simp_all add: set_credentials_def buildConnStr_def)

lemma source_entry_credentials:
  "source_entry y (set_credentials u p r m) merged = source_entry y m merged"
  unfolding source_entry_def Let_def set_credentials_simps by (rule refl)

lemma BuildConfigMap_credentials:
  "BuildConfigMap y (set_credentials u p r m) merged = BuildConfigMap y m merged"
  unfolding BuildConfigMap_def config_data_def renderSources_def source_entry_credentials
    set_credentials_simps by (rule refl)

end
