(* ===== verification/Workloads.thy ===== *)
theory Workloads
  imports ConfigMap
begin

text \<open>
  \<open>internal/builder/deployment.go\<close>, \<open>service.go\<close> and \<open>servicemonitor.go\<close>: the Deployment, the
  Service and the ServiceMonitor of a monitor. \<open>buildEnvVars\<close> dereferences
  \<open>db.CredentialsSecret\<close> when there are no inline credentials: a nil pointer there panics, which
  is the \<open>None\<close> of \<open>buildEnvVars\<close> and \<open>BuildDeployment\<close>.
\<close>

section \<open>Arguments, environment, image, ports\<close>

definition configVolumeName :: string where "configVolumeName = ''pgwatch-config''"
definition configMountPath :: string where "configMountPath = ''/etc/pgwatch''"
definition containerName :: string where "containerName = ''pgwatch''"

definition buildArgs :: "PgpilotMonitor \<Rightarrow> MergedMetrics \<Rightarrow> string list" where
  "buildArgs monitor merged =
     (let args = [''--sources'', configMountPath @ ''/'' @ SourcesKey];
          args = (if needs_metrics_file merged
                  then args @ [''--metrics'', configMountPath @ ''/'' @ MetricsKey] else args);
          sinks = sp_Sinks (pm_Spec monitor);
          args = (case ss_Prometheus sinks of
                    None \<Rightarrow> args
                  | Some p \<Rightarrow>
                      if ps_Enabled p
                      then (let port = (if ps_Port p = 0 then 9187 else ps_Port p)
                            in args @ [''--sink'', ''prometheus://0.0.0.0:'' @ itoa (sint port)])
                      else args)
      in (case ss_GRPC sinks of
            None \<Rightarrow> args
          | Some g \<Rightarrow>
              if gs_Enabled g \<and> gs_Endpoint g \<noteq> []
              then args @ [''--sink'', ''grpc://'' @ gs_Endpoint g]
              else args))"

definition plain_env :: "string \<Rightarrow> string \<Rightarrow> EnvVar" where
  "plain_env name value = \<lparr>ev_Name = name, ev_Value = value, ev_SecretKeyRef = None\<rparr>"

definition secret_env :: "string \<Rightarrow> string \<Rightarrow> string \<Rightarrow> EnvVar" where
  "secret_env name secret key =
     \<lparr>ev_Name = name, ev_Value = [], ev_SecretKeyRef = Some \<lparr>sk_Name = secret, sk_Key = key\<rparr>\<rparr>"

definition buildEnvVars :: "PgpilotMonitor \<Rightarrow> EnvVar list option" where
  "buildEnvVars monitor =
     (let db = pm_Database monitor
      in if db_Username db \<noteq> [] \<and> db_Password db \<noteq> []
         then Some [plain_env ''PGUSER'' (db_Username db), plain_env ''PGPASSWORD'' (db_Password db)]
         else (case db_CredentialsSecret db of
                 None \<Rightarrow> None
               | Some secret \<Rightarrow>
                   (let usernameKey = (if cs_UsernameKey secret = [] then ''username'' else cs_UsernameKey secret);
                        passwordKey = (if cs_PasswordKey secret = [] then ''password'' else cs_PasswordKey secret)
                    in Some [secret_env ''PGUSER'' (cs_Name secret) usernameKey,
                             secret_env ''PGPASSWORD'' (cs_Name secret) passwordKey])))"

definition containerImage :: "PgpilotMonitor \<Rightarrow> string" where
  "containerImage monitor =
     (let img = sp_Image (pm_Spec monitor);
          repo = (if im_Repository img = [] then ''cybertecpostgresql/pgwatch'' else im_Repository img);
          tag = (if im_Tag img = [] then ''5.1.0'' else im_Tag img)
      in repo @ '':'' @ tag)"

definition prometheusPort :: "PgpilotMonitor \<Rightarrow> int32" where
  "prometheusPort monitor =
     (case ss_Prometheus (sp_Sinks (pm_Spec monitor)) of
        Some p \<Rightarrow> if 0 < sint (ps_Port p) then ps_Port p else 9187
      | None \<Rightarrow> 9187)"

definition tcpProbe :: "int32 \<Rightarrow> int32 \<Rightarrow> int32 \<Rightarrow> Probe" where
  "tcpProbe port initialDelay period =
     \<lparr>pr_TCPSocketPort = FromInt32 port,
      pr_InitialDelaySeconds = initialDelay,
      pr_PeriodSeconds = period,
      pr_TimeoutSeconds = 5,
      pr_SuccessThreshold = 1,
      pr_FailureThreshold = 3\<rparr>"

section \<open>The Deployment\<close>

definition pgwatch_container :: "PgpilotMonitor \<Rightarrow> MergedMetrics \<Rightarrow> EnvVar list \<Rightarrow> Container" where
  "pgwatch_container monitor merged envVars =
     (let promPort = prometheusPort monitor
      in \<lparr>c_Name = containerName,
          c_Image = containerImage monitor,
          c_ImagePullPolicy = [],
          c_Args = buildArgs monitor merged,
          c_Env = envVars,
          c_Ports = [\<lparr>cp_Name = ''metrics'', cp_ContainerPort = promPort, cp_Protocol = ''TCP''\<rparr>],
          c_Resources = sp_Resources (pm_Spec monitor),
          c_LivenessProbe = tcpProbe promPort 15 20,
          c_ReadinessProbe = tcpProbe promPort 5 10,
          c_SecurityContext =
            \<lparr>sc_RunAsNonRoot = True, sc_RunAsUser = 65534, sc_ReadOnlyRootFilesystem = True,
             sc_AllowPrivilegeEscalation = False, sc_CapabilitiesDrop = [''ALL'']\<rparr>,
          c_VolumeMounts =
            [\<lparr>vm_Name = configVolumeName, vm_MountPath = configMountPath, vm_ReadOnly = True\<rparr>,
             \<lparr>vm_Name = ''tmp'', vm_MountPath = ''/tmp'', vm_ReadOnly = False\<rparr>]\<rparr>)"

definition BuildDeployment :: "PgpilotMonitor \<Rightarrow> MergedMetrics \<Rightarrow> string \<Rightarrow> Deployment option" where
  "BuildDeployment monitor merged configHash =
     (let name = ResourceName (pm_Name monitor);
          sysLabels = SystemLabels (pm_Name monitor);
          overrides = sp_PodMetadata (pm_Spec monitor);
          podLabels = MergeLabels sysLabels (mo_Labels overrides);
          podAnnotations = MergeAnnotations [(AnnotationConfigHash, configHash)] (mo_Annotations overrides)
      in case buildEnvVars monitor of
           None \<Rightarrow> None
         | Some envVars \<Rightarrow>
             Some \<lparr>dep_Meta = emptyMeta\<lparr>om_Name := name, om_Namespace := pm_Namespace monitor,
                                        om_Labels := sysLabels\<rparr>,
                   dep_Replicas = 1,
                   dep_Selector = [(LabelAppInstance, pm_Name monitor), (LabelAppName, AppName)],
                   dep_Template =
                     \<lparr>pt_Labels = podLabels,
                      pt_Annotations = podAnnotations,
                      pt_Containers = [pgwatch_container monitor merged envVars],
                      pt_Volumes =
                        [\<lparr>vol_Name = configVolumeName, vol_Source = ConfigMapVolume (name @ ''-config'')\<rparr>,
                         \<lparr>vol_Name = ''tmp'', vol_Source = EmptyDirVolume\<rparr>],
                      pt_RunAsNonRoot = True\<rparr>,
                   dep_ReadyReplicas = 0\<rparr>)"

section \<open>Service and ServiceMonitor\<close>

definition BuildService :: "PgpilotMonitor \<Rightarrow> Service" where
  "BuildService monitor =
     (let name = ResourceName (pm_Name monitor);
          sysLabels = SystemLabels (pm_Name monitor);
          port = prometheusPort monitor;
          svcLabels = MergeLabels sysLabels (mo_Labels (sp_ServiceMetadata (pm_Spec monitor)));
          svcAnnotations = MergeAnnotations [] (mo_Annotations (sp_ServiceMetadata (pm_Spec monitor)))
      in \<lparr>svc_Meta = emptyMeta\<lparr>om_Name := name, om_Namespace := pm_Namespace monitor,
                              om_Labels := svcLabels, om_Annotations := svcAnnotations\<rparr>,
          svc_Type = ''ClusterIP'',
          svc_Selector = [(LabelAppInstance, pm_Name monitor), (LabelAppName, AppName)],
          svc_Ports = [\<lparr>svp_Name = ''metrics'', svp_Protocol = ''TCP'', svp_Port = port,
                        svp_TargetPort = FromString ''metrics''\<rparr>]\<rparr>)"

definition BuildServiceMonitor :: "PgpilotMonitor \<Rightarrow> ServiceMonitor" where
  "BuildServiceMonitor monitor =
     (let name = ResourceName (pm_Name monitor);
          sysLabels = SystemLabels (pm_Name monitor)
      in \<lparr>sm_Meta = emptyMeta\<lparr>om_Name := name, om_Namespace := pm_Namespace monitor,
                             om_Labels := MergeLabels sysLabels (mo_Labels (sp_ServiceMetadata (pm_Spec monitor)))\<rparr>,
          sm_Selector = [(LabelAppInstance, pm_Name monitor), (LabelAppName, AppName)],
          sm_NamespaceNames = [pm_Namespace monitor],
          sm_Endpoints = [\<lparr>ep_Port = ''metrics'', ep_Interval = ''30s'', ep_ScrapeTimeout = ''10s''\<rparr>]\<rparr>)"

section \<open>Selectors and annotations\<close>

lemma selector_labels_fold:
  "[(LabelAppInstance, n), (LabelAppName, AppName)] = selector_labels n"
  by (simp add: selector_labels_def)

lemma BuildDeployment_Some:
  assumes "BuildDeployment monitor merged h = Some dep"
  obtains envVars where "buildEnvVars monitor = Some envVars"
    "pt_Containers (dep_Template dep) = [pgwatch_container monitor merged envVars]"
    "dep_Selector dep = selector_labels (pm_Name monitor)"
    "pt_Labels (dep_Template dep) =
       MergeLabels (SystemLabels (pm_Name monitor)) (mo_Labels (sp_PodMetadata (pm_Spec monitor)))"
    "pt_Annotations (dep_Template dep) =
       MergeAnnotations [(AnnotationConfigHash, h)] (mo_Annotations (sp_PodMetadata (pm_Spec monitor)))"
    "om_Name (dep_Meta dep) = ResourceName (pm_Name monitor)"
    "om_Namespace (dep_Meta dep) = pm_Namespace monitor"
    "om_Labels (dep_Meta dep) = SystemLabels (pm_Name monitor)"
    "dep_Replicas dep = 1"
    "pt_Volumes (dep_Template dep) =
       [\<lparr>vol_Name = configVolumeName,
          vol_Source = ConfigMapVolume (ResourceName (pm_Name monitor) @ ''-config'')\<rparr>,
        \<lparr>vol_Name = ''tmp'', vol_Source = EmptyDirVolume\<rparr>]"
  using assms
  by (auto simp: BuildDeployment_def Let_def selector_labels_fold emptyMeta_def split: option.splits)

lemma BuildDeployment_selects_pods:
  assumes "BuildDeployment monitor merged h = Some dep"
  shows "selects (dep_Selector dep) (pt_Labels (dep_Template dep))"
    "selects (svc_Selector (BuildService monitor)) (pt_Labels (dep_Template dep))"
  using assms
  by (auto elim!: BuildDeployment_Some
      simp: BuildService_def Let_def selector_labels_fold labels.selector_survives)

lemma ServiceMonitor_selects_Service:
  "selects (sm_Selector (BuildServiceMonitor monitor)) (om_Labels (svc_Meta (BuildService monitor)))"
  by (simp add: BuildServiceMonitor_def BuildService_def Let_def selector_labels_fold
      labels.selector_survives)

lemma BuildDeployment_config_hash:
  assumes "BuildDeployment monitor merged h = Some dep"
  shows "gm_get (pt_Annotations (dep_Template dep)) AnnotationConfigHash = Some h"
  using assms by (auto elim!: BuildDeployment_Some intro!: annotations.merge_system)

section \<open>Arguments\<close>

definition prometheus_args :: "PgpilotMonitor \<Rightarrow> string list" where
  "prometheus_args monitor =
     (case ss_Prometheus (sp_Sinks (pm_Spec monitor)) of
        Some p \<Rightarrow>
          if ps_Enabled p
          then [''--sink'', ''prometheus://0.0.0.0:'' @ itoa (sint (if ps_Port p = 0 then 9187 else ps_Port p))]
          else []
      | None \<Rightarrow> [])"

definition grpc_args :: "PgpilotMonitor \<Rightarrow> string list" where
  "grpc_args monitor =
     (case ss_GRPC (sp_Sinks (pm_Spec monitor)) of
        Some g \<Rightarrow> if gs_Enabled g \<and> gs_Endpoint g \<noteq> [] then [''--sink'', ''grpc://'' @ gs_Endpoint g] else []
      | None \<Rightarrow> [])"

lemma buildArgs_parts:
  "buildArgs monitor merged =
     [''--sources'', ''/etc/pgwatch/sources.yaml'']
     @ (if needs_metrics_file merged then [''--metrics'', ''/etc/pgwatch/metrics.yaml''] else [])
     @ prometheus_args monitor @ grpc_args monitor"
  by (auto simp: buildArgs_def prometheus_args_def grpc_args_def Let_def configMountPath_def
      SourcesKey_def MetricsKey_def split: option.split)

lemma prometheus_args_not_metrics: "''--metrics'' \<notin> set (prometheus_args monitor)"
  by (auto simp: prometheus_args_def split: option.split)

lemma grpc_args_not_metrics: "''--metrics'' \<notin> set (grpc_args monitor)"
  by (auto simp: grpc_args_def split: option.split)

lemma buildArgs_metrics_flag: "''--metrics'' \<in> set (buildArgs monitor merged) \<longleftrightarrow> needs_metrics_file merged"
  by (auto simp: buildArgs_parts prometheus_args_not_metrics grpc_args_not_metrics)

lemma buildArgs_sinks:
  "''--sink'' \<in> set (buildArgs monitor merged) \<longleftrightarrow> prometheus_args monitor \<noteq> [] \<or> grpc_args monitor \<noteq> []"
  by (auto simp: buildArgs_parts prometheus_args_def grpc_args_def split: option.split)

section \<open>Ports\<close>

text \<open>The CRD bounds of the port, and the unset value 0.\<close>

definition port_valid :: "int32 \<Rightarrow> bool" where
  "port_valid p \<longleftrightarrow> 0 \<le> sint p \<and> sint p \<le> 65535"

lemma prometheusPort_enabled:
  assumes "ss_Prometheus (sp_Sinks (pm_Spec monitor)) = Some p" "port_valid (ps_Port p)"
  shows "prometheusPort monitor = (if ps_Port p = 0 then 9187 else ps_Port p)"
proof -
  have "sint (ps_Port p) = 0 \<longleftrightarrow> ps_Port p = 0" by (metis sint_0 sint_inject)
  with assms show ?thesis by (auto simp: prometheusPort_def port_valid_def)
qed

lemma prometheus_args_port:
  assumes "ss_Prometheus (sp_Sinks (pm_Spec monitor)) = Some p" "ps_Enabled p" "port_valid (ps_Port p)"
  shows "prometheus_args monitor = [''--sink'', ''prometheus://0.0.0.0:'' @ itoa (sint (prometheusPort monitor))]"
  using prometheusPort_enabled [OF assms(1,3)] assms(1,2) by (simp add: prometheus_args_def)

lemma pgwatch_container_ports:
  "c_Ports (pgwatch_container monitor merged envs) =
     [\<lparr>cp_Name = ''metrics'', cp_ContainerPort = prometheusPort monitor, cp_Protocol = ''TCP''\<rparr>]"
  "pr_TCPSocketPort (c_LivenessProbe (pgwatch_container monitor merged envs)) = FromInt32 (prometheusPort monitor)"
  "pr_TCPSocketPort (c_ReadinessProbe (pgwatch_container monitor merged envs)) = FromInt32 (prometheusPort monitor)"
  "c_Args (pgwatch_container monitor merged envs) = buildArgs monitor merged"
  "c_Env (pgwatch_container monitor merged envs) = envs"
  "c_Image (pgwatch_container monitor merged envs) = containerImage monitor"
  by (simp_all add: pgwatch_container_def Let_def tcpProbe_def)

lemma prometheusPort_range:
  assumes "\<And>p. ss_Prometheus (sp_Sinks (pm_Spec monitor)) = Some p \<Longrightarrow> port_valid (ps_Port p)"
  shows "0 < sint (prometheusPort monitor) \<and> sint (prometheusPort monitor) \<le> 65535"
proof (cases "ss_Prometheus (sp_Sinks (pm_Spec monitor))")
  case None
  then show ?thesis by (simp add: prometheusPort_def)
next
  case (Some p)
  with assms have "port_valid (ps_Port p)" by blast
  with Some show ?thesis by (auto simp: prometheusPort_def port_valid_def)
qed

section \<open>Environment\<close>

lemma buildEnvVars_None:
  "buildEnvVars monitor = None \<longleftrightarrow>
     (db_Username (pm_Database monitor) = [] \<or> db_Password (pm_Database monitor) = [])
     \<and> db_CredentialsSecret (pm_Database monitor) = None"
  by (auto simp: buildEnvVars_def Let_def split: option.split)

lemma buildEnvVars_names: "buildEnvVars monitor = Some envs \<Longrightarrow> map ev_Name envs = [''PGUSER'', ''PGPASSWORD'']"
  by (auto simp: buildEnvVars_def Let_def plain_env_def secret_env_def split: option.splits if_splits)

text \<open>With a Secret reference no credential is written into the object.\<close>

lemma buildEnvVars_secret:
  assumes "buildEnvVars monitor = Some envs"
    and "db_Username (pm_Database monitor) = [] \<or> db_Password (pm_Database monitor) = []"
  obtains ref where "db_CredentialsSecret (pm_Database monitor) = Some ref"
    "\<forall>e \<in> set envs. ev_Value e = []"
    "map (map_option sk_Name \<circ> ev_SecretKeyRef) envs = [Some (cs_Name ref), Some (cs_Name ref)]"
  using assms
  by (auto simp: buildEnvVars_def Let_def secret_env_def split: option.splits if_splits)

lemma credentials_valid_env: "credentials_valid (pm_Database monitor) \<Longrightarrow> buildEnvVars monitor \<noteq> None"
  by (auto simp: buildEnvVars_None credentials_valid_def)

end
