(* ===== verification/Discovery.thy ===== *)
theory Discovery
  imports Workloads
begin

text \<open>
  \<open>internal/builder/discovery.go\<close>: whether the cluster serves the ServiceMonitor kind. The
  discovery client is an argument: a group version yields its resources or an error.
\<close>

record APIResource =
  ar_Kind :: string

fun kind_loop :: "APIResource list \<Rightarrow> bool" where
  "kind_loop [] = False"
| "kind_loop (r # rest) = (if ar_Kind r = ''ServiceMonitor'' then True else kind_loop rest)"

definition HasServiceMonitorCRD :: "(string \<Rightarrow> goerror + APIResource list) \<Rightarrow> bool" where
  "HasServiceMonitorCRD dc =
     (case dc ''monitoring.coreos.com/v1'' of
        Inl err \<Rightarrow> False
      | Inr resources \<Rightarrow> kind_loop resources)"

lemma kind_loop_iff: "kind_loop rs \<longleftrightarrow> (\<exists>r \<in> set rs. ar_Kind r = ''ServiceMonitor'')"
  by (induction rs) auto

lemma HasServiceMonitorCRD_iff:
  "HasServiceMonitorCRD dc \<longleftrightarrow>
     (\<exists>rs. dc ''monitoring.coreos.com/v1'' = Inr rs \<and> ''ServiceMonitor'' \<in> ar_Kind ` set rs)"
  by (force simp: HasServiceMonitorCRD_def kind_loop_iff split: sum.split)

end
