(* ===== verification/KubeApi.thy ===== *)
theory KubeApi
  imports Discovery
begin

text \<open>
  What the controllers use of Kubernetes and controller-runtime, none of which is in the
  repository: the client (\<open>kube_api\<close>, over an arbitrary type of worlds, so that every answer and
  every change other actors make between two calls is possible), the helpers for finalizers, owner
  references and conditions (\<open>controller_lib\<close>), and the retry of \<open>client-go\<close>. A reconcile threads
  the world and a journal of the write requests it sends and the events it records.

  The documented behaviour the controllers rely on is stated by three locales:
  \<open>retry_contract\<close>, \<open>condition_contract\<close> and \<open>finalizer_contract\<close>.
\<close>

section \<open>Requests, events and the reconcile state\<close>

datatype EventType = EventTypeNormal | EventTypeWarning

datatype effect =
    EffUpdate PgpilotMonitor
  | EffApply Child
  | EffStatus PgpilotMonitor
  | EffLibraryStatus PgpilotMetricLibrary
  | EffEvent EventType string string

record 'w rstate =
  world :: 'w
  journal :: "effect list"

definition on_world :: "('w \<Rightarrow> 'r \<times> 'w) \<Rightarrow> 'w rstate \<Rightarrow> 'r \<times> 'w rstate" where
  "on_world f s = (let (r, w') = f (world s) in (r, s\<lparr>world := w'\<rparr>))"

definition emit :: "effect \<Rightarrow> 'w rstate \<Rightarrow> 'w rstate" where
  "emit e s = s\<lparr>journal := journal s @ [e]\<rparr>"

lemma on_world_journal [simp]: "journal (snd (on_world f s)) = journal s"
  by (simp add: on_world_def split: prod.split)

lemma on_world_journal' [dest]: "on_world f s = (r, s') \<Longrightarrow> journal s' = journal s"
  by (metis on_world_journal snd_conv)

lemma fst_on_world: "fst (on_world g s) = fst (g (world s))"
  by (simp add: on_world_def split: prod.split)

lemma on_worldE:
  assumes "fst (g (world s)) = x"
  obtains s1 where "on_world g s = (x, s1)" "journal s1 = journal s"
  using assms by (metis fst_on_world on_world_journal prod.collapse)

lemma emit_simps [simp]:
  "journal (emit e s) = journal s @ [e]"
  "world (emit e s) = world s"
  by (simp_all add: emit_def)

text \<open>
  \<open>emits P s s'\<close>: the journal grew from \<open>s\<close> to \<open>s'\<close> by effects that satisfy \<open>P\<close>.
\<close>

definition emits :: "(effect \<Rightarrow> bool) \<Rightarrow> 'w rstate \<Rightarrow> 'w rstate \<Rightarrow> bool" where
  "emits P s s' \<longleftrightarrow> (\<exists>es. journal s' = journal s @ es \<and> list_all P es)"

named_theorems emits_intros "composition rules of the journal relation"

lemma emits_refl [simp, emits_intros]: "emits P s s"
  by (simp add: emits_def)

lemma emits_trans: "emits P s s' \<Longrightarrow> emits P s' s'' \<Longrightarrow> emits P s s''"
  by (auto simp: emits_def)

lemma emits_mono: "emits P s s' \<Longrightarrow> (\<And>e. P e \<Longrightarrow> Q e) \<Longrightarrow> emits Q s s'"
  by (auto simp: emits_def list_all_iff)

lemma emits_same: "journal s' = journal s \<Longrightarrow> emits P s s'"
  by (simp add: emits_def)

lemma emits_on_world [emits_intros]: "on_world f s = (r, s') \<Longrightarrow> emits P s s'"
  by (rule emits_same) (rule on_world_journal')

lemma emits_emit [emits_intros]: "P e \<Longrightarrow> emits P s (emit e s)"
  by (simp add: emits_def)

fun applied :: "effect list \<Rightarrow> Child list" where
  "applied [] = []"
| "applied (EffApply c # es) = c # applied es"
| "applied (_ # es) = applied es"

lemma applied_append [simp]: "applied (es @ es') = applied es @ applied es'"
  by (induction es rule: applied.induct) auto

fun is_apply :: "effect \<Rightarrow> bool" where
  "is_apply (EffApply _) = True"
| "is_apply _ = False"

lemma applied_none: "list_all (\<lambda>e. \<not> is_apply e) es \<Longrightarrow> applied es = []"
  by (induction es rule: applied.induct) auto

text \<open>The children applied between two states, when the journal only grew.\<close>

definition applies :: "'w rstate \<Rightarrow> 'w rstate \<Rightarrow> Child list \<Rightarrow> bool" where
  "applies s s' cs \<longleftrightarrow> (\<exists>es. journal s' = journal s @ es \<and> applied es = cs)"

lemma applies_trans: "applies s s' cs \<Longrightarrow> applies s' s'' cs' \<Longrightarrow> applies s s'' (cs @ cs')"
  by (auto simp: applies_def)

lemma applies_none: "emits (\<lambda>e. \<not> is_apply e) s s' \<Longrightarrow> applies s s' []"
  by (auto simp: emits_def applies_def applied_none)

lemma applies_before: "applies s s' cs \<Longrightarrow> emits (\<lambda>e. \<not> is_apply e) s0 s \<Longrightarrow> applies s0 s' cs"
  using applies_trans [of s0 s "[]" s' cs] applies_none by auto

lemma applies_after: "applies s s' cs \<Longrightarrow> emits (\<lambda>e. \<not> is_apply e) s' s'' \<Longrightarrow> applies s s'' cs"
  using applies_trans [of s s' cs s'' "[]"] applies_none by auto

text \<open>The events recorded, as their type and reason.\<close>

fun events :: "effect list \<Rightarrow> (EventType \<times> string) list" where
  "events [] = []"
| "events (EffEvent ty reason _ # es) = (ty, reason) # events es"
| "events (_ # es) = events es"

lemma events_append [simp]: "events (es @ es') = events es @ events es'"
  by (induction es rule: events.induct) auto

fun is_event :: "effect \<Rightarrow> bool" where
  "is_event (EffEvent _ _ _) = True"
| "is_event _ = False"

lemma events_none: "list_all (\<lambda>e. \<not> is_event e) es \<Longrightarrow> events es = []"
  by (induction es rule: events.induct) auto

definition reports :: "'w rstate \<Rightarrow> 'w rstate \<Rightarrow> (EventType \<times> string) list \<Rightarrow> bool" where
  "reports s s' evs \<longleftrightarrow> (\<exists>es. journal s' = journal s @ es \<and> events es = evs)"

lemma reports_trans: "reports s s' xs \<Longrightarrow> reports s' s'' ys \<Longrightarrow> reports s s'' (xs @ ys)"
  by (auto simp: reports_def)

lemma reports_none: "emits (\<lambda>e. \<not> is_event e) s s' \<Longrightarrow> reports s s' []"
  by (auto simp: emits_def reports_def events_none)

lemma reports_before: "reports s s' xs \<Longrightarrow> reports s0 s [] \<Longrightarrow> reports s0 s' xs"
  using reports_trans [of s0 s "[]" s' xs] by simp

lemma reports_after: "reports s s' xs \<Longrightarrow> reports s' s'' [] \<Longrightarrow> reports s s'' xs"
  using reports_trans [of s s' xs s'' "[]"] by simp

lemma reports_unique: "reports s s' xs \<Longrightarrow> reports s s' ys \<Longrightarrow> xs = ys"
  by (auto simp: reports_def)

lemma applies_unique: "applies s s' xs \<Longrightarrow> applies s s' ys \<Longrightarrow> xs = ys"
  by (auto simp: applies_def)

lemma reports_same: "journal s' = journal s \<Longrightarrow> reports s s' []"
  by (simp add: reports_def)

lemma applies_same: "journal s' = journal s \<Longrightarrow> applies s s' []"
  by (simp add: applies_def)

section \<open>The client\<close>

text \<open>
  The \<open>wait.Backoff\<close> a retry is given, as far as the model has time for it: how often the function is
  run at most. \<open>retry.DefaultRetry\<close> is the one client-go recommends for conflicts; it has five steps.
\<close>

record wait_Backoff =
  bo_Steps :: nat

definition DefaultRetry :: wait_Backoff where
  "DefaultRetry = \<lparr>bo_Steps = 5\<rparr>"

lemma DefaultRetry_Steps [simp]: "bo_Steps DefaultRetry = 5"
  by (simp add: DefaultRetry_def)

record 'w kube_api =
  api_GetMonitor :: "NamespacedName \<Rightarrow> 'w \<Rightarrow> (goerror + PgpilotMonitor) \<times> 'w"
  api_UpdateMonitor :: "PgpilotMonitor \<Rightarrow> 'w \<Rightarrow> (goerror + PgpilotMonitor) \<times> 'w"
  api_UpdateMonitorStatus :: "PgpilotMonitor \<Rightarrow> 'w \<Rightarrow> goerror option \<times> 'w"
  api_GetSecret :: "NamespacedName \<Rightarrow> 'w \<Rightarrow> goerror option \<times> 'w"
  api_GetLibrary :: "NamespacedName \<Rightarrow> 'w \<Rightarrow> (goerror + PgpilotMetricLibrary) \<times> 'w"
  api_UpdateLibraryStatus :: "PgpilotMetricLibrary \<Rightarrow> 'w \<Rightarrow> goerror option \<times> 'w"
  api_GetDeployment :: "NamespacedName \<Rightarrow> 'w \<Rightarrow> (goerror + Deployment) \<times> 'w"
  api_Patch :: "Child \<Rightarrow> 'w \<Rightarrow> goerror option \<times> 'w"
  api_ListPods :: "string \<Rightarrow> (string, string) gomap \<Rightarrow> 'w \<Rightarrow> (goerror + string list) \<times> 'w"
  api_ListMonitors :: "string \<Rightarrow> 'w \<Rightarrow> (goerror + PgpilotMonitor list) \<times> 'w"
  api_Now :: "'w \<Rightarrow> Time \<times> 'w"
  api_RetryOnConflict :: "wait_Backoff \<Rightarrow>
    ('w rstate \<Rightarrow> goerror option \<times> 'w rstate) \<Rightarrow> 'w rstate \<Rightarrow> goerror option \<times> 'w rstate"

record controller_lib =
  cl_ContainsFinalizer :: "ObjectMeta \<Rightarrow> string \<Rightarrow> bool"
  cl_AddFinalizer :: "ObjectMeta \<Rightarrow> string \<Rightarrow> ObjectMeta"
  cl_RemoveFinalizer :: "ObjectMeta \<Rightarrow> string \<Rightarrow> ObjectMeta"
  cl_SetControllerReference :: "PgpilotMonitor \<Rightarrow> ObjectMeta \<Rightarrow> goerror + ObjectMeta"
  cl_SetStatusCondition :: "Time \<Rightarrow> Condition list \<Rightarrow> Condition \<Rightarrow> Condition list"

section \<open>Retry on conflict\<close>

text \<open>
  \<open>retry.RetryOnConflict\<close>: run the function; while it fails with a conflict and the budget is not
  spent, run it again; the last error is returned.
\<close>

fun attempts :: "nat \<Rightarrow> ('s \<Rightarrow> goerror option \<times> 's) \<Rightarrow> 's \<Rightarrow> goerror option \<times> 's" where
  "attempts 0 f s = f s"
| "attempts (Suc n) f s =
     (case f s of
        (None, s') \<Rightarrow> (None, s')
      | (Some e, s') \<Rightarrow> if IsConflict e then attempts n f s' else (Some e, s'))"

locale retry_contract =
  fixes retry :: "('s \<Rightarrow> goerror option \<times> 's) \<Rightarrow> 's \<Rightarrow> goerror option \<times> 's"
  assumes retry_attempts: "\<exists>n. retry f s = attempts n f s"
begin

text \<open>An invariant of one attempt is an invariant of the whole retry.\<close>

lemma retry_invariant:
  assumes "P s" "\<And>s. P s \<Longrightarrow> P (snd (f s))"
  shows "P (snd (retry f s))"
proof -
  obtain n where n: "retry f s = attempts n f s" using retry_attempts by blast
  have "P (snd (attempts n f s))"
    using assms(1)
  proof (induction n arbitrary: s)
    case 0
    then show ?case by (simp add: assms(2))
  next
    case (Suc n)
    have step: "P (snd (f s))" by (rule assms(2) [OF Suc.prems])
    then show ?case by (auto split: prod.split option.split dest: Suc.IH)
  qed
  with n show ?thesis by simp
qed

text \<open>A successful retry ends with a successful attempt.\<close>

lemma retry_success:
  assumes "retry f s = (None, s')"
  obtains s0 where "f s0 = (None, s')"
proof -
  obtain n where n: "retry f s = attempts n f s" using retry_attempts by blast
  have "\<exists>s0. f s0 = (None, s')" if "attempts n f s = (None, s')" for n s
    using that
  proof (induction n arbitrary: s)
    case (Suc n)
    then show ?case by (auto split: prod.splits option.splits if_splits)
  qed auto
  with n assms that show ?thesis by metis
qed

text \<open>An error that is not a conflict is final: the last attempt failed with it.\<close>

lemma retry_failure:
  assumes "retry f s = (Some e, s')"
  obtains s0 where "f s0 = (Some e, s')"
proof -
  obtain n where n: "retry f s = attempts n f s" using retry_attempts by blast
  have "\<exists>s0. f s0 = (Some e, s')" if "attempts n f s = (Some e, s')" for n s
    using that
  proof (induction n arbitrary: s)
    case (Suc n)
    then show ?case by (auto split: prod.splits option.splits if_splits)
  qed auto
  with n assms that show ?thesis by metis
qed

end

interpretation bounded_retry: retry_contract "attempts n" for n
  by unfold_locales auto

section \<open>Conditions\<close>

definition find_condition :: "Condition list \<Rightarrow> string \<Rightarrow> Condition option" where
  "find_condition cs t = find (\<lambda>c. cd_Type c = t) cs"

text \<open>The part of a condition the controllers write (the transition time is the library's).\<close>

definition condition_content :: "Condition \<Rightarrow> ConditionStatus \<times> int64 \<times> string \<times> string" where
  "condition_content c = (cd_Status c, cd_ObservedGeneration c, cd_Reason c, cd_Message c)"

text \<open>
  \<open>meta.SetStatusCondition\<close>: the condition of that type gets the new content, every other type
  keeps its condition, and no type gets a second one.
\<close>

locale condition_contract =
  fixes set_cond :: "Time \<Rightarrow> Condition list \<Rightarrow> Condition \<Rightarrow> Condition list"
  assumes set_same: "map_option condition_content (find_condition (set_cond t cs c) (cd_Type c)) =
      Some (condition_content c)"
    and set_other: "ty \<noteq> cd_Type c \<Longrightarrow> find_condition (set_cond t cs c) ty = find_condition cs ty"
    and set_types: "distinct (map cd_Type cs) \<Longrightarrow> distinct (map cd_Type (set_cond t cs c))"

section \<open>Owner references\<close>

definition owned_by :: "PgpilotMonitor \<Rightarrow> ObjectMeta \<Rightarrow> bool" where
  "owned_by monitor meta \<longleftrightarrow>
     list_ex (\<lambda>ref. or_Controller ref \<and> or_Kind ref = ''PgpilotMonitor'' \<and> or_Name ref = pm_Name monitor
                     \<and> or_UID ref = om_UID (pm_Meta monitor)) (om_OwnerReferences meta)"

text \<open>
  \<open>ctrl.SetControllerReference\<close> writes the owner references only, and on success one of them is
  the controller reference to the monitor.
\<close>

locale owner_contract =
  fixes set_ref :: "PgpilotMonitor \<Rightarrow> ObjectMeta \<Rightarrow> goerror + ObjectMeta"
  assumes ref_frame: "set_ref m meta = Inr meta' \<Longrightarrow>
      meta'\<lparr>om_OwnerReferences := []\<rparr> = meta\<lparr>om_OwnerReferences := []\<rparr>"
    and ref_owner: "set_ref m meta = Inr meta' \<Longrightarrow> owned_by m meta'"
begin

lemma ref_fields:
  assumes "set_ref m meta = Inr meta'"
  shows "om_Name meta' = om_Name meta" "om_Namespace meta' = om_Namespace meta"
    "om_Labels meta' = om_Labels meta" "om_Annotations meta' = om_Annotations meta"
  using ref_frame [OF assms] by (cases meta, cases meta', simp)+

end

section \<open>Finalizers\<close>

locale finalizer_contract =
  fixes contains :: "ObjectMeta \<Rightarrow> string \<Rightarrow> bool"
    and add :: "ObjectMeta \<Rightarrow> string \<Rightarrow> ObjectMeta"
    and remove :: "ObjectMeta \<Rightarrow> string \<Rightarrow> ObjectMeta"
  assumes contains_iff: "contains m f \<longleftrightarrow> f \<in> set (om_Finalizers m)"
    and add_set: "set (om_Finalizers (add m f)) = insert f (set (om_Finalizers m))"
    and remove_set: "set (om_Finalizers (remove m f)) = set (om_Finalizers m) - {f}"
    and add_frame: "(add m f)\<lparr>om_Finalizers := []\<rparr> = m\<lparr>om_Finalizers := []\<rparr>"
    and remove_frame: "(remove m f)\<lparr>om_Finalizers := []\<rparr> = m\<lparr>om_Finalizers := []\<rparr>"
begin

lemma contains_add: "contains (add m f) f"
  by (simp add: contains_iff add_set)

lemma not_contains_remove: "\<not> contains (remove m f) f"
  by (simp add: contains_iff remove_set)

lemma remove_other: "f' \<noteq> f \<Longrightarrow> contains (remove m f) f' = contains m f'"
  by (simp add: contains_iff remove_set)

end

end
