(* ===== verification/MonitorController.thy ===== *)
theory MonitorController
  imports KubeApi
begin

text \<open>
  \<open>internal/controller/pgpilotmonitor_controller.go\<close>: the reconcile loop of a monitor, one
  definition per numbered step of \<open>Reconcile\<close>, composed in its order. Every early return is a
  branch; \<open>Panic\<close> is a nil dereference or a slice out of range. \<open>log.Error\<close> calls are not kept.
\<close>

section \<open>Results\<close>

record Result =
  res_RequeueAfter :: int64

abbreviation emptyResult :: Result where
  "emptyResult \<equiv> \<lparr>res_RequeueAfter = 0\<rparr>"

abbreviation requeue_seconds :: "int64 \<Rightarrow> Result" where
  "requeue_seconds n \<equiv> \<lparr>res_RequeueAfter = n * 1000000000\<rparr>"

datatype Outcome = Done Result "goerror option" | Panic

record 'w Reconciler =
  r_Client :: "'w kube_api"
  r_Lib :: controller_lib
  r_Yaml :: yaml_lib
  r_ServiceMonitorEnabled :: bool

definition finalizerName :: string where "finalizerName = ''pgpilot.io/finalizer''"

definition timestamp_IsZero :: "Time option \<Rightarrow> bool" where
  "timestamp_IsZero t = (case t of None \<Rightarrow> True | Some x \<Rightarrow> x = 0)"

text \<open>\<open>s[:12]\<close>, out of range on a shorter string.\<close>

definition slice12 :: "string \<Rightarrow> string option" where
  "slice12 s = (if length s < 12 then None else Some (take 12 s))"

section \<open>Conditions and status\<close>

definition setCondition ::
  "'w Reconciler \<Rightarrow> PgpilotMonitor \<Rightarrow> string \<Rightarrow> ConditionStatus \<Rightarrow> string \<Rightarrow> string
     \<Rightarrow> 'w rstate \<Rightarrow> PgpilotMonitor \<times> 'w rstate" where
  "setCondition r monitor condType status reason message s =
     (let (now, s) = on_world (api_Now (r_Client r)) s;
          conds = cl_SetStatusCondition (r_Lib r) now (st_Conditions (pm_Status monitor))
                    \<lparr>cd_Type = condType,
                     cd_Status = status,
                     cd_ObservedGeneration = om_Generation (pm_Meta monitor),
                     cd_LastTransitionTime = 0,
                     cd_Reason = reason,
                     cd_Message = message\<rparr>
      in (monitor\<lparr>pm_Status := (pm_Status monitor)\<lparr>st_Conditions := conds\<rparr>\<rparr>, s))"

definition patchStatus_attempt ::
  "'w Reconciler \<Rightarrow> PgpilotMonitor \<Rightarrow> 'w rstate \<Rightarrow> goerror option \<times> 'w rstate" where
  "patchStatus_attempt r monitor s =
     (case on_world (api_GetMonitor (r_Client r) (monitor_key monitor)) s of
        (Inl err, s) \<Rightarrow> (Some err, s)
      | (Inr latest, s) \<Rightarrow>
          (let latest = latest\<lparr>pm_Status := pm_Status monitor\<rparr>
           in on_world (api_UpdateMonitorStatus (r_Client r) latest) (emit (EffStatus latest) s)))"

definition patchStatus ::
  "'w Reconciler \<Rightarrow> PgpilotMonitor \<Rightarrow> 'w rstate \<Rightarrow> goerror option \<times> 'w rstate" where
  "patchStatus r monitor s = api_RetryOnConflict (r_Client r) DefaultRetry (patchStatus_attempt r monitor) s"

definition recordEvent :: "EventType \<Rightarrow> string \<Rightarrow> string \<Rightarrow> 'w rstate \<Rightarrow> 'w rstate" where
  "recordEvent ty reason message s = emit (EffEvent ty reason message) s"

section \<open>Step 1: credentials\<close>

definition validateCredentials ::
  "'w Reconciler \<Rightarrow> PgpilotMonitor \<Rightarrow> 'w rstate \<Rightarrow> (Result \<times> bool) \<times> PgpilotMonitor \<times> 'w rstate" where
  "validateCredentials r monitor s =
     (let db = pm_Database monitor
      in if db_Username db \<noteq> [] \<and> db_Password db \<noteq> []
         then (let (monitor, s) = setCondition r monitor ''DatabaseReachable'' ConditionTrue
                     ''InlineCredentials'' ''Inline username/password configured'' s
               in ((emptyResult, True), monitor, s))
         else (case db_CredentialsSecret db of
             Some ref \<Rightarrow>
               (case on_world (api_GetSecret (r_Client r)
                       \<lparr>nn_Namespace = pm_Namespace monitor, nn_Name = cs_Name ref\<rparr>) s of
                  (Some err, s) \<Rightarrow>
                    (let (monitor, s) = setCondition r monitor ''Ready'' ConditionFalse ''SecretNotFound''
                           (''Secret '' @ go_quote (cs_Name ref) @ '' not found: '' @ err_Error err) s;
                         (monitor, s) = setCondition r monitor ''DatabaseReachable'' ConditionFalse ''SecretNotFound''
                           (''Credentials secret '' @ go_quote (cs_Name ref) @ '' not found'') s;
                         s = recordEvent EventTypeWarning ''SecretNotFound''
                           (''Credentials secret '' @ go_quote (cs_Name ref) @ '' not found in namespace ''
                              @ go_quote (pm_Namespace monitor)) s;
                         (_, s) = patchStatus r monitor s
                     in ((requeue_seconds 30, False), monitor, s))
                | (None, s) \<Rightarrow>
                    (let (monitor, s) = setCondition r monitor ''DatabaseReachable'' ConditionTrue
                           ''CredentialsFound''
                           (''Credentials secret '' @ go_quote (cs_Name ref) @ '' exists'') s
                     in ((emptyResult, True), monitor, s)))
           | None \<Rightarrow>
               (let (monitor, s) = setCondition r monitor ''Ready'' ConditionFalse ''NoCredentials''
                      ''spec.database has no inline username/password and no credentialsSecret'' s;
                    (_, s) = patchStatus r monitor s
                in ((requeue_seconds 30, False), monitor, s))))"

section \<open>Step 2: metric libraries\<close>

fun resolve_loop ::
  "'w Reconciler \<Rightarrow> string \<Rightarrow> LibraryRef list \<Rightarrow> PgpilotMetricLibrary list \<Rightarrow> 'w rstate
     \<Rightarrow> (goerror + PgpilotMetricLibrary list) \<times> 'w rstate" where
  "resolve_loop r ns [] libs s = (Inr libs, s)"
| "resolve_loop r ns (ref # refs) libs s =
     (case on_world (api_GetLibrary (r_Client r) \<lparr>nn_Namespace = ns, nn_Name = lr_Name ref\<rparr>) s of
        (Inl err, s) \<Rightarrow> (Inl (ErrWrap (''library '' @ go_quote (lr_Name ref)) err), s)
      | (Inr lib, s) \<Rightarrow> resolve_loop r ns refs (libs @ [lib]) s)"

definition resolveLibraries ::
  "'w Reconciler \<Rightarrow> PgpilotMonitor \<Rightarrow> 'w rstate \<Rightarrow> (goerror + PgpilotMetricLibrary list) \<times> 'w rstate" where
  "resolveLibraries r monitor s =
     (let refs = ms_FromLibraries (sp_Metrics (pm_Spec monitor))
      in if refs = [] then (Inr [], s) else resolve_loop r (pm_Namespace monitor) refs [] s)"

section \<open>Applying a child\<close>

definition serverSideApply :: "'w Reconciler \<Rightarrow> Child \<Rightarrow> 'w rstate \<Rightarrow> goerror option \<times> 'w rstate" where
  "serverSideApply r obj s =
     (let obj = set_child_meta ((child_meta obj)\<lparr>om_ManagedFields := [], om_ResourceVersion := []\<rparr>) obj
      in on_world (api_Patch (r_Client r) obj) (emit (EffApply obj) s))"

definition apply_owned ::
  "'w Reconciler \<Rightarrow> PgpilotMonitor \<Rightarrow> string \<Rightarrow> Child \<Rightarrow> 'w rstate \<Rightarrow> goerror option \<times> 'w rstate" where
  "apply_owned r monitor what child s =
     (case cl_SetControllerReference (r_Lib r) monitor (child_meta child) of
        Inl err \<Rightarrow> (Some err, s)
      | Inr meta \<Rightarrow>
          (case serverSideApply r (set_child_meta meta child) s of
             (Some err, s) \<Rightarrow> (Some (ErrWrap what err), s)
           | (None, s) \<Rightarrow> (None, s)))"

section \<open>Steps 3 and 4: metrics and ConfigMap\<close>

definition reconcile_config ::
  "'w Reconciler \<Rightarrow> PgpilotMonitor \<Rightarrow> MergedMetrics \<Rightarrow> 'w rstate
     \<Rightarrow> (Outcome + PgpilotMonitor \<times> string) \<times> 'w rstate" where
  "reconcile_config r monitor merged s =
     (case BuildConfigMap (r_Yaml r) monitor merged of
        Inl err \<Rightarrow> (Inl (Done emptyResult (Some (ErrWrap ''build configmap'' err))), s)
      | Inr (desiredCM, configHash) \<Rightarrow>
          (case apply_owned r monitor ''reconcile configmap'' (ChildConfigMap desiredCM) s of
             (Some err, s) \<Rightarrow> (Inl (Done emptyResult (Some err)), s)
           | (None, s) \<Rightarrow>
               (case slice12 configHash of
                  None \<Rightarrow> (Inl Panic, s)
                | Some short \<Rightarrow>
                    (let (monitor, s) = setCondition r monitor ''ConfigGenerated'' ConditionTrue
                           ''ConfigMapUpdated''
                           (''ConfigMap '' @ om_Name (cm_Meta desiredCM) @ '' up to date (hash='' @ short @ '')'') s
                     in if st_ConfigHash (pm_Status monitor) \<noteq> configHash
                        then (Inr (monitor\<lparr>pm_Status := (pm_Status monitor)\<lparr>st_ConfigHash := configHash\<rparr>\<rparr>, configHash),
                              recordEvent EventTypeNormal ''ConfigMapUpdated''
                                (''ConfigMap '' @ om_Name (cm_Meta desiredCM) @ '' reconciled (hash='' @ short @ '')'') s)
                        else (Inr (monitor, configHash), s)))))"

section \<open>Steps 5, 6 and 6b: workloads\<close>

definition reconcile_workloads ::
  "'w Reconciler \<Rightarrow> PgpilotMonitor \<Rightarrow> MergedMetrics \<Rightarrow> string \<Rightarrow> 'w rstate \<Rightarrow> Outcome option \<times> 'w rstate" where
  "reconcile_workloads r monitor merged configHash s =
     (case BuildDeployment monitor merged configHash of
        None \<Rightarrow> (Some Panic, s)
      | Some desiredDep \<Rightarrow>
          (case apply_owned r monitor ''reconcile deployment'' (ChildDeployment desiredDep) s of
             (Some err, s) \<Rightarrow> (Some (Done emptyResult (Some err)), s)
           | (None, s) \<Rightarrow>
               (case apply_owned r monitor ''reconcile service'' (ChildService (BuildService monitor)) s of
                  (Some err, s) \<Rightarrow> (Some (Done emptyResult (Some err)), s)
                | (None, s) \<Rightarrow>
                    if r_ServiceMonitorEnabled r
                    then (case apply_owned r monitor ''reconcile servicemonitor''
                                 (ChildServiceMonitor (BuildServiceMonitor monitor)) s of
                            (Some err, s) \<Rightarrow> (Some (Done emptyResult (Some err)), s)
                          | (None, s) \<Rightarrow> (None, s))
                    else (None, s))))"

section \<open>Step 7: status\<close>

definition ready_transition ::
  "'w Reconciler \<Rightarrow> PgpilotMonitor \<Rightarrow> bool \<Rightarrow> bool \<Rightarrow> 'w rstate \<Rightarrow> PgpilotMonitor \<times> 'w rstate" where
  "ready_transition r monitor wasReady ready s =
     (if ready
      then (let (monitor, s) = setCondition r monitor ''Ready'' ConditionTrue ''PodRunning''
                  ''pgwatch pod running and scraping'' s
            in (monitor, if wasReady then s
                         else recordEvent EventTypeNormal ''PodRunning'' ''pgwatch pod running and scraping'' s))
      else (let (monitor, s) = setCondition r monitor ''Ready'' ConditionFalse ''PodNotReady''
                  ''pgwatch pod is not ready yet'' s
            in (monitor, if wasReady
                         then recordEvent EventTypeWarning ''PodNotReady'' ''pgwatch pod is not ready yet'' s
                         else s)))"

definition find_pod :: "'w Reconciler \<Rightarrow> PgpilotMonitor \<Rightarrow> 'w rstate \<Rightarrow> PgpilotMonitor \<times> 'w rstate" where
  "find_pod r monitor s =
     (case on_world (api_ListPods (r_Client r) (pm_Namespace monitor)
             [(LabelAppInstance, pm_Name monitor), (LabelAppName, AppName)]) s of
        (Inr (pod # _), s) \<Rightarrow>
          (monitor\<lparr>pm_Status := (pm_Status monitor)\<lparr>st_PodName := pod\<rparr>\<rparr>, s)
      | (_, s) \<Rightarrow> (monitor, s))"

definition reconcile_status :: "'w Reconciler \<Rightarrow> PgpilotMonitor \<Rightarrow> 'w rstate \<Rightarrow> Outcome \<times> 'w rstate" where
  "reconcile_status r monitor s =
     (case on_world (api_GetDeployment (r_Client r)
             \<lparr>nn_Namespace = pm_Namespace monitor, nn_Name = ResourceName (pm_Name monitor)\<rparr>) s of
        (Inl err, s) \<Rightarrow> (Done emptyResult (Some err), s)
      | (Inr currentDep, s) \<Rightarrow>
          (let wasReady = st_Ready (pm_Status monitor);
               ready = (0 < sint (dep_ReadyReplicas currentDep));
               (now, s) = on_world (api_Now (r_Client r)) s;
               monitor = monitor\<lparr>pm_Status := (pm_Status monitor)
                   \<lparr>st_Ready := ready,
                    st_ObservedGeneration := om_Generation (pm_Meta monitor),
                    st_LastReconciled := Some now\<rparr>\<rparr>;
               (monitor, s) = ready_transition r monitor wasReady ready s;
               (monitor, s) = find_pod r monitor s
           in case patchStatus r monitor s of
                (Some err, s) \<Rightarrow> (Done emptyResult (Some (ErrWrap ''update status'' err)), s)
              | (None, s) \<Rightarrow> (Done (if ready then emptyResult else requeue_seconds 15) None, s)))"

section \<open>The reconcile loop\<close>

definition reconcile_merged ::
  "'w Reconciler \<Rightarrow> PgpilotMonitor \<Rightarrow> PgpilotMetricLibrary list \<Rightarrow> 'w rstate \<Rightarrow> Outcome \<times> 'w rstate" where
  "reconcile_merged r monitor libraries s =
     (let merged = MergeMetrics (sp_Metrics (pm_Spec monitor)) libraries
      in case reconcile_config r monitor merged s of
           (Inl out, s) \<Rightarrow> (out, s)
         | (Inr (monitor, configHash), s) \<Rightarrow>
             (case reconcile_workloads r monitor merged configHash s of
                (Some out, s) \<Rightarrow> (out, s)
              | (None, s) \<Rightarrow> reconcile_status r monitor s))"

definition reconcile_spec :: "'w Reconciler \<Rightarrow> PgpilotMonitor \<Rightarrow> 'w rstate \<Rightarrow> Outcome \<times> 'w rstate" where
  "reconcile_spec r monitor s =
     (case validateCredentials r monitor s of
        ((result, False), monitor, s) \<Rightarrow> (Done result None, s)
      | ((_, True), monitor, s) \<Rightarrow>
          (case resolveLibraries r monitor s of
             (Inl err, s) \<Rightarrow>
               (let (monitor, s) = setCondition r monitor ''Ready'' ConditionFalse ''LibraryResolveFailed''
                      (err_Error err) s;
                    s = recordEvent EventTypeWarning ''LibraryResolveFailed''
                      (''Failed to resolve metric libraries: '' @ err_Error err) s;
                    (_, s) = patchStatus r monitor s
                in (Done (requeue_seconds 30) None, s))
           | (Inr libraries, s) \<Rightarrow> reconcile_merged r monitor libraries s))"

definition set_meta :: "PgpilotMonitor \<Rightarrow> ObjectMeta \<Rightarrow> PgpilotMonitor" where
  "set_meta monitor meta = monitor\<lparr>pm_Meta := meta\<rparr>"

definition update_monitor ::
  "'w Reconciler \<Rightarrow> PgpilotMonitor \<Rightarrow> 'w rstate \<Rightarrow> (goerror + PgpilotMonitor) \<times> 'w rstate" where
  "update_monitor r monitor s =
     on_world (api_UpdateMonitor (r_Client r) monitor) (emit (EffUpdate monitor) s)"

definition reconcile_deletion :: "'w Reconciler \<Rightarrow> PgpilotMonitor \<Rightarrow> 'w rstate \<Rightarrow> Outcome \<times> 'w rstate" where
  "reconcile_deletion r monitor s =
     (if cl_ContainsFinalizer (r_Lib r) (pm_Meta monitor) finalizerName
      then (let monitor = set_meta monitor (cl_RemoveFinalizer (r_Lib r) (pm_Meta monitor) finalizerName)
            in case update_monitor r monitor s of
                 (Inl err, s) \<Rightarrow> (Done emptyResult (Some err), s)
               | (Inr _, s) \<Rightarrow> (Done emptyResult None, s))
      else (Done emptyResult None, s))"

definition ensure_finalizer ::
  "'w Reconciler \<Rightarrow> PgpilotMonitor \<Rightarrow> 'w rstate \<Rightarrow> (goerror + PgpilotMonitor) \<times> 'w rstate" where
  "ensure_finalizer r monitor s =
     (if cl_ContainsFinalizer (r_Lib r) (pm_Meta monitor) finalizerName then (Inr monitor, s)
      else update_monitor r
             (set_meta monitor (cl_AddFinalizer (r_Lib r) (pm_Meta monitor) finalizerName)) s)"

definition Reconcile :: "'w Reconciler \<Rightarrow> NamespacedName \<Rightarrow> 'w rstate \<Rightarrow> Outcome \<times> 'w rstate" where
  "Reconcile r req s =
     (case on_world (api_GetMonitor (r_Client r) req) s of
        (Inl err, s) \<Rightarrow> (Done emptyResult (if IsNotFound err then None else Some err), s)
      | (Inr monitor, s) \<Rightarrow>
          if \<not> timestamp_IsZero (om_DeletionTimestamp (pm_Meta monitor))
          then reconcile_deletion r monitor s
          else (case ensure_finalizer r monitor s of
                  (Inl err, s) \<Rightarrow> (Done emptyResult (Some err), s)
                | (Inr monitor, s) \<Rightarrow> reconcile_spec r monitor s))"

end
