(* ===== verification/MonitorFacts.thy ===== *)
theory MonitorFacts
  imports MonitorController
begin

text \<open>
  Facts of the monitor's reconcile loop, step by step: what each step leaves alone, what it writes
  into the journal, and on which branch. Facts that go through \<open>patchStatus\<close> assume the retry
  contract of the client.
\<close>

section \<open>Conditions\<close>

lemma setCondition_frame:
  assumes "setCondition r m ty st re msg s = (m', s')"
  shows "pm_Meta m' = pm_Meta m" "pm_Spec m' = pm_Spec m" "journal s' = journal s"
    "(pm_Status m')\<lparr>st_Conditions := []\<rparr> = (pm_Status m)\<lparr>st_Conditions := []\<rparr>"
  using assms by (auto simp: setCondition_def Let_def split: prod.splits)

text \<open>Two monitors that differ in their conditions at most.\<close>

definition conditions_only :: "PgpilotMonitor \<Rightarrow> PgpilotMonitor \<Rightarrow> bool" where
  "conditions_only m m' \<longleftrightarrow> pm_Meta m' = pm_Meta m \<and> pm_Spec m' = pm_Spec m
     \<and> (pm_Status m')\<lparr>st_Conditions := []\<rparr> = (pm_Status m)\<lparr>st_Conditions := []\<rparr>"

lemma conditions_only_trans:
  "conditions_only m m' \<Longrightarrow> conditions_only m' m'' \<Longrightarrow> conditions_only m m''"
  by (simp add: conditions_only_def)

lemma setCondition_only: "setCondition r m ty st re msg s = (m', s') \<Longrightarrow> conditions_only m m'"
  unfolding conditions_only_def by (intro conjI) (erule setCondition_frame)+

lemma conditions_only_status:
  assumes "conditions_only m m'"
  shows "st_Ready (pm_Status m') = st_Ready (pm_Status m)"
    "st_ConfigHash (pm_Status m') = st_ConfigHash (pm_Status m)"
    "st_PodName (pm_Status m') = st_PodName (pm_Status m)"
    "st_ObservedGeneration (pm_Status m') = st_ObservedGeneration (pm_Status m)"
    "st_LastReconciled (pm_Status m') = st_LastReconciled (pm_Status m)"
  using assms unfolding conditions_only_def
  by (cases "pm_Status m", cases "pm_Status m'", simp)+

lemma setCondition_emits [emits_intros]: "setCondition r m ty st re msg s = (m', s') \<Longrightarrow> emits P s s'"
  by (rule emits_same) (rule setCondition_frame(3))

text \<open>What the condition contract gives for a condition the controller sets.\<close>

lemma setCondition_conditions:
  assumes "condition_contract (cl_SetStatusCondition (r_Lib r))"
    and "setCondition r m ty st re msg s = (m', s')"
  shows "map_option condition_content (find_condition (st_Conditions (pm_Status m')) ty) =
      Some (st, om_Generation (pm_Meta m), re, msg)"
    and "ty' \<noteq> ty \<Longrightarrow> find_condition (st_Conditions (pm_Status m')) ty' =
      find_condition (st_Conditions (pm_Status m)) ty'"
    and "distinct (map cd_Type (st_Conditions (pm_Status m))) \<Longrightarrow>
      distinct (map cd_Type (st_Conditions (pm_Status m')))"
proof -
  obtain now c where conds: "st_Conditions (pm_Status m') =
        cl_SetStatusCondition (r_Lib r) now (st_Conditions (pm_Status m)) c"
    and c: "cd_Type c = ty" "condition_content c = (st, om_Generation (pm_Meta m), re, msg)"
    using assms(2) by (auto simp: setCondition_def Let_def condition_content_def split: prod.splits)
  show "map_option condition_content (find_condition (st_Conditions (pm_Status m')) ty) =
      Some (st, om_Generation (pm_Meta m), re, msg)"
    using condition_contract.set_same [OF assms(1)] c by (simp add: conds) metis
  show "ty' \<noteq> ty \<Longrightarrow> find_condition (st_Conditions (pm_Status m')) ty' =
      find_condition (st_Conditions (pm_Status m)) ty'"
    using condition_contract.set_other [OF assms(1)] c(1) by (simp add: conds)
  show "distinct (map cd_Type (st_Conditions (pm_Status m))) \<Longrightarrow>
      distinct (map cd_Type (st_Conditions (pm_Status m')))"
    using condition_contract.set_types [OF assms(1)] by (simp add: conds)
qed

section \<open>Status updates\<close>

definition status_of :: "PgpilotMonitorStatus \<Rightarrow> effect \<Rightarrow> bool" where
  "status_of st e \<longleftrightarrow> (case e of EffStatus m \<Rightarrow> pm_Status m = st | _ \<Rightarrow> False)"

lemma status_of_not_apply: "status_of st e \<Longrightarrow> \<not> is_apply e"
  by (cases e) (auto simp: status_of_def)

lemma patchStatus_attempt_emits:
  "patchStatus_attempt r m s = (res, s') \<Longrightarrow> emits (status_of (pm_Status m)) s s'"
  by (auto simp: patchStatus_attempt_def Let_def status_of_def emits_def
      split: prod.splits sum.splits dest!: on_world_journal')

lemma patchStatus_attempt_success:
  assumes "patchStatus_attempt r m s = (None, s')"
  obtains latest es where "journal s' = journal s @ es @ [EffStatus latest]" "pm_Status latest = pm_Status m"
  using assms
  by (auto simp: patchStatus_attempt_def Let_def split: prod.splits sum.splits dest!: on_world_journal')

lemma patchStatus_emits:
  assumes "retry_contract (api_RetryOnConflict (r_Client r) DefaultRetry)"
    and "patchStatus r m s = (res, s')"
  shows "emits (status_of (pm_Status m)) s s'"
proof -
  have "emits (status_of (pm_Status m)) s (snd (api_RetryOnConflict (r_Client r) DefaultRetry (patchStatus_attempt r m) s))"
  proof (rule retry_contract.retry_invariant [OF assms(1)])
    fix s1
    assume "emits (status_of (pm_Status m)) s s1"
    then show "emits (status_of (pm_Status m)) s (snd (patchStatus_attempt r m s1))"
      by (metis emits_trans patchStatus_attempt_emits surjective_pairing)
  qed simp
  with assms(2) show ?thesis by (simp add: patchStatus_def)
qed

lemma patchStatus_success:
  assumes "retry_contract (api_RetryOnConflict (r_Client r) DefaultRetry)"
    and "patchStatus r m s = (None, s')"
  obtains latest js where "journal s' = js @ [EffStatus latest]" "pm_Status latest = pm_Status m"
proof -
  obtain s0 where "patchStatus_attempt r m s0 = (None, s')"
    using retry_contract.retry_success [OF assms(1)] assms(2) unfolding patchStatus_def by metis
  then show ?thesis by (rule patchStatus_attempt_success) (metis append_assoc that)
qed

lemma patchStatus_no_apply:
  assumes "retry_contract (api_RetryOnConflict (r_Client r) DefaultRetry)" "patchStatus r m s = (res, s')"
  shows "emits (\<lambda>e. \<not> is_apply e) s s'"
  by (rule emits_mono [OF patchStatus_emits [OF assms]]) (rule status_of_not_apply)

section \<open>Credentials and libraries\<close>

abbreviation no_apply :: "'w rstate \<Rightarrow> 'w rstate \<Rightarrow> bool" where
  "no_apply \<equiv> emits (\<lambda>e. \<not> is_apply e)"

lemma recordEvent_no_apply: "no_apply s (recordEvent ty re msg s)"
  by (simp add: recordEvent_def emits_emit)

lemma recordEvent_journal [simp]: "journal (recordEvent ty re msg s) = journal s @ [EffEvent ty re msg]"
  by (simp add: recordEvent_def)

text \<open>The monitor that leaves the validation: only conditions of its status were written.\<close>

lemma validateCredentials_only:
  assumes "validateCredentials r m s = ((res, ok), m', s')"
  shows "conditions_only m m'"
  using assms
  by (auto simp: validateCredentials_def Let_def split: if_splits option.splits prod.splits
      dest!: setCondition_only intro: conditions_only_trans)

lemma validateCredentials_no_apply:
  assumes retry: "retry_contract (api_RetryOnConflict (r_Client r) DefaultRetry)"
    and "validateCredentials r m s = ((res, ok), m', s')"
  shows "no_apply s s'"
proof -
  note steps = emits_on_world [where P = "\<lambda>e. \<not> is_apply e"]
    setCondition_emits [where P = "\<lambda>e. \<not> is_apply e"] patchStatus_no_apply [OF retry]
  from assms(2) show ?thesis
    by (auto simp: validateCredentials_def Let_def split: if_splits option.splits prod.splits
        dest!: steps intro: emits_trans [OF emits_trans] emits_trans recordEvent_no_apply)
qed

lemma validateCredentials_ok:
  assumes "validateCredentials r m s = ((res, True), m', s')"
  shows "buildEnvVars m \<noteq> None"
  using assms
  by (auto simp: validateCredentials_def buildEnvVars_None Let_def split: if_splits option.splits prod.splits)

lemma validateCredentials_failed:
  assumes "validateCredentials r m s = ((res, False), m', s')"
  shows "res = requeue_seconds 30"
  using assms
  by (auto simp: validateCredentials_def Let_def split: if_splits option.splits prod.splits)

lemma resolve_loop_journal: "resolve_loop r ns refs libs s = (res, s') \<Longrightarrow> journal s' = journal s"
  by (induction r ns refs libs s rule: resolve_loop.induct)
    (auto split: prod.splits sum.splits dest!: on_world_journal')

lemma resolveLibraries_journal: "resolveLibraries r m s = (res, s') \<Longrightarrow> journal s' = journal s"
  by (auto simp: resolveLibraries_def Let_def split: if_splits dest: resolve_loop_journal)

section \<open>Applying a child\<close>

lemma serverSideApply_applies:
  assumes "serverSideApply r c s = (res, s')"
  shows "journal s' = journal s @
    [EffApply (set_child_meta ((child_meta c)\<lparr>om_ManagedFields := [], om_ResourceVersion := []\<rparr>) c)]"
  using assms by (auto simp: serverSideApply_def Let_def dest!: on_world_journal')

text \<open>
  The request for one child: its kind and everything but its metadata are the builder's, its
  metadata adds the controller reference and drops what server-side apply must not carry.
\<close>

definition child_request :: "PgpilotMonitor \<Rightarrow> Child \<Rightarrow> Child \<Rightarrow> bool" where
  "child_request monitor built sent \<longleftrightarrow>
     sent = set_child_meta (child_meta sent) built
     \<and> owned_by monitor (child_meta sent)
     \<and> om_ResourceVersion (child_meta sent) = [] \<and> om_ManagedFields (child_meta sent) = []
     \<and> om_Name (child_meta sent) = om_Name (child_meta built)
     \<and> om_Namespace (child_meta sent) = om_Namespace (child_meta built)
     \<and> om_Labels (child_meta sent) = om_Labels (child_meta built)
     \<and> om_Annotations (child_meta sent) = om_Annotations (child_meta built)"

lemma apply_owned_cases:
  assumes owner: "owner_contract (cl_SetControllerReference (r_Lib r))"
    and "apply_owned r m what c s = (res, s')"
  obtains "res \<noteq> None" "s' = s"
  | sent where "journal s' = journal s @ [EffApply sent]" "child_request m c sent"
proof (cases "cl_SetControllerReference (r_Lib r) m (child_meta c)")
  case (Inl err)
  with assms(2) show ?thesis by (intro that(1)) (auto simp: apply_owned_def)
next
  case (Inr meta)
  let ?sent = "set_child_meta (meta\<lparr>om_ManagedFields := [], om_ResourceVersion := []\<rparr>) c"
  have own: "owned_by m meta" by (rule owner_contract.ref_owner [OF owner Inr])
  have "journal s' = journal s @ [EffApply ?sent]"
    using assms(2) Inr
    by (auto simp: apply_owned_def split: prod.splits option.splits dest!: serverSideApply_applies)
  moreover have "child_request m c ?sent"
    using own owner_contract.ref_fields [OF owner Inr]
    by (simp add: child_request_def owned_by_def)
  ultimately show ?thesis by (rule that(2))
qed

text \<open>Without any contract: at most one request, of the child's kind, and one on success.\<close>

lemma apply_owned_applies:
  assumes "apply_owned r m what c s = (res, s')"
  obtains cs where "applies s s' cs" "map child_kind cs = [] \<and> res \<noteq> None \<or> map child_kind cs = [child_kind c]"
proof (cases "cl_SetControllerReference (r_Lib r) m (child_meta c)")
  case (Inl err)
  with assms show ?thesis by (intro that [of "[]"]) (auto simp: apply_owned_def applies_def)
next
  case (Inr meta)
  let ?sent = "set_child_meta (meta\<lparr>om_ManagedFields := [], om_ResourceVersion := []\<rparr>) c"
  have "journal s' = journal s @ [EffApply ?sent]"
    using assms Inr
    by (auto simp: apply_owned_def split: prod.splits option.splits dest!: serverSideApply_applies)
  then show ?thesis by (intro that [of "[?sent]"]) (auto simp: applies_def)
qed

end
