(* ===== verification/MonitorSteps.thy ===== *)
theory MonitorSteps
  imports MonitorFacts
begin

text \<open>
  The reconcile loop, composed from the facts of its steps: which children it applies and in which
  order (against the abstract specification \<open>desired_children\<close>, a function of the monitor and its
  libraries), which events it records, what it reports in the status, and that it never panics.
\<close>

section \<open>The children as a function of the specification\<close>

definition desired_children ::
  "bool \<Rightarrow> yaml_lib \<Rightarrow> PgpilotMonitor \<Rightarrow> PgpilotMetricLibrary list \<Rightarrow> Child list option" where
  "desired_children sm_enabled y monitor libraries =
     (let merged = MergeMetrics (sp_Metrics (pm_Spec monitor)) libraries
      in case BuildConfigMap y monitor merged of
           Inl _ \<Rightarrow> None
         | Inr (cm, configHash) \<Rightarrow>
             map_option (\<lambda>dep. [ChildConfigMap cm, ChildDeployment dep, ChildService (BuildService monitor)]
                 @ (if sm_enabled then [ChildServiceMonitor (BuildServiceMonitor monitor)] else []))
               (BuildDeployment monitor merged configHash))"

text \<open>The builders read the name, the namespace and the specification of a monitor only.\<close>

definition same_monitor :: "PgpilotMonitor \<Rightarrow> PgpilotMonitor \<Rightarrow> bool" where
  "same_monitor m m' \<longleftrightarrow> pm_Name m' = pm_Name m \<and> pm_Namespace m' = pm_Namespace m \<and> pm_Spec m' = pm_Spec m"

lemma same_monitor_fields:
  assumes "same_monitor m m'"
  shows "pm_Name m' = pm_Name m" "pm_Namespace m' = pm_Namespace m" "pm_Spec m' = pm_Spec m"
  using assms by (simp_all add: same_monitor_def)

lemma buildEnvVars_same: "same_monitor m m' \<Longrightarrow> buildEnvVars m' = buildEnvVars m"
  by (simp only: buildEnvVars_def same_monitor_fields)

lemma pgwatch_container_same: "same_monitor m m' \<Longrightarrow> pgwatch_container m' merged e = pgwatch_container m merged e"
  by (simp only: pgwatch_container_def prometheusPort_def containerImage_def buildArgs_def same_monitor_fields)

lemma BuildConfigMap_same: "same_monitor m m' \<Longrightarrow> BuildConfigMap y m' merged = BuildConfigMap y m merged"
  by (simp only: BuildConfigMap_def config_data_def renderSources_def source_entry_def same_monitor_fields)

lemma BuildDeployment_same: "same_monitor m m' \<Longrightarrow> BuildDeployment m' merged h = BuildDeployment m merged h"
  by (simp only: BuildDeployment_def buildEnvVars_same pgwatch_container_same same_monitor_fields)

lemma BuildService_same: "same_monitor m m' \<Longrightarrow> BuildService m' = BuildService m"
  by (simp only: BuildService_def prometheusPort_def same_monitor_fields)

lemma BuildServiceMonitor_same: "same_monitor m m' \<Longrightarrow> BuildServiceMonitor m' = BuildServiceMonitor m"
  by (simp only: BuildServiceMonitor_def same_monitor_fields)

lemmas builders_same = BuildConfigMap_same BuildDeployment_same BuildService_same BuildServiceMonitor_same

lemma same_monitor_meta: "pm_Meta m' = pm_Meta m \<Longrightarrow> pm_Spec m' = pm_Spec m \<Longrightarrow> same_monitor m m'"
  by (simp add: same_monitor_def)

lemmas buildEnvVars_ignore_status = buildEnvVars_same [OF same_monitor_meta]
  and BuildConfigMap_ignore_status = BuildConfigMap_same [OF same_monitor_meta]
  and BuildDeployment_ignore_status = BuildDeployment_same [OF same_monitor_meta]
  and builders_ignore_status = builders_same [OF same_monitor_meta]

lemma conditions_only_meta: "conditions_only m m' \<Longrightarrow> pm_Meta m' = pm_Meta m"
  and conditions_only_spec: "conditions_only m m' \<Longrightarrow> pm_Spec m' = pm_Spec m"
  by (simp_all add: conditions_only_def)

lemma desired_children_same: "same_monitor m m' \<Longrightarrow> desired_children b y m' libs = desired_children b y m libs"
  by (simp only: desired_children_def builders_same same_monitor_fields)

lemmas desired_children_ignore_status = desired_children_same [OF same_monitor_meta]

lemma child_request_ignore_status:
  "pm_Meta m' = pm_Meta m \<Longrightarrow> child_request m' = child_request m"
  unfolding child_request_def [abs_def] owned_by_def by simp

lemma desired_children_cases:
  assumes "desired_children b y m libs = Some cs"
  obtains cm h dep where
    "BuildConfigMap y m (MergeMetrics (sp_Metrics (pm_Spec m)) libs) = Inr (cm, h)"
    "BuildDeployment m (MergeMetrics (sp_Metrics (pm_Spec m)) libs) h = Some dep"
    "cs = [ChildConfigMap cm, ChildDeployment dep, ChildService (BuildService m)]
       @ (if b then [ChildServiceMonitor (BuildServiceMonitor m)] else [])"
  using assms by (auto simp only: desired_children_def Let_def option.simps map_option_eq_Some
      split: sum.splits prod.splits)

lemma desired_children_kinds:
  assumes "desired_children b y m libs = Some cs"
  shows "map child_kind cs =
    [KConfigMap, KDeployment, KService] @ (if b then [KServiceMonitor] else [])"
  using assms by (rule desired_children_cases) simp

lemma desired_children_sorted:
  "desired_children b y m libs = Some cs \<Longrightarrow> sorted_wrt (<) (map child_kind cs)"
  by (simp add: desired_children_kinds less_ChildKind_def)

lemma service_meta:
  "om_Namespace (svc_Meta (BuildService m)) = pm_Namespace m"
  "om_Name (svc_Meta (BuildService m)) = ResourceName (pm_Name m)"
  "om_Namespace (sm_Meta (BuildServiceMonitor m)) = pm_Namespace m"
  "om_Name (sm_Meta (BuildServiceMonitor m)) = ResourceName (pm_Name m)"
  by (simp_all add: BuildService_def BuildServiceMonitor_def Let_def emptyMeta_def)

lemma desired_children_names:
  assumes "desired_children b y m libs = Some cs" "c \<in> set cs"
  shows "om_Namespace (child_meta c) = pm_Namespace m"
    and "om_Name (child_meta c) = ResourceName (pm_Name m)
      @ (if child_kind c = KConfigMap then ''-config'' else [])"
proof -
  obtain cm h dep where cm: "BuildConfigMap y m (MergeMetrics (sp_Metrics (pm_Spec m)) libs) = Inr (cm, h)"
    and dep: "BuildDeployment m (MergeMetrics (sp_Metrics (pm_Spec m)) libs) h = Some dep"
    and cs: "cs = [ChildConfigMap cm, ChildDeployment dep, ChildService (BuildService m)]
       @ (if b then [ChildServiceMonitor (BuildServiceMonitor m)] else [])"
    using assms(1) by (rule desired_children_cases)
  have c: "c \<in> {ChildConfigMap cm, ChildDeployment dep, ChildService (BuildService m),
      ChildServiceMonitor (BuildServiceMonitor m)}"
    using assms(2) by (auto simp: cs split: if_splits)
  have "om_Name (dep_Meta dep) = ResourceName (pm_Name m)" "om_Namespace (dep_Meta dep) = pm_Namespace m"
    by (rule BuildDeployment_Some [OF dep], assumption)+
  then show "om_Namespace (child_meta c) = pm_Namespace m"
    and "om_Name (child_meta c) = ResourceName (pm_Name m)
      @ (if child_kind c = KConfigMap then ''-config'' else [])"
    using c by (elim insertE; simp add: BuildConfigMap_shape [OF cm] service_meta)+
qed

section \<open>Applying the children\<close>

text \<open>
  \<open>sends r m s s' cs sent\<close>: between two states the requests \<open>sent\<close> went out, each the request for
  the child of \<open>cs\<close> at its position.
\<close>

definition sends :: "PgpilotMonitor \<Rightarrow> 'w rstate \<Rightarrow> 'w rstate \<Rightarrow> Child list \<Rightarrow> Child list \<Rightarrow> bool" where
  "sends m s s' cs sent \<longleftrightarrow> applies s s' sent \<and> list_all2 (child_request m) cs sent"

lemma sends_Nil: "no_apply s s' \<Longrightarrow> sends m s s' [] []"
  by (simp add: sends_def applies_none)

lemma sends_trans: "sends m s s' cs xs \<Longrightarrow> sends m s' s'' cs' ys \<Longrightarrow> sends m s s'' (cs @ cs') (xs @ ys)"
  by (auto simp: sends_def list_all2_appendI intro: applies_trans)

lemma sends_after: "sends m s s' cs xs \<Longrightarrow> no_apply s' s'' \<Longrightarrow> sends m s s'' cs xs"
  by (auto simp: sends_def intro: applies_after)

lemma sends_before: "sends m s s' cs xs \<Longrightarrow> no_apply s0 s \<Longrightarrow> sends m s0 s' cs xs"
  by (auto simp: sends_def intro: applies_before)

lemma apply_owned_sends:
  assumes owner: "owner_contract (cl_SetControllerReference (r_Lib r))"
    and "apply_owned r m what c s = (res, s')"
  obtains "res \<noteq> None" "sends m s s' [] []" | sent where "sends m s s' [c] [sent]"
  using assms
proof (rule apply_owned_cases)
  assume "res \<noteq> None" "s' = s"
  then show ?thesis by (intro that(1)) (simp_all add: sends_Nil)
next
  fix sent
  assume "journal s' = journal s @ [EffApply sent]" "child_request m c sent"
  then show ?thesis by (intro that(2)) (simp add: sends_def applies_def)
qed

text \<open>A step that stopped early sent a prefix of its requests.\<close>

definition sends_upto :: "PgpilotMonitor \<Rightarrow> 'w rstate \<Rightarrow> 'w rstate \<Rightarrow> Child list \<Rightarrow> bool" where
  "sends_upto m s s' cs \<longleftrightarrow> (\<exists>sent. sends m s s' (take (length sent) cs) sent)"

definition sends_all :: "PgpilotMonitor \<Rightarrow> 'w rstate \<Rightarrow> 'w rstate \<Rightarrow> Child list \<Rightarrow> bool" where
  "sends_all m s s' cs \<longleftrightarrow> (\<exists>sent. sends m s s' cs sent)"

lemma sends_length: "sends m s s' cs sent \<Longrightarrow> length sent = length cs"
  by (auto simp: sends_def dest: list_all2_lengthD)

lemma sends_all_Nil [simp]: "sends_all m s s []"
  unfolding sends_all_def by (rule exI [of _ "[]"]) (simp add: sends_Nil)

lemma sends_upto_none: "no_apply s s' \<Longrightarrow> sends_upto m s s' cs"
  unfolding sends_upto_def by (rule exI [of _ "[]"]) (simp add: sends_Nil)

lemma sends_all_trans: "sends_all m s s' cs \<Longrightarrow> sends_all m s' s'' ds \<Longrightarrow> sends_all m s s'' (cs @ ds)"
  unfolding sends_all_def by (blast intro: sends_trans)

lemma sends_all_after: "sends_all m s s' cs \<Longrightarrow> no_apply s' s'' \<Longrightarrow> sends_all m s s'' cs"
  and sends_all_before: "sends_all m s s' cs \<Longrightarrow> no_apply s0 s \<Longrightarrow> sends_all m s0 s' cs"
  unfolding sends_all_def by (blast intro: sends_after sends_before)+

lemma sends_upto_before: "sends_upto m s s' cs \<Longrightarrow> no_apply s0 s \<Longrightarrow> sends_upto m s0 s' cs"
  unfolding sends_upto_def by (blast intro: sends_before)

lemma sends_upto_trans:
  assumes "sends_all m s s' cs" "sends_upto m s' s'' ds"
  shows "sends_upto m s s'' (cs @ ds)"
proof -
  obtain xs ys where xs: "sends m s s' cs xs" and ys: "sends m s' s'' (take (length ys) ds) ys"
    using assms by (auto simp: sends_all_def sends_upto_def)
  from sends_trans [OF xs ys] have "sends m s s'' (take (length (xs @ ys)) (cs @ ds)) (xs @ ys)"
    by (simp add: sends_length [OF xs])
  then show ?thesis unfolding sends_upto_def by (rule exI [of _ "xs @ ys"])
qed

lemma sends_upto_more: "sends_upto m s s' cs \<Longrightarrow> sends_upto m s s' (cs @ ds)"
proof -
  assume "sends_upto m s s' cs"
  then obtain xs where xs: "sends m s s' (take (length xs) cs) xs" by (auto simp: sends_upto_def)
  have "length xs \<le> length cs" using sends_length [OF xs] by simp
  then have "take (length xs) (cs @ ds) = take (length xs) cs" by simp
  with xs show ?thesis unfolding sends_upto_def by metis
qed

lemma sends_all_upto: "sends_all m s s' cs \<Longrightarrow> sends_upto m s s' cs"
  unfolding sends_all_def sends_upto_def by (metis order_refl sends_length take_all)

lemma apply_owned_upto:
  assumes owner: "owner_contract (cl_SetControllerReference (r_Lib r))"
    and run: "apply_owned r m what c s = (res, s')"
  shows "sends_upto m s s' [c]" "res = None \<Longrightarrow> sends_all m s s' [c]"
proof -
  have "sends_upto m s s' [c] \<and> (res = None \<longrightarrow> sends_all m s s' [c])"
  proof (rule apply_owned_sends [OF owner run])
    assume "res \<noteq> None" "sends m s s' [] []"
    then show ?thesis unfolding sends_upto_def by (auto intro!: exI [of _ "[]"])
  next
    fix sent
    assume "sends m s s' [c] [sent]"
    then have "sends_all m s s' [c]" by (auto simp: sends_all_def)
    then show ?thesis by (simp add: sends_all_upto)
  qed
  then show "sends_upto m s s' [c]" "res = None \<Longrightarrow> sends_all m s s' [c]" by simp_all
qed

section \<open>Events of the steps\<close>

lemma setCondition_reports: "setCondition r m ty st re msg s = (m', s') \<Longrightarrow> reports s s' []"
  by (rule reports_same) (rule setCondition_frame(3))

lemma status_of_not_event: "status_of st e \<Longrightarrow> \<not> is_event e"
  by (cases e) (auto simp: status_of_def)

lemma patchStatus_reports:
  assumes "retry_contract (api_RetryOnConflict (r_Client r) DefaultRetry)" "patchStatus r m s = (res, s')"
  shows "reports s s' []"
  by (rule reports_none, rule emits_mono [OF patchStatus_emits [OF assms]]) (rule status_of_not_event)

lemma recordEvent_reports: "reports s (recordEvent ty re msg s) [(ty, re)]"
  by (simp add: reports_def)

lemma apply_owned_reports:
  assumes "apply_owned r m what c s = (res, s')"
  shows "reports s s' []"
proof (cases "cl_SetControllerReference (r_Lib r) m (child_meta c)")
  case (Inl err)
  with assms show ?thesis by (auto simp: apply_owned_def reports_def)
next
  case (Inr meta)
  let ?sent = "set_child_meta (meta\<lparr>om_ManagedFields := [], om_ResourceVersion := []\<rparr>) c"
  have "journal s' = journal s @ [EffApply ?sent]"
    using assms Inr
    by (auto simp: apply_owned_def split: prod.splits option.splits dest!: serverSideApply_applies)
  then show ?thesis by (simp add: reports_def)
qed

section \<open>The status step\<close>

definition transition_events :: "bool \<Rightarrow> bool \<Rightarrow> (EventType \<times> string) list" where
  "transition_events was now =
     (if now \<and> \<not> was then [(EventTypeNormal, ''PodRunning'')]
      else if was \<and> \<not> now then [(EventTypeWarning, ''PodNotReady'')] else [])"

definition ready_content :: "PgpilotMonitor \<Rightarrow> bool \<Rightarrow> ConditionStatus \<times> int64 \<times> string \<times> string" where
  "ready_content m ready =
     (if ready
      then (ConditionTrue, om_Generation (pm_Meta m), ''PodRunning'', ''pgwatch pod running and scraping'')
      else (ConditionFalse, om_Generation (pm_Meta m), ''PodNotReady'', ''pgwatch pod is not ready yet''))"

lemma ready_transition_facts:
  assumes cond: "condition_contract (cl_SetStatusCondition (r_Lib r))"
    and run: "ready_transition r m was ready s = (m', s')"
  shows "conditions_only m m'" "reports s s' (transition_events was ready)" "no_apply s s'"
    "map_option condition_content (find_condition (st_Conditions (pm_Status m')) ''Ready'') =
       Some (ready_content m ready)"
    "ty \<noteq> ''Ready'' \<Longrightarrow> find_condition (st_Conditions (pm_Status m')) ty =
       find_condition (st_Conditions (pm_Status m)) ty"
proof -
  define reason where "reason = (if ready then ''PodRunning'' else ''PodNotReady'')"
  define msg where "msg = (if ready then ''pgwatch pod running and scraping'' else ''pgwatch pod is not ready yet'')"
  define st where "st = (if ready then ConditionTrue else ConditionFalse)"
  obtain s1 where set: "setCondition r m ''Ready'' st reason msg s = (m', s1)"
    and s': "s' = (if was = ready then s1
               else recordEvent (if ready then EventTypeNormal else EventTypeWarning) reason msg s1)"
    using run by (cases ready; cases was)
      (auto simp: ready_transition_def reason_def msg_def st_def Let_def split: prod.splits)
  show "conditions_only m m'" by (rule setCondition_only [OF set])
  have same: "journal s1 = journal s" by (rule setCondition_frame(3) [OF set])
  show "reports s s' (transition_events was ready)"
    using same by (auto simp: s' reports_def transition_events_def reason_def)
  show "no_apply s s'" using same by (auto simp: s' emits_def)
  show "map_option condition_content (find_condition (st_Conditions (pm_Status m')) ''Ready'') =
       Some (ready_content m ready)"
    using setCondition_conditions(1) [OF cond set]
    by (simp add: ready_content_def reason_def msg_def st_def split: if_splits)
  show "ty \<noteq> ''Ready'' \<Longrightarrow> find_condition (st_Conditions (pm_Status m')) ty =
       find_condition (st_Conditions (pm_Status m)) ty"
    by (rule setCondition_conditions(2) [OF cond set])
qed

lemma find_pod_facts:
  assumes "find_pod r m s = (m', s')"
  shows "journal s' = journal s" "\<exists>pod. m' = m\<lparr>pm_Status := (pm_Status m)\<lparr>st_PodName := pod\<rparr>\<rparr>"
proof -
  have "m' = m \<or> (\<exists>pod. m' = m\<lparr>pm_Status := (pm_Status m)\<lparr>st_PodName := pod\<rparr>\<rparr>)"
    using assms by (auto simp: find_pod_def split: prod.splits sum.splits list.splits)
  moreover have "m = m\<lparr>pm_Status := (pm_Status m)\<lparr>st_PodName := st_PodName (pm_Status m)\<rparr>\<rparr>" by simp
  ultimately show "\<exists>pod. m' = m\<lparr>pm_Status := (pm_Status m)\<lparr>st_PodName := pod\<rparr>\<rparr>" by metis
  show "journal s' = journal s"
    using assms by (auto simp: find_pod_def split: prod.splits sum.splits list.splits dest!: on_world_journal')
qed

text \<open>
  What the status step reports for an observed readiness: \<open>status_reported m ready st\<close> relates the
  monitor that enters the step to the status that is written.
\<close>

definition status_reported :: "PgpilotMonitor \<Rightarrow> bool \<Rightarrow> PgpilotMonitorStatus \<Rightarrow> bool" where
  "status_reported m ready st \<longleftrightarrow>
     st_Ready st = ready
     \<and> st_ObservedGeneration st = om_Generation (pm_Meta m)
     \<and> st_LastReconciled st \<noteq> None
     \<and> st_ConfigHash st = st_ConfigHash (pm_Status m)
     \<and> map_option condition_content (find_condition (st_Conditions st) ''Ready'') = Some (ready_content m ready)
     \<and> (\<forall>ty. ty \<noteq> ''Ready'' \<longrightarrow> find_condition (st_Conditions st) ty =
           find_condition (st_Conditions (pm_Status m)) ty)"

text \<open>The last write of a reconcile is a status update with this status.\<close>

definition status_written :: "'w rstate \<Rightarrow> PgpilotMonitorStatus \<Rightarrow> bool" where
  "status_written s' st \<longleftrightarrow> (\<exists>js latest. journal s' = js @ [EffStatus latest] \<and> pm_Status latest = st)"

abbreviation observed_deployment ::
  "'w Reconciler \<Rightarrow> PgpilotMonitor \<Rightarrow> 'w rstate \<Rightarrow> goerror + Deployment" where
  "observed_deployment r m s \<equiv> fst (api_GetDeployment (r_Client r)
     \<lparr>nn_Namespace = pm_Namespace m, nn_Name = ResourceName (pm_Name m)\<rparr> (world s))"

lemma reconcile_status_cases:
  assumes retry: "retry_contract (api_RetryOnConflict (r_Client r) DefaultRetry)"
    and cond: "condition_contract (cl_SetStatusCondition (r_Lib r))"
    and run: "reconcile_status r m s = (out, s')"
  obtains (unread) err where "observed_deployment r m s = Inl err"
      "out = Done emptyResult (Some err)" "journal s' = journal s"
  | (read) dep st err ready where "observed_deployment r m s = Inr dep"
      "ready = (0 < sint (dep_ReadyReplicas dep))"
      "status_reported m ready st" "no_apply s s'"
      "reports s s' (transition_events (st_Ready (pm_Status m)) ready)"
      "case err of None \<Rightarrow> out = Done (if ready then emptyResult else requeue_seconds 15) None \<and> status_written s' st
         | Some e \<Rightarrow> out = Done emptyResult (Some (ErrWrap ''update status'' e))"
proof -
  define key where "key = \<lparr>nn_Namespace = pm_Namespace m, nn_Name = ResourceName (pm_Name m)\<rparr>"
  obtain res s1 where get: "on_world (api_GetDeployment (r_Client r) key) s = (res, s1)"
    by (cases "on_world (api_GetDeployment (r_Client r) key) s")
  have seen: "observed_deployment r m s = res" and same1: "journal s1 = journal s"
    using get on_world_journal' [OF get] by (auto simp: on_world_def key_def split: prod.splits)
  show ?thesis
  proof (cases res)
    case (Inl err)
    with run get seen same1 show ?thesis by (intro unread) (auto simp: reconcile_status_def key_def)
  next
    case (Inr dep)
    define ready where "ready = (0 < sint (dep_ReadyReplicas dep))"
    obtain now s2 where now: "on_world (api_Now (r_Client r)) s1 = (now, s2)"
      by (cases "on_world (api_Now (r_Client r)) s1")
    define m1 where "m1 = m\<lparr>pm_Status := (pm_Status m)\<lparr>st_Ready := ready,
        st_ObservedGeneration := om_Generation (pm_Meta m), st_LastReconciled := Some now\<rparr>\<rparr>"
    obtain m2 s3 where tr: "ready_transition r m1 (st_Ready (pm_Status m)) ready s2 = (m2, s3)"
      by (cases "ready_transition r m1 (st_Ready (pm_Status m)) ready s2")
    obtain m3 s4 where pod: "find_pod r m2 s3 = (m3, s4)" by (cases "find_pod r m2 s3")
    obtain err s5 where patch: "patchStatus r m3 s4 = (err, s5)" by (cases "patchStatus r m3 s4")
    have "reconcile_status r m s =
        (case err of Some e \<Rightarrow> (Done emptyResult (Some (ErrWrap ''update status'' e)), s5)
         | None \<Rightarrow> (Done (if ready then emptyResult else requeue_seconds 15) None, s5))"
      unfolding reconcile_status_def key_def [symmetric] get Inr
      using now tr pod patch
      by (simp add: m1_def ready_def Let_def)
    with run have out: "s' = s5" "out = (case err of Some e \<Rightarrow> Done emptyResult (Some (ErrWrap ''update status'' e))
         | None \<Rightarrow> Done (if ready then emptyResult else requeue_seconds 15) None)"
      by (auto split: option.splits)
    note tr_facts = ready_transition_facts [OF cond tr]
    note pod_facts = find_pod_facts [OF pod]
    have same: "journal s2 = journal s" "journal s4 = journal s3"
      using on_world_journal' [OF now] same1 pod_facts by simp_all
    have "status_reported m ready (pm_Status m3)"
      using pod_facts(2) conditions_only_status [OF tr_facts(1)] tr_facts(4,5)
      by (auto simp: status_reported_def m1_def ready_content_def)
    moreover have "no_apply s s'"
      unfolding out using tr_facts(3) patchStatus_no_apply [OF retry patch] same
      by (metis emits_same emits_trans)
    moreover have "reports s s' (transition_events (st_Ready (pm_Status m)) ready)"
      unfolding out using tr_facts(2) patchStatus_reports [OF retry patch] same
      by (metis reports_after reports_before reports_same)
    moreover have "status_written s' (pm_Status m3)" if "err = None"
      using patchStatus_success [OF retry] patch that unfolding out(1) status_written_def by metis
    ultimately show ?thesis
      using out(2) Inr seen ready_def by (intro read [of dep ready _ err]) (auto split: option.splits)
  qed
qed

section \<open>The ConfigMap step\<close>

definition config_events :: "PgpilotMonitor \<Rightarrow> string \<Rightarrow> (EventType \<times> string) list" where
  "config_events m configHash =
     (if st_ConfigHash (pm_Status m) = configHash then [] else [(EventTypeNormal, ''ConfigMapUpdated'')])"

text \<open>The monitor after the ConfigMap step: the hash of what was applied is recorded.\<close>

definition config_recorded :: "PgpilotMonitor \<Rightarrow> string \<Rightarrow> PgpilotMonitor \<Rightarrow> bool" where
  "config_recorded m configHash m' \<longleftrightarrow>
     pm_Meta m' = pm_Meta m \<and> pm_Spec m' = pm_Spec m
     \<and> st_ConfigHash (pm_Status m') = configHash
     \<and> st_Ready (pm_Status m') = st_Ready (pm_Status m)"

lemma slice12_hash: "slice12 (contentHash d) = Some (take 12 (contentHash d))"
  by (simp add: slice12_def)

lemma reconcile_config_cases:
  assumes owner: "owner_contract (cl_SetControllerReference (r_Lib r))"
    and run: "reconcile_config r m merged s = (res, s')"
  obtains (unbuilt) err where "BuildConfigMap (r_Yaml r) m merged = Inl err"
      "res = Inl (Done emptyResult (Some (ErrWrap ''build configmap'' err)))" "s' = s"
  | (failed) cm h err where "BuildConfigMap (r_Yaml r) m merged = Inr (cm, h)"
      "res = Inl (Done emptyResult (Some err))" "reports s s' []"
      "sends_upto m s s' [ChildConfigMap cm]"
  | (applied) cm h m' where "BuildConfigMap (r_Yaml r) m merged = Inr (cm, h)"
      "res = Inr (m', h)" "config_recorded m h m'" "reports s s' (config_events m h)"
      "sends_all m s s' [ChildConfigMap cm]"
proof (cases "BuildConfigMap (r_Yaml r) m merged")
  case (Inl err)
  with run show ?thesis by (intro unbuilt) (auto simp: reconcile_config_def)
next
  case (Inr p)
  obtain cm h where p: "p = (cm, h)" by (cases p)
  obtain err s1 where ap: "apply_owned r m ''reconcile configmap'' (ChildConfigMap cm) s = (err, s1)"
    by (cases "apply_owned r m ''reconcile configmap'' (ChildConfigMap cm) s")
  have hash: "slice12 h = Some (take 12 h)"
    using BuildConfigMap_shape(5) [of "r_Yaml r" m merged cm h] Inr p by (simp add: slice12_hash)
  have rep: "reports s s1 []" by (rule apply_owned_reports [OF ap])
  show ?thesis
  proof (cases err)
    case (Some e)
    have "sends_upto m s s1 [ChildConfigMap cm]" by (rule apply_owned_upto [OF owner ap])
    with run Inr p ap Some rep show ?thesis by (auto simp: reconcile_config_def intro: failed)
  next
    case None
    have sent: "sends_all m s s1 [ChildConfigMap cm]" by (rule apply_owned_upto(2) [OF owner ap None])
    let ?msg = "''ConfigMap '' @ om_Name (cm_Meta cm) @ '' up to date (hash='' @ take 12 h @ '')''"
    obtain m1 s2 where set: "setCondition r m ''ConfigGenerated'' ConditionTrue ''ConfigMapUpdated'' ?msg s1 = (m1, s2)"
      by (cases "setCondition r m ''ConfigGenerated'' ConditionTrue ''ConfigMapUpdated'' ?msg s1")
    have same: "journal s2 = journal s1" by (rule setCondition_frame(3) [OF set])
    note only = setCondition_only [OF set]
    have st: "st_ConfigHash (pm_Status m1) = st_ConfigHash (pm_Status m)"
        "st_Ready (pm_Status m1) = st_Ready (pm_Status m)"
      by (rule conditions_only_status [OF only])+
    have meta: "pm_Meta m1 = pm_Meta m" "pm_Spec m1 = pm_Spec m"
      using only by (rule conditions_only_meta, rule conditions_only_spec)
    show ?thesis
    proof (cases "st_ConfigHash (pm_Status m) = h")
      case True
      then have "res = Inr (m1, h)" "s' = s2"
        using run Inr p ap None hash set st by (auto simp: reconcile_config_def)
      moreover have "config_recorded m h m1" using st meta True by (simp add: config_recorded_def)
      moreover have "reports s s2 (config_events m h)"
        using reports_after [OF rep reports_same [OF same]] True by (simp add: config_events_def)
      moreover have "sends_all m s s2 [ChildConfigMap cm]"
        by (rule sends_all_after [OF sent emits_same [OF same]])
      ultimately show ?thesis using Inr p by (intro applied) auto
    next
      case False
      let ?m = "m1\<lparr>pm_Status := (pm_Status m1)\<lparr>st_ConfigHash := h\<rparr>\<rparr>"
      have j: "\<exists>msg. res = Inr (?m, h) \<and> s' = recordEvent EventTypeNormal ''ConfigMapUpdated'' msg s2"
        using run Inr p ap None hash set st False by (auto simp: reconcile_config_def)
      then obtain msg where res: "res = Inr (?m, h)"
          and s': "s' = recordEvent EventTypeNormal ''ConfigMapUpdated'' msg s2" by blast
      have "config_recorded m h ?m" using st meta by (simp add: config_recorded_def)
      moreover have "reports s s' (config_events m h)"
        using reports_trans [OF rep reports_trans [OF reports_same [OF same] recordEvent_reports]] False
        by (simp add: config_events_def s')
      moreover have "sends_all m s s' [ChildConfigMap cm]"
        unfolding s' by (rule sends_all_after [OF sends_all_after [OF sent emits_same [OF same]] recordEvent_no_apply])
      ultimately show ?thesis using Inr p res by (intro applied) auto
    qed
  qed
qed

section \<open>The workload steps\<close>

definition workload_children :: "bool \<Rightarrow> PgpilotMonitor \<Rightarrow> Deployment \<Rightarrow> Child list" where
  "workload_children sm_enabled m dep =
     [ChildDeployment dep] @ [ChildService (BuildService m)]
       @ (if sm_enabled then [ChildServiceMonitor (BuildServiceMonitor m)] else [])"

lemma reconcile_workloads_cases:
  assumes owner: "owner_contract (cl_SetControllerReference (r_Lib r))"
    and dep: "BuildDeployment m merged h = Some dep"
    and run: "reconcile_workloads r m merged h s = (res, s')"
  obtains (failed) err where "res = Some (Done emptyResult (Some err))" "reports s s' []"
      "sends_upto m s s' (workload_children (r_ServiceMonitorEnabled r) m dep)"
  | (applied) "res = None" "reports s s' []"
      "sends_all m s s' (workload_children (r_ServiceMonitorEnabled r) m dep)"
proof -
  note upto = apply_owned_upto [OF owner]
  let ?dep = "apply_owned r m ''reconcile deployment'' (ChildDeployment dep)"
  let ?svc = "apply_owned r m ''reconcile service'' (ChildService (BuildService m))"
  let ?sm = "apply_owned r m ''reconcile servicemonitor'' (ChildServiceMonitor (BuildServiceMonitor m))"
  obtain e1 s1 where r1: "?dep s = (e1, s1)" by (cases "?dep s")
  obtain e2 s2 where r2: "?svc s1 = (e2, s2)" by (cases "?svc s1")
  obtain e3 s3 where r3: "?sm s2 = (e3, s3)" by (cases "?sm s2")
  note runs = dep r1 r2 r3
  note reps = apply_owned_reports [OF r1] apply_owned_reports [OF r2] apply_owned_reports [OF r3]
  show ?thesis
  proof (cases e1)
    case (Some e)
    with run runs have "res = Some (Done emptyResult (Some e))" "s' = s1"
      by (auto simp: reconcile_workloads_def)
    moreover have "sends_upto m s s1 (workload_children (r_ServiceMonitorEnabled r) m dep)"
      unfolding workload_children_def by (rule sends_upto_more) (rule upto [OF r1])
    ultimately show ?thesis using reps(1) by (intro failed) auto
  next
    case None1: None
    have all1: "sends_all m s s1 [ChildDeployment dep]" by (rule upto(2) [OF r1 None1])
    have rep2: "reports s s2 []" by (rule reports_after [OF reps(1,2)])
    show ?thesis
    proof (cases e2)
      case (Some e)
      with run runs None1 have "res = Some (Done emptyResult (Some e))" "s' = s2"
        by (auto simp: reconcile_workloads_def)
      moreover have "sends_upto m s s2 (workload_children (r_ServiceMonitorEnabled r) m dep)"
        unfolding workload_children_def
        by (intro sends_upto_trans [OF all1] sends_upto_more) (rule upto [OF r2])
      ultimately show ?thesis using rep2 by (intro failed) auto
    next
      case None2: None
      have all2: "sends_all m s s2 ([ChildDeployment dep] @ [ChildService (BuildService m)])"
        by (rule sends_all_trans [OF all1 upto(2) [OF r2 None2]])
      show ?thesis
      proof (cases "r_ServiceMonitorEnabled r")
        case False
        with run runs None1 None2 have "res = None" "s' = s2"
          by (auto simp: reconcile_workloads_def)
        with all2 rep2 False show ?thesis by (intro applied) (simp_all add: workload_children_def)
      next
        case True
        have rep3: "reports s s3 []" by (rule reports_after [OF rep2 reps(3)])
        have split: "workload_children True m dep = ([ChildDeployment dep] @ [ChildService (BuildService m)])
            @ [ChildServiceMonitor (BuildServiceMonitor m)]"
          by (simp add: workload_children_def)
        show ?thesis
        proof (cases e3)
          case (Some e)
          with run runs None1 None2 True have "res = Some (Done emptyResult (Some e))" "s' = s3"
            by (auto simp: reconcile_workloads_def)
          then show ?thesis using rep3 sends_upto_trans [OF all2 upto(1) [OF r3]]
            by (intro failed) (simp_all only: True split)
        next
          case None
          with run runs None1 None2 True have "res = None" "s' = s3"
            by (auto simp: reconcile_workloads_def)
          then show ?thesis using rep3 sends_all_trans [OF all2 upto(2) [OF r3 None]]
            by (intro applied) (simp_all only: True split)
        qed
      qed
    qed
  qed
qed

end
