(* ===== verification/ReconcileFacts.thy ===== *)
theory ReconcileFacts
  imports MonitorSteps
begin

text \<open>
  The whole reconcile of a monitor, by the branch it takes: from the steps of
  \<open>MonitorSteps\<close> to what one call of \<open>Reconcile\<close> sends, reports and returns.
\<close>

section \<open>From the merged metrics on\<close>

definition status_final :: "PgpilotMonitor \<Rightarrow> string \<Rightarrow> bool \<Rightarrow> PgpilotMonitorStatus \<Rightarrow> bool" where
  "status_final m configHash ready st \<longleftrightarrow>
     st_Ready st = ready
     \<and> st_ObservedGeneration st = om_Generation (pm_Meta m)
     \<and> st_LastReconciled st \<noteq> None
     \<and> st_ConfigHash st = configHash
     \<and> map_option condition_content (find_condition (st_Conditions st) ''Ready'') = Some (ready_content m ready)"

lemma status_reported_final:
  assumes "config_recorded m h m'" "status_reported m' ready st"
  shows "status_final m h ready st"
  using assms by (auto simp: config_recorded_def status_reported_def status_final_def ready_content_def)

abbreviation merged_of :: "PgpilotMonitor \<Rightarrow> PgpilotMetricLibrary list \<Rightarrow> MergedMetrics" where
  "merged_of m libs \<equiv> MergeMetrics (sp_Metrics (pm_Spec m)) libs"

lemma sends_ignore_status:
  assumes "pm_Meta m' = pm_Meta m"
  shows "sends_all m' = sends_all m" "sends_upto m' = sends_upto m"
  by (simp_all only: fun_eq_iff sends_all_def sends_upto_def sends_def child_request_ignore_status [OF assms] simp_thms)

lemma workload_children_ignore_status:
  assumes "pm_Meta m' = pm_Meta m" "pm_Spec m' = pm_Spec m"
  shows "workload_children b m' dep = workload_children b m dep"
  by (simp only: workload_children_def builders_ignore_status [OF assms])

lemma desired_children_Some:
  assumes "BuildConfigMap y m (merged_of m libs) = Inr (cm, h)"
    and "BuildDeployment m (merged_of m libs) h = Some dep"
  shows "desired_children b y m libs = Some ([ChildConfigMap cm] @ workload_children b m dep)"
  by (simp add: desired_children_def assms workload_children_def)

text \<open>
  The readiness a reconcile works with: it comes from the Deployment that is read, by the last step,
  in the very state in which all children have been applied.
\<close>

definition deployment_seen ::
  "'w Reconciler \<Rightarrow> PgpilotMonitor \<Rightarrow> Child list \<Rightarrow> 'w rstate \<Rightarrow> Outcome \<times> 'w rstate \<Rightarrow> bool \<Rightarrow> bool" where
  "deployment_seen r m cs s final ready \<longleftrightarrow>
     (\<exists>m1 s1 dep. sends_all m s s1 cs \<and> reconcile_status r m1 s1 = final
        \<and> observed_deployment r m s1 = Inr dep \<and> ready = (0 < sint (dep_ReadyReplicas dep)))"

lemma deployment_seen_before:
  assumes "deployment_seen r m1 cs s1 final ready" "no_apply s s1" "pm_Meta m1 = pm_Meta m"
  shows "deployment_seen r m cs s final ready"
proof -
  obtain m2 s2 dep where seen: "sends_all m1 s1 s2 cs" "reconcile_status r m2 s2 = final"
    "observed_deployment r m1 s2 = Inr dep" "ready = (0 < sint (dep_ReadyReplicas dep))"
    using assms(1) unfolding deployment_seen_def by blast
  have "sends_all m s s2 cs"
    using sends_all_before [OF seen(1) assms(2)] by (simp only: sends_ignore_status [OF assms(3)])
  moreover have "observed_deployment r m s2 = Inr dep"
    using seen(3) by (simp add: assms(3))
  ultimately show ?thesis using seen(2,4) unfolding deployment_seen_def by blast
qed

lemma reconcile_merged_cases:
  assumes retry: "retry_contract (api_RetryOnConflict (r_Client r) DefaultRetry)"
    and owner: "owner_contract (cl_SetControllerReference (r_Lib r))"
    and cond: "condition_contract (cl_SetStatusCondition (r_Lib r))"
    and env: "buildEnvVars m \<noteq> None"
    and run: "reconcile_merged r m libs s = (out, s')"
  obtains (unbuilt) err where "BuildConfigMap (r_Yaml r) m (merged_of m libs) = Inl err"
      "out = Done emptyResult (Some (ErrWrap ''build configmap'' err))" "s' = s"
  | (failed) cs err where "desired_children (r_ServiceMonitorEnabled r) (r_Yaml r) m libs = Some cs"
      "out = Done emptyResult (Some err)" "sends_upto m s s' cs"
  | (reported) cs cm h ready st where
      "desired_children (r_ServiceMonitorEnabled r) (r_Yaml r) m libs = Some cs"
      "BuildConfigMap (r_Yaml r) m (merged_of m libs) = Inr (cm, h)"
      "out = Done (if ready then emptyResult else requeue_seconds 15) None"
      "sends_all m s s' cs"
      "reports s s' (config_events m h @ transition_events (st_Ready (pm_Status m)) ready)"
      "status_written s' st" "status_final m h ready st" "deployment_seen r m cs s (out, s') ready"
proof -
  let ?b = "r_ServiceMonitorEnabled r" and ?merged = "merged_of m libs"
  obtain res s1 where conf: "reconcile_config r m ?merged s = (res, s1)"
    by (cases "reconcile_config r m ?merged s")
  from owner conf show ?thesis
  proof (cases rule: reconcile_config_cases)
    case (unbuilt err)
    with run conf show ?thesis by (intro that(1)) (auto simp: reconcile_merged_def)
  next
    case (failed cm h err)
    obtain dep where dep: "BuildDeployment m ?merged h = Some dep"
      using env by (auto simp: BuildDeployment_def Let_def)
    from failed run conf show ?thesis
      by (intro that(2) [OF desired_children_Some [OF failed(1) dep]])
        (auto simp: reconcile_merged_def intro: sends_upto_more [where cs = "[_]", simplified])
  next
    case (applied cm h m1)
    obtain dep where dep: "BuildDeployment m ?merged h = Some dep"
      using env by (auto simp: BuildDeployment_def Let_def)
    have meta: "pm_Meta m1 = pm_Meta m" and spec: "pm_Spec m1 = pm_Spec m"
      and was: "st_Ready (pm_Status m1) = st_Ready (pm_Status m)"
      using applied(3) by (simp_all add: config_recorded_def)
    note same = sends_ignore_status [OF meta] workload_children_ignore_status [OF meta spec]
    have dep1: "BuildDeployment m1 ?merged h = Some dep"
      by (simp only: BuildDeployment_ignore_status [OF meta spec] dep)
    note desired = desired_children_Some [OF applied(1) dep, of ?b]
    obtain wres s2 where work: "reconcile_workloads r m1 ?merged h s1 = (wres, s2)"
      by (cases "reconcile_workloads r m1 ?merged h s1")
    from owner dep1 work show ?thesis
    proof (cases rule: reconcile_workloads_cases)
      case (failed err)
      with run conf applied(2) work show ?thesis
        using sends_upto_trans [OF applied(5) failed(3) [unfolded same]]
        by (intro that(2) [OF desired, of err]) (auto simp: reconcile_merged_def)
    next
      case applied_all: applied
      have all: "sends_all m s s2 ([ChildConfigMap cm] @ workload_children ?b m dep)"
        by (rule sends_all_trans [OF applied(5) applied_all(3) [unfolded same]])
      have rep: "reports s s2 (config_events m h)" by (rule reports_after [OF applied(4) applied_all(2)])
      have stat: "reconcile_status r m1 s2 = (out, s')"
        using run conf applied(2) work applied_all(1) by (simp add: reconcile_merged_def)
      from retry cond stat show ?thesis
      proof (cases rule: reconcile_status_cases)
        case (unread err)
        then show ?thesis
          by (intro that(2) [OF desired _ sends_all_upto [OF sends_all_after [OF all emits_same]]])
      next
        case (read dep' st err ready)
        have sent: "sends_all m s s' ([ChildConfigMap cm] @ workload_children ?b m dep)"
          by (rule sends_all_after [OF all read(4)])
        show ?thesis
        proof (cases err)
          case (Some e)
          with read(6) have "out = Done emptyResult (Some (ErrWrap ''update status'' e))" by simp
          then show ?thesis by (rule that(2) [OF desired _ sends_all_upto [OF sent]])
        next
          case None
          with read(6) have fin: "out = Done (if ready then emptyResult else requeue_seconds 15) None"
              "status_written s' st" by simp_all
          have "observed_deployment r m s2 = Inr dep'" using read(1) by (simp add: meta)
          with all stat read(2)
          have "deployment_seen r m ([ChildConfigMap cm] @ workload_children ?b m dep) s (out, s') ready"
            unfolding deployment_seen_def by blast
          then show ?thesis
            by (rule that(3) [OF desired applied(1) fin(1) sent reports_trans [OF rep read(5) [unfolded was]]
                  fin(2) status_reported_final [OF applied(3) read(3)]])
        qed
      qed
    qed
  qed
qed

section \<open>From the specification on\<close>

text \<open>What an early exit for lack of credentials or libraries does.\<close>

definition early_exit :: "Outcome \<Rightarrow> 'w rstate \<Rightarrow> 'w rstate \<Rightarrow> (EventType \<times> string) list \<Rightarrow> bool" where
  "early_exit out s s' evs \<longleftrightarrow> out = Done (requeue_seconds 30) None \<and> no_apply s s' \<and> reports s s' evs"

definition credential_events :: "PgpilotMonitor \<Rightarrow> (EventType \<times> string) list" where
  "credential_events m =
     (if db_CredentialsSecret (pm_Database m) = None then [] else [(EventTypeWarning, ''SecretNotFound'')])"

lemma validateCredentials_reports:
  assumes retry: "retry_contract (api_RetryOnConflict (r_Client r) DefaultRetry)"
    and run: "validateCredentials r m s = ((res, ok), m', s')"
  shows "reports s s' (if ok then [] else credential_events m)"
proof -
  note reps = reports_same [OF on_world_journal'] setCondition_reports patchStatus_reports [OF retry]
  show ?thesis
    using run
    by (auto simp: validateCredentials_def credential_events_def Let_def
        split: if_splits option.splits prod.splits dest!: reps)
      (auto simp: reports_def)
qed

lemma reconcile_spec_cases:
  assumes retry: "retry_contract (api_RetryOnConflict (r_Client r) DefaultRetry)"
    and run: "reconcile_spec r m s = (out, s')"
  obtains (credentials) m1 where "validateCredentials r m s = ((requeue_seconds 30, False), m1, s')"
      "early_exit out s s' (credential_events m)"
  | (libraries) "early_exit out s s' [(EventTypeWarning, ''LibraryResolveFailed'')]"
  | (resolved) res m1 s1 libs s2 where
      "validateCredentials r m s = ((res, True), m1, s1)" "conditions_only m m1" "buildEnvVars m \<noteq> None"
      "resolveLibraries r m1 s1 = (Inr libs, s2)" "no_apply s s2" "reports s s2 []"
      "reconcile_merged r m1 libs s2 = (out, s')"
proof -
  obtain res ok m1 s1 where val: "validateCredentials r m s = ((res, ok), m1, s1)"
    by (cases "validateCredentials r m s") auto
  note only = validateCredentials_only [OF val]
    and quiet = validateCredentials_no_apply [OF retry val]
    and rep = validateCredentials_reports [OF retry val]
  show ?thesis
  proof (cases ok)
    case False
    then have val0: "validateCredentials r m s = ((res, False), m1, s1)" using val by simp
    note res = validateCredentials_failed [OF val0]
    have "out = Done res None" "s' = s1" using run val False by (auto simp: reconcile_spec_def)
    with res quiet rep val False show ?thesis
      by (intro credentials [of m1]) (auto simp: early_exit_def)
  next
    case True
    obtain lres s2 where lib: "resolveLibraries r m1 s1 = (lres, s2)" by (cases "resolveLibraries r m1 s1")
    have same: "journal s2 = journal s1" by (rule resolveLibraries_journal [OF lib])
    have quiet2: "no_apply s s2" by (rule emits_trans [OF quiet emits_same [OF same]])
    have rep2: "reports s s2 []" using reports_after [OF rep reports_same [OF same]] True by simp
    show ?thesis
    proof (cases lres)
      case (Inl err)
      let ?msg = "''Failed to resolve metric libraries: '' @ err_Error err"
      let ?set = "setCondition r m1 ''Ready'' ConditionFalse ''LibraryResolveFailed'' (err_Error err)"
      obtain m2 s3 where set: "?set s2 = (m2, s3)" by (cases "?set s2")
      let ?s4 = "recordEvent EventTypeWarning ''LibraryResolveFailed'' ?msg s3"
      obtain e s5 where patch: "patchStatus r m2 ?s4 = (e, s5)" by (cases "patchStatus r m2 ?s4")
      have out: "out = Done (requeue_seconds 30) None" "s' = s5"
        using run val True lib Inl set patch by (auto simp: reconcile_spec_def)
      have "reports s s5 [(EventTypeWarning, ''LibraryResolveFailed'')]"
        using reports_trans [OF reports_after [OF rep2 setCondition_reports [OF set]]
            reports_after [OF recordEvent_reports patchStatus_reports [OF retry patch]]] by simp
      moreover have "no_apply s s5"
        by (rule emits_trans [OF emits_trans [OF emits_trans [OF quiet2 setCondition_emits [OF set]]
                recordEvent_no_apply] patchStatus_no_apply [OF retry patch]])
      ultimately show ?thesis using out by (intro libraries) (auto simp: early_exit_def)
    next
      case (Inr libs)
      have "buildEnvVars m \<noteq> None"
        using validateCredentials_ok [of r m s res m1 s1] val True by simp
      moreover have "reconcile_merged r m1 libs s2 = (out, s')"
        using run val True lib Inr by (auto simp: reconcile_spec_def)
      ultimately show ?thesis using val True only lib Inr quiet2 rep2 by (intro resolved) auto
    qed
  qed
qed

section \<open>No panic\<close>

text \<open>
  The two panics of the code, a nil \<open>CredentialsSecret\<close> and the slice of the hash, are out of
  reach, whatever the API server and the libraries answer.
\<close>

lemma reconcile_config_no_panic: "fst (reconcile_config r m merged s) \<noteq> Inl Panic"
  by (auto simp: reconcile_config_def BuildConfigMap_def slice12_hash Let_def
      split: sum.split prod.split option.split)

lemma reconcile_config_spec:
  assumes "reconcile_config r m merged s = (Inr (m', h), s')"
  shows "pm_Meta m' = pm_Meta m" "pm_Spec m' = pm_Spec m"
  using assms
  by (auto simp: reconcile_config_def Let_def setCondition_def
      split: sum.splits prod.splits option.splits if_splits)

lemma reconcile_workloads_panic: "reconcile_workloads r m merged h s = (Some Panic, s') \<Longrightarrow> buildEnvVars m = None"
  by (auto simp: reconcile_workloads_def BuildDeployment_def Let_def
      split: option.splits prod.splits if_splits)

lemma reconcile_status_no_panic: "fst (reconcile_status r m s) \<noteq> Panic"
  by (auto simp: reconcile_status_def Let_def split: sum.split prod.split option.split)

lemma reconcile_merged_no_panic:
  assumes "buildEnvVars m \<noteq> None"
  shows "fst (reconcile_merged r m libs s) \<noteq> Panic"
proof -
  let ?merged = "merged_of m libs"
  obtain res s1 where conf: "reconcile_config r m ?merged s = (res, s1)"
    by (cases "reconcile_config r m ?merged s")
  show ?thesis
  proof (cases res)
    case (Inl out)
    with conf reconcile_config_no_panic [of r m ?merged s] show ?thesis
      by (simp add: reconcile_merged_def)
  next
    case (Inr p)
    obtain m1 h where p: "p = (m1, h)" by (cases p)
    have env: "buildEnvVars m1 \<noteq> None"
      using buildEnvVars_ignore_status [OF reconcile_config_spec] conf Inr p assms by metis
    obtain wres s2 where work: "reconcile_workloads r m1 ?merged h s1 = (wres, s2)"
      by (cases "reconcile_workloads r m1 ?merged h s1")
    have "wres \<noteq> Some Panic" using reconcile_workloads_panic work env by metis
    then show ?thesis using conf Inr p work reconcile_status_no_panic [of r m1 s2]
      by (cases wres) (auto simp: reconcile_merged_def)
  qed
qed

lemma reconcile_spec_no_panic: "fst (reconcile_spec r m s) \<noteq> Panic"
proof -
  obtain res ok m1 s1 where val: "validateCredentials r m s = ((res, ok), m1, s1)"
    by (cases "validateCredentials r m s") auto
  show ?thesis
  proof (cases ok)
    case False
    with val show ?thesis by (simp add: reconcile_spec_def)
  next
    case True
    have only: "conditions_only m m1" by (rule validateCredentials_only [OF val])
    have "buildEnvVars m1 = buildEnvVars m"
      by (rule buildEnvVars_ignore_status [OF conditions_only_meta [OF only] conditions_only_spec [OF only]])
    then have env: "buildEnvVars m1 \<noteq> None"
      using validateCredentials_ok [of r m s res m1 s1] val True by simp
    obtain lres s2 where lib: "resolveLibraries r m1 s1 = (lres, s2)" by (cases "resolveLibraries r m1 s1")
    show ?thesis
      using val True lib reconcile_merged_no_panic [OF env]
      by (cases lres) (auto simp: reconcile_spec_def Let_def split: prod.split)
  qed
qed

lemma reconcile_deletion_no_panic: "fst (reconcile_deletion r m s) \<noteq> Panic"
  by (auto simp: reconcile_deletion_def Let_def split: sum.split prod.split)

lemma Reconcile_no_panic: "fst (Reconcile r req s) \<noteq> Panic"
  by (auto simp: Reconcile_def reconcile_deletion_no_panic reconcile_spec_no_panic
      split: sum.split prod.split)

section \<open>The entry of the loop\<close>

text \<open>The monitor a request reads is live: not being deleted, and with the finalizer.\<close>

definition live_read :: "'w Reconciler \<Rightarrow> NamespacedName \<Rightarrow> 'w rstate \<Rightarrow> PgpilotMonitor \<Rightarrow> bool" where
  "live_read r req s m \<longleftrightarrow>
     fst (api_GetMonitor (r_Client r) req (world s)) = Inr m
     \<and> timestamp_IsZero (om_DeletionTimestamp (pm_Meta m))
     \<and> cl_ContainsFinalizer (r_Lib r) (pm_Meta m) finalizerName"

text \<open>The libraries a reconcile may work with: what resolving the references of \<open>m\<close> can return.\<close>

definition resolved_libs :: "'w Reconciler \<Rightarrow> PgpilotMonitor \<Rightarrow> PgpilotMetricLibrary list \<Rightarrow> bool" where
  "resolved_libs r m libs \<longleftrightarrow> (\<exists>s s'. resolveLibraries r m s = (Inr libs, s'))"

lemma resolveLibraries_ignore_status:
  assumes "pm_Meta m' = pm_Meta m" "pm_Spec m' = pm_Spec m"
  shows "resolveLibraries r m' s = resolveLibraries r m s"
  unfolding resolveLibraries_def assms by (rule refl)

lemma Reconcile_live:
  assumes "live_read r req s m"
  obtains s0 where "journal s0 = journal s" "world s0 = snd (api_GetMonitor (r_Client r) req (world s))"
    "Reconcile r req s = reconcile_spec r m s0"
proof -
  obtain res s0 where get: "on_world (api_GetMonitor (r_Client r) req) s = (res, s0)"
    by (cases "on_world (api_GetMonitor (r_Client r) req) s")
  have "res = Inr m" using get assms by (auto simp: on_world_def live_read_def split: prod.splits)
  with get assms have "Reconcile r req s = reconcile_spec r m s0"
    by (simp add: Reconcile_def ensure_finalizer_def live_read_def)
  moreover have "world s0 = snd (api_GetMonitor (r_Client r) req (world s))"
    using get by (auto simp: on_world_def split: prod.splits)
  ultimately show ?thesis by (intro that [OF on_world_journal' [OF get]])
qed

section \<open>The contract of a controller's environment\<close>

text \<open>
  Everything the reconcile loop relies on from the client and the controller libraries, as one
  interface: a reconciler whose retry, conditions, owner references and finalizers behave as
  documented.
\<close>

locale controller_contract =
  fixes r :: "'w Reconciler"
  assumes retry_ok: "retry_contract (api_RetryOnConflict (r_Client r) DefaultRetry)"
    and owner_ok: "owner_contract (cl_SetControllerReference (r_Lib r))"
    and condition_ok: "condition_contract (cl_SetStatusCondition (r_Lib r))"
    and finalizer_ok: "finalizer_contract (cl_ContainsFinalizer (r_Lib r)) (cl_AddFinalizer (r_Lib r))
      (cl_RemoveFinalizer (r_Lib r))"

sublocale controller_contract \<subseteq> finalizer: finalizer_contract "cl_ContainsFinalizer (r_Lib r)"
    "cl_AddFinalizer (r_Lib r)" "cl_RemoveFinalizer (r_Lib r)"
  by (rule finalizer_ok)

sublocale controller_contract \<subseteq> owner: owner_contract "cl_SetControllerReference (r_Lib r)"
  by (rule owner_ok)

context controller_contract begin

text \<open>One reconcile of a live monitor.\<close>

lemma live_cases:
  assumes live: "live_read r req s m" and run: "Reconcile r req s = (out, s')"
  obtains (credentials) "early_exit out s s' (credential_events m)"
  | (libraries) "early_exit out s s' [(EventTypeWarning, ''LibraryResolveFailed'')]"
  | (unbuilt) err libs where "resolved_libs r m libs"
      "BuildConfigMap (r_Yaml r) m (merged_of m libs) = Inl err"
      "out = Done emptyResult (Some (ErrWrap ''build configmap'' err))" "no_apply s s'"
  | (failed) cs err libs where "resolved_libs r m libs"
      "desired_children (r_ServiceMonitorEnabled r) (r_Yaml r) m libs = Some cs"
      "out = Done emptyResult (Some err)" "sends_upto m s s' cs"
  | (reported) cs cm h ready st libs where "resolved_libs r m libs"
      "desired_children (r_ServiceMonitorEnabled r) (r_Yaml r) m libs = Some cs"
      "BuildConfigMap (r_Yaml r) m (merged_of m libs) = Inr (cm, h)"
      "out = Done (if ready then emptyResult else requeue_seconds 15) None"
      "sends_all m s s' cs"
      "reports s s' (config_events m h @ transition_events (st_Ready (pm_Status m)) ready)"
      "status_written s' st" "status_final m h ready st" "deployment_seen r m cs s (out, s') ready"
proof -
  obtain s0 where same: "journal s0 = journal s" and rec: "Reconcile r req s = reconcile_spec r m s0"
    using live by (rule Reconcile_live)
  have spec: "reconcile_spec r m s0 = (out, s')" using rec run by simp
  have shift: "early_exit out s0 s' evs \<Longrightarrow> early_exit out s s' evs" for evs
    by (simp add: early_exit_def emits_def reports_def same)
  from retry_ok spec show ?thesis
  proof (cases rule: reconcile_spec_cases)
    case (credentials m1)
    then show ?thesis by (intro that(1) shift)
  next
    case libraries
    then show ?thesis by (intro that(2) shift)
  next
    case (resolved res m1 s1 libs s2)
    note meta = conditions_only_meta [OF resolved(2)] and spec = conditions_only_spec [OF resolved(2)]
    have env: "buildEnvVars m1 \<noteq> None"
      using resolved(3) buildEnvVars_ignore_status [OF meta spec] by simp
    have libs: "resolved_libs r m libs"
      using resolved(4) unfolding resolveLibraries_ignore_status [OF meta spec] resolved_libs_def by blast
    have quiet: "no_apply s s2" and rep: "reports s s2 []"
      using resolved(5,6) by (simp_all add: emits_def reports_def same)
    have desired: "desired_children b y m1 libs = desired_children b y m libs" for b y
      by (rule desired_children_ignore_status [OF meta spec])
    have config: "BuildConfigMap y m1 (merged_of m1 libs) = BuildConfigMap y m (merged_of m libs)" for y
      by (simp only: BuildConfigMap_ignore_status [OF meta spec] spec)
    from retry_ok owner_ok condition_ok env resolved(7) show ?thesis
    proof (cases rule: reconcile_merged_cases)
      case (unbuilt err)
      then show ?thesis by (intro that(3) [of libs err]) (simp_all only: config quiet libs)
    next
      case (failed cs err)
      then show ?thesis using sends_upto_before [OF _ quiet]
        by (intro that(4) [of libs cs err]) (simp_all only: libs desired sends_ignore_status [OF meta])
    next
      case (reported cs cm h ready st)
      have "sends_all m s s' cs"
        using sends_all_before [OF reported(4) quiet] by (simp only: sends_ignore_status [OF meta])
      moreover have "reports s s' (config_events m h @ transition_events (st_Ready (pm_Status m)) ready)"
        using reports_before [OF reported(5) rep] conditions_only_status(1,2) [OF resolved(2)]
        by (simp add: config_events_def)
      moreover have "status_final m h ready st"
        using reported(7) unfolding status_final_def ready_content_def meta .
      moreover have "deployment_seen r m cs s (out, s') ready"
        by (rule deployment_seen_before [OF reported(8) quiet meta])
      ultimately show ?thesis
        using reported(1,2,3,6) by (intro that(5) [of libs cs cm h ready st]) (simp_all only: libs desired config)
    qed
  qed
qed

text \<open>The deletion of a monitor.\<close>

lemma deletion_cases:
  assumes read: "fst (api_GetMonitor (r_Client r) req (world s)) = Inr m"
    and deleted: "\<not> timestamp_IsZero (om_DeletionTimestamp (pm_Meta m))"
    and run: "Reconcile r req s = (out, s')"
  obtains (released) "finalizerName \<notin> set (om_Finalizers (pm_Meta m))"
      "journal s' = journal s" "out = Done emptyResult None"
  | (held) m' err where "finalizerName \<in> set (om_Finalizers (pm_Meta m))"
      "journal s' = journal s @ [EffUpdate m']" "out = Done emptyResult err"
      "set (om_Finalizers (pm_Meta m')) = set (om_Finalizers (pm_Meta m)) - {finalizerName}"
      "(pm_Meta m')\<lparr>om_Finalizers := []\<rparr> = (pm_Meta m)\<lparr>om_Finalizers := []\<rparr>"
      "pm_Spec m' = pm_Spec m" "pm_Status m' = pm_Status m"
proof -
  obtain s0 where get: "on_world (api_GetMonitor (r_Client r) req) s = (Inr m, s0)"
    and same: "journal s0 = journal s"
    using read by (rule on_worldE)
  have del: "reconcile_deletion r m s0 = (out, s')"
    using run get deleted by (simp add: Reconcile_def)
  show ?thesis
  proof (cases "finalizerName \<in> set (om_Finalizers (pm_Meta m))")
    case False
    with del same show ?thesis
      by (intro released) (auto simp: reconcile_deletion_def finalizer.contains_iff)
  next
    case True
    let ?m = "set_meta m (cl_RemoveFinalizer (r_Lib r) (pm_Meta m) finalizerName)"
    obtain res s1 where upd: "update_monitor r ?m s0 = (res, s1)" by (cases "update_monitor r ?m s0")
    have "journal s1 = journal s @ [EffUpdate ?m]"
      using on_world_journal' [OF upd [unfolded update_monitor_def]] same by simp
    moreover obtain err where "out = Done emptyResult err" "s' = s1"
      using del upd True by (cases res) (auto simp: reconcile_deletion_def finalizer.contains_iff)
    ultimately show ?thesis
      using True finalizer.remove_set finalizer.remove_frame
      by (intro held [of ?m err]) (auto simp: set_meta_def)
  qed
qed

end

lemmas live_reconcile_cases [consumes 3, case_names credentials libraries unbuilt failed reported] =
  controller_contract.live_cases

lemmas deleted_reconcile_cases [consumes 4, case_names released held] = controller_contract.deletion_cases

section \<open>Particular early exits\<close>

lemma reconcile_spec_missing_secret:
  assumes retry: "retry_contract (api_RetryOnConflict (r_Client r) DefaultRetry)"
    and inline: "db_Username (pm_Database m) = [] \<or> db_Password (pm_Database m) = []"
    and ref: "db_CredentialsSecret (pm_Database m) = Some ref"
    and missing: "fst (api_GetSecret (r_Client r)
        \<lparr>nn_Namespace = pm_Namespace m, nn_Name = cs_Name ref\<rparr> (world s)) = Some err"
    and run: "reconcile_spec r m s = (out, s')"
  shows "early_exit out s s' [(EventTypeWarning, ''SecretNotFound'')]"
proof -
  obtain s1 where get: "on_world (api_GetSecret (r_Client r)
      \<lparr>nn_Namespace = pm_Namespace m, nn_Name = cs_Name ref\<rparr>) s = (Some err, s1)"
    using missing by (rule on_worldE)
  have cond: "\<not> (db_Username (pm_Database m) \<noteq> [] \<and> db_Password (pm_Database m) \<noteq> [])"
    using inline by blast
  have "snd (fst (validateCredentials r m s)) = False"
    unfolding validateCredentials_def Let_def if_not_P [OF cond] ref option.case get prod.case
    by (simp split: prod.split)
  then obtain res m1 s1 where val: "validateCredentials r m s = ((res, False), m1, s1)"
    by (metis prod.collapse)
  then have "out = Done res None" "s' = s1" using run by (simp_all add: reconcile_spec_def)
  with validateCredentials_failed [OF val] validateCredentials_no_apply [OF retry val]
    validateCredentials_reports [OF retry val]
  show ?thesis by (simp add: early_exit_def credential_events_def ref)
qed

text \<open>A monitor without the finalizer is updated before anything else happens.\<close>

lemma Reconcile_adds_finalizer:
  assumes contract: "finalizer_contract (cl_ContainsFinalizer (r_Lib r)) (cl_AddFinalizer (r_Lib r))
      (cl_RemoveFinalizer (r_Lib r))"
    and read: "fst (api_GetMonitor (r_Client r) req (world s)) = Inr m"
    and alive: "timestamp_IsZero (om_DeletionTimestamp (pm_Meta m))"
    and fresh: "finalizerName \<notin> set (om_Finalizers (pm_Meta m))"
  obtains m' s1 answer where "set (om_Finalizers (pm_Meta m')) = insert finalizerName (set (om_Finalizers (pm_Meta m)))"
      "(pm_Meta m')\<lparr>om_Finalizers := []\<rparr> = (pm_Meta m)\<lparr>om_Finalizers := []\<rparr>" "pm_Spec m' = pm_Spec m"
      "journal s1 = journal s @ [EffUpdate m']"
      "api_UpdateMonitor (r_Client r) m' (snd (api_GetMonitor (r_Client r) req (world s))) = (answer, world s1)"
      "Reconcile r req s = (case answer of
         Inl err \<Rightarrow> (Done emptyResult (Some err), s1) | Inr stored \<Rightarrow> reconcile_spec r stored s1)"
proof -
  let ?m = "set_meta m (cl_AddFinalizer (r_Lib r) (pm_Meta m) finalizerName)"
  define s0 where "s0 = s\<lparr>world := snd (api_GetMonitor (r_Client r) req (world s))\<rparr>"
  have get: "on_world (api_GetMonitor (r_Client r) req) s = (Inr m, s0)"
    using read by (simp add: on_world_def s0_def case_prod_beta)
  obtain res s1 where upd: "update_monitor r ?m s0 = (res, s1)" by (cases "update_monitor r ?m s0")
  have "\<not> cl_ContainsFinalizer (r_Lib r) (pm_Meta m) finalizerName"
    using fresh finalizer_contract.contains_iff [OF contract] by simp
  then have run: "Reconcile r req s = (case (res, s1) of
      (Inl err, s) \<Rightarrow> (Done emptyResult (Some err), s)
    | (Inr monitor, s) \<Rightarrow> reconcile_spec r monitor s)"
    using get alive upd by (simp add: Reconcile_def ensure_finalizer_def)
  show ?thesis
  proof (rule that)
    show "journal s1 = journal s @ [EffUpdate ?m]"
      using on_world_journal' [OF upd [unfolded update_monitor_def]] by (simp add: s0_def)
    show "set (om_Finalizers (pm_Meta ?m)) = insert finalizerName (set (om_Finalizers (pm_Meta m)))"
      using finalizer_contract.add_set [OF contract] by (simp add: set_meta_def)
    show "(pm_Meta ?m)\<lparr>om_Finalizers := []\<rparr> = (pm_Meta m)\<lparr>om_Finalizers := []\<rparr>"
      using finalizer_contract.add_frame [OF contract] by (simp add: set_meta_def)
    show "pm_Spec ?m = pm_Spec m" by (simp add: set_meta_def)
    show "api_UpdateMonitor (r_Client r) ?m (snd (api_GetMonitor (r_Client r) req (world s))) = (res, world s1)"
      using upd by (auto simp: update_monitor_def on_world_def s0_def split: prod.splits)
    show "Reconcile r req s = (case res of
        Inl err \<Rightarrow> (Done emptyResult (Some err), s1) | Inr stored \<Rightarrow> reconcile_spec r stored s1)"
      using run by (cases res) auto
  qed
qed

text \<open>What a failed validation leaves in the status: the condition says no, the flag is the old one.\<close>

lemma validateCredentials_stale:
  assumes cond: "condition_contract (cl_SetStatusCondition (r_Lib r))"
    and run: "validateCredentials r m s = ((res, False), m', s')"
  shows "map_option cd_Status (find_condition (st_Conditions (pm_Status m')) ''Ready'') = Some ConditionFalse"
    "st_Ready (pm_Status m') = st_Ready (pm_Status m)"
proof -
  show "st_Ready (pm_Status m') = st_Ready (pm_Status m)"
    by (rule conditions_only_status(1) [OF validateCredentials_only [OF run]])
  note set = setCondition_conditions(1) [OF cond] setCondition_conditions(2) [OF cond]
  have status: "map_option condition_content c = Some (st, x) \<Longrightarrow> map_option cd_Status c = Some st" for c st x
    by (auto simp: condition_content_def)
  show "map_option cd_Status (find_condition (st_Conditions (pm_Status m')) ''Ready'') = Some ConditionFalse"
  proof (cases "db_CredentialsSecret (pm_Database m)")
    case None
    with run obtain s0 s1 re msg where "setCondition r m ''Ready'' ConditionFalse re msg s0 = (m', s1)"
      by (auto simp: validateCredentials_def Let_def split: if_splits prod.splits)
    then show ?thesis by (rule status [OF set(1)])
  next
    case (Some ref)
    with run obtain s0 s1 s2 m1 re msg re' msg' where
      first: "setCondition r m ''Ready'' ConditionFalse re msg s0 = (m1, s1)"
      and second: "setCondition r m1 ''DatabaseReachable'' ConditionFalse re' msg' s1 = (m', s2)"
      by (auto simp: validateCredentials_def Let_def split: if_splits prod.splits option.splits)
    have "find_condition (st_Conditions (pm_Status m')) ''Ready'' =
        find_condition (st_Conditions (pm_Status m1)) ''Ready''"
      by (rule set(2) [OF second]) simp
    with status [OF set(1) [OF first]] show ?thesis by simp
  qed
qed

end
