(* ===== verification/Watches.thy ===== *)
theory Watches
  imports ReconcileFacts
begin

text \<open>
  What starts a reconcile of a monitor: the wiring of \<open>SetupWithManager\<close>, and
  \<open>libraryToMonitors\<close>, which maps a changed library to the monitors that reference it. Also what
  \<open>resolveLibraries\<close> returns when the libraries stay put during the call.
\<close>

section \<open>SetupWithManager\<close>

record ControllerSetup =
  ct_Name :: string
  ct_For :: string
  ct_Owns :: "ChildKind list"
  ct_Watches :: "string list"

definition SetupWithManager :: "'w Reconciler \<Rightarrow> ControllerSetup" where
  "SetupWithManager r =
     (let b = \<lparr>ct_Name = [], ct_For = ''PgpilotMonitor'', ct_Owns = [], ct_Watches = []\<rparr>;
          b = b\<lparr>ct_Owns := ct_Owns b @ [KConfigMap]\<rparr>;
          b = b\<lparr>ct_Owns := ct_Owns b @ [KDeployment]\<rparr>;
          b = b\<lparr>ct_Owns := ct_Owns b @ [KService]\<rparr>;
          b = (if r_ServiceMonitorEnabled r then b\<lparr>ct_Owns := ct_Owns b @ [KServiceMonitor]\<rparr> else b);
          b = b\<lparr>ct_Watches := ct_Watches b @ [''PgpilotMetricLibrary'']\<rparr>
      in b\<lparr>ct_Name := ''pgpilotmonitor''\<rparr>)"

lemma SetupWithManager_Owns:
  "ct_Owns (SetupWithManager r) =
     [KConfigMap, KDeployment, KService] @ (if r_ServiceMonitorEnabled r then [KServiceMonitor] else [])"
  by (simp add: SetupWithManager_def Let_def)

section \<open>libraryToMonitors\<close>

datatype WatchedObject = WatchedLibrary PgpilotMetricLibrary | WatchedOther

fun references :: "LibraryRef list \<Rightarrow> string \<Rightarrow> bool" where
  "references [] name = False"
| "references (ref # refs) name = (if lr_Name ref = name then True else references refs name)"

fun requests_loop ::
  "PgpilotMonitor list \<Rightarrow> string \<Rightarrow> NamespacedName list \<Rightarrow> NamespacedName list" where
  "requests_loop [] name requests = requests"
| "requests_loop (m # ms) name requests =
     requests_loop ms name
       (if references (ms_FromLibraries (sp_Metrics (pm_Spec m))) name
        then requests @ [\<lparr>nn_Namespace = pm_Namespace m, nn_Name = pm_Name m\<rparr>]
        else requests)"

definition libraryToMonitors ::
  "'w Reconciler \<Rightarrow> WatchedObject \<Rightarrow> 'w rstate \<Rightarrow> NamespacedName list \<times> 'w rstate" where
  "libraryToMonitors r obj s =
     (case obj of
        WatchedOther \<Rightarrow> ([], s)
      | WatchedLibrary lib \<Rightarrow>
          (case on_world (api_ListMonitors (r_Client r) (om_Namespace (lib_Meta lib))) s of
             (Inl _, s) \<Rightarrow> ([], s)
           | (Inr monitors, s) \<Rightarrow> (requests_loop monitors (om_Name (lib_Meta lib)) [], s)))"

lemma references_iff: "references refs name \<longleftrightarrow> name \<in> lr_Name ` set refs"
  by (induction refs) auto

lemma requests_loop_filter:
  "requests_loop ms name requests = requests @ map monitor_key
     (filter (\<lambda>m. name \<in> lr_Name ` set (ms_FromLibraries (sp_Metrics (pm_Spec m)))) ms)"
  by (induction ms name requests rule: requests_loop.induct)
    (simp_all add: references_iff monitor_key_def)

lemma libraryToMonitors_filter:
  assumes "fst (api_ListMonitors (r_Client r) (om_Namespace (lib_Meta lib)) (world s)) = Inr monitors"
  shows "fst (libraryToMonitors r (WatchedLibrary lib) s) = map monitor_key
    (filter (\<lambda>m. om_Name (lib_Meta lib) \<in> lr_Name ` set (ms_FromLibraries (sp_Metrics (pm_Spec m)))) monitors)"
  using assms
  by (auto simp: libraryToMonitors_def requests_loop_filter on_world_def split: prod.split)

section \<open>resolveLibraries over a snapshot\<close>

text \<open>The library a reference names, in the monitor's namespace.\<close>

abbreviation library_key :: "string \<Rightarrow> LibraryRef \<Rightarrow> NamespacedName" where
  "library_key ns ref \<equiv> \<lparr>nn_Namespace = ns, nn_Name = lr_Name ref\<rparr>"

text \<open>While a reconcile runs, every read of a library gives \<open>f\<close>.\<close>

definition library_snapshot :: "'w Reconciler \<Rightarrow> (NamespacedName \<Rightarrow> goerror + PgpilotMetricLibrary) \<Rightarrow> bool" where
  "library_snapshot r f \<longleftrightarrow> (\<forall>key w. fst (api_GetLibrary (r_Client r) key w) = f key)"

definition missing_library ::
  "(NamespacedName \<Rightarrow> goerror + PgpilotMetricLibrary) \<Rightarrow> string \<Rightarrow> LibraryRef list \<Rightarrow> LibraryRef option" where
  "missing_library f ns refs = find (\<lambda>ref. isl (f (library_key ns ref))) refs"

lemma resolve_loop_snapshot:
  assumes "library_snapshot r f"
  shows "fst (resolve_loop r ns refs libs s) =
    (case missing_library f ns refs of
       None \<Rightarrow> Inr (libs @ map (\<lambda>ref. projr (f (library_key ns ref))) refs)
     | Some ref \<Rightarrow> Inl (ErrWrap (''library '' @ go_quote (lr_Name ref)) (projl (f (library_key ns ref)))))"
  using assms
proof (induction r ns refs libs s rule: resolve_loop.induct)
  case (1 r ns libs s)
  then show ?case by (simp add: missing_library_def)
next
  case (2 r ns ref refs libs s)
  obtain res s1 where get: "on_world (api_GetLibrary (r_Client r) (library_key ns ref)) s = (res, s1)"
    by (cases "on_world (api_GetLibrary (r_Client r) (library_key ns ref)) s")
  have res: "f (library_key ns ref) = res"
    using get 2(2) unfolding library_snapshot_def by (metis fst_conv fst_on_world)
  show ?case
  proof (cases res)
    case (Inl err)
    with get res show ?thesis by (simp add: missing_library_def split: option.split)
  next
    case (Inr lib)
    with 2(1) [OF get [symmetric] Inr 2(2)] get res show ?thesis by (simp add: missing_library_def split: option.split)
  qed
qed

lemma resolveLibraries_snapshot:
  assumes "library_snapshot r f"
  shows "fst (resolveLibraries r m s) =
    (let refs = ms_FromLibraries (sp_Metrics (pm_Spec m)); ns = pm_Namespace m
     in case missing_library f ns refs of
          None \<Rightarrow> Inr (map (\<lambda>ref. projr (f (library_key ns ref))) refs)
        | Some ref \<Rightarrow> Inl (ErrWrap (''library '' @ go_quote (lr_Name ref)) (projl (f (library_key ns ref)))))"
  by (simp add: resolveLibraries_def Let_def resolve_loop_snapshot [OF assms])
    (simp add: missing_library_def split: option.split)

end
