(* ===== verification/LibraryController.thy ===== *)
theory LibraryController
  imports Watches
begin

text \<open>
  \<open>internal/controller/pgpilotmetriclibrary_controller.go\<close>: the reconcile of a metric library,
  which only reports whether the library has metrics.
\<close>

record 'w LibraryReconciler =
  lrc_Client :: "'w kube_api"
  lrc_Lib :: controller_lib

text \<open>\<open>client.IgnoreNotFound\<close>.\<close>

definition IgnoreNotFound :: "goerror \<Rightarrow> goerror option" where
  "IgnoreNotFound err = (if IsNotFound err then None else Some err)"

definition valid_condition :: "PgpilotMetricLibrary \<Rightarrow> Condition" where
  "valid_condition lib =
     (let valid = (0 < length (ls_Metrics (lib_Spec lib)));
          status = ConditionTrue;
          reason = ''Valid'';
          message = ''Library contains metric definitions'';
          (status, reason, message) =
            (if \<not> valid then (ConditionFalse, ''Empty'', ''Library has no metric definitions'')
             else (status, reason, message))
      in \<lparr>cd_Type = ''Valid'',
          cd_Status = status,
          cd_ObservedGeneration = om_Generation (lib_Meta lib),
          cd_LastTransitionTime = 0,
          cd_Reason = reason,
          cd_Message = message\<rparr>)"

definition LibraryReconcile ::
  "'w LibraryReconciler \<Rightarrow> NamespacedName \<Rightarrow> 'w rstate \<Rightarrow> (Result \<times> goerror option) \<times> 'w rstate" where
  "LibraryReconcile r req s =
     (case on_world (api_GetLibrary (lrc_Client r) req) s of
        (Inl err, s) \<Rightarrow> ((emptyResult, IgnoreNotFound err), s)
      | (Inr lib, s) \<Rightarrow>
          (let (now, s) = on_world (api_Now (lrc_Client r)) s;
               conds = cl_SetStatusCondition (lrc_Lib r) now (lst_Conditions (lib_Status lib)) (valid_condition lib);
               lib = lib\<lparr>lib_Status := (lib_Status lib)\<lparr>lst_Conditions := conds\<rparr>\<rparr>;
               lib = lib\<lparr>lib_Status := (lib_Status lib)
                 \<lparr>lst_ObservedGeneration := om_Generation (lib_Meta lib)\<rparr>\<rparr>
           in case on_world (api_UpdateLibraryStatus (lrc_Client r) lib) (emit (EffLibraryStatus lib) s) of
                (Some err, s) \<Rightarrow> ((emptyResult, Some err), s)
              | (None, s) \<Rightarrow> ((emptyResult, None), s)))"

lemma valid_condition_content:
  "cd_Type (valid_condition lib) = ''Valid''"
  "cd_Status (valid_condition lib) = (if ls_Metrics (lib_Spec lib) = [] then ConditionFalse else ConditionTrue)"
  "cd_ObservedGeneration (valid_condition lib) = om_Generation (lib_Meta lib)"
  by (simp_all add: valid_condition_def Let_def)

text \<open>The status a library is reported with.\<close>

definition library_reported :: "PgpilotMetricLibrary \<Rightarrow> PgpilotMetricLibrary \<Rightarrow> bool" where
  "library_reported lib lib' \<longleftrightarrow>
     lib_Meta lib' = lib_Meta lib \<and> lib_Spec lib' = lib_Spec lib
     \<and> lst_ObservedGeneration (lib_Status lib') = om_Generation (lib_Meta lib)
     \<and> map_option condition_content (find_condition (lst_Conditions (lib_Status lib')) ''Valid'') =
         Some (condition_content (valid_condition lib))
     \<and> (\<forall>ty. ty \<noteq> ''Valid'' \<longrightarrow> find_condition (lst_Conditions (lib_Status lib')) ty =
           find_condition (lst_Conditions (lib_Status lib)) ty)"

lemma LibraryReconcile_unread:
  assumes "fst (api_GetLibrary (lrc_Client r) req (world s)) = Inl err"
  shows "fst (LibraryReconcile r req s) = (emptyResult, IgnoreNotFound err)"
    "journal (snd (LibraryReconcile r req s)) = journal s"
  using assms
  by (auto simp: LibraryReconcile_def on_world_def split: prod.splits)

lemma LibraryReconcile_read:
  assumes cond: "condition_contract (cl_SetStatusCondition (lrc_Lib r))"
    and "fst (api_GetLibrary (lrc_Client r) req (world s)) = Inr lib"
  obtains lib' where "journal (snd (LibraryReconcile r req s)) = journal s @ [EffLibraryStatus lib']"
    "library_reported lib lib'" "fst (fst (LibraryReconcile r req s)) = emptyResult"
proof -
  note set = condition_contract.set_same [OF cond, where c = "valid_condition lib", unfolded valid_condition_content(1)]
    condition_contract.set_other [OF cond, where c = "valid_condition lib", unfolded valid_condition_content(1)]
  obtain s1 where get: "on_world (api_GetLibrary (lrc_Client r) req) s = (Inr lib, s1)"
    using assms(2) by (rule on_worldE)
  obtain now s2 where now: "on_world (api_Now (lrc_Client r)) s1 = (now, s2)"
    by (cases "on_world (api_Now (lrc_Client r)) s1")
  define lib' where "lib' = lib\<lparr>lib_Status := (lib_Status lib)
      \<lparr>lst_Conditions := cl_SetStatusCondition (lrc_Lib r) now (lst_Conditions (lib_Status lib)) (valid_condition lib),
       lst_ObservedGeneration := om_Generation (lib_Meta lib)\<rparr>\<rparr>"
  obtain e s3 where upd: "on_world (api_UpdateLibraryStatus (lrc_Client r) lib') (emit (EffLibraryStatus lib') s2) = (e, s3)"
    by (cases "on_world (api_UpdateLibraryStatus (lrc_Client r) lib') (emit (EffLibraryStatus lib') s2)")
  have run: "LibraryReconcile r req s = ((emptyResult, e), s3)"
    using get now upd by (cases e) (simp_all add: LibraryReconcile_def lib'_def Let_def)
  show ?thesis
  proof (rule that)
    show "journal (snd (LibraryReconcile r req s)) = journal s @ [EffLibraryStatus lib']"
      using on_world_journal' [OF get] on_world_journal' [OF now] on_world_journal' [OF upd] by (simp add: run)
    show "library_reported lib lib'" using set by (simp add: library_reported_def lib'_def)
    show "fst (fst (LibraryReconcile r req s)) = emptyResult" by (simp add: run)
  qed
qed

section \<open>Relations between worlds\<close>

text \<open>A relation that contains the three requests of the library controller contains its reconcile.\<close>

locale library_requests =
  fixes l :: "'w LibraryReconciler"
    and W :: "'w \<Rightarrow> 'w \<Rightarrow> bool"
  assumes L_trans: "W w w' \<Longrightarrow> W w' w'' \<Longrightarrow> W w w''"
    and L_GetLibrary: "W w (snd (api_GetLibrary (lrc_Client l) k w))"
    and L_Now: "W w (snd (api_Now (lrc_Client l) w))"
    and L_status: "W w (snd (api_UpdateLibraryStatus (lrc_Client l) lib w))"
begin

lemma LibraryReconcile_W: "W (world s) (world (snd (LibraryReconcile l req s)))"
proof -
  have on: "W (world s') (world (snd (on_world f s')))" if "\<And>w. W w (snd (f w))" for f s'
    using that by (simp add: on_world_def case_prod_beta)
  obtain res s1 where get: "on_world (api_GetLibrary (lrc_Client l) req) s = (res, s1)" by (meson surj_pair)
  have r1: "W (world s) (world s1)"
    using on [of "api_GetLibrary (lrc_Client l) req" s, OF L_GetLibrary] by (simp add: get)
  show ?thesis
  proof (cases res)
    case (Inl err)
    with get r1 show ?thesis by (simp add: LibraryReconcile_def)
  next
    case (Inr lib)
    obtain now s2 where now: "on_world (api_Now (lrc_Client l)) s1 = (now, s2)" by (meson surj_pair)
    have r2: "W (world s1) (world s2)"
      using on [of "api_Now (lrc_Client l)" s1, OF L_Now] by (simp add: now)
    have "W (world s2) (world (snd (on_world (api_UpdateLibraryStatus (lrc_Client l) x) (emit e s2))))" for x e
      using on [of "api_UpdateLibraryStatus (lrc_Client l) x" "emit e s2", OF L_status] by simp
    then have "W (world s) (world (snd (on_world (api_UpdateLibraryStatus (lrc_Client l) x) (emit e s2))))" for x e
      using L_trans [OF L_trans [OF r1 r2]] by blast
    then show ?thesis
      by (simp add: LibraryReconcile_def get Inr now Let_def case_prod_beta split: option.split)
  qed
qed

end

end
