(* ===== verification/YamlCanon.thy ===== *)
theory YamlCanon
  imports ConfigMap
begin

text \<open>
  An instance of the YAML parameter: a writer of YAML flow style (JSON text, which every YAML
  reader accepts) that sorts map keys and quotes strings, over a registry with one metric and one
  preset. It shows that the contract the hash relies on can be met, and runs the builders in the
  witnesses. The program itself uses the two YAML libraries, which are not in the repository.
\<close>

section \<open>Writing\<close>

definition canon_keys :: "('k::linorder, 'v) gomap \<Rightarrow> 'k list" where
  "canon_keys m = sort (remdups (gm_keys m))"

definition canon_map :: "('k::linorder \<Rightarrow> string) \<Rightarrow> ('v \<Rightarrow> string) \<Rightarrow> ('k, 'v) gomap \<Rightarrow> string" where
  "canon_map fk fv m =
     ''{'' @ concat (map (\<lambda>k. fk k @ '':'' @ fv (the (gm_get m k)) @ '','') (canon_keys m)) @ ''}''"

definition canon_bool :: "bool \<Rightarrow> string" where
  "canon_bool b = (if b then ''true'' else ''false'')"

definition canon_list :: "('a \<Rightarrow> string) \<Rightarrow> 'a list \<Rightarrow> string" where
  "canon_list f xs = ''['' @ concat (map (\<lambda>x. f x @ '','') xs) @ '']''"

definition canon_source :: "pgwatchSource \<Rightarrow> string" where
  "canon_source src =
     ''{name:'' @ go_quote (src_Name src)
       @ '',conn_str:'' @ go_quote (src_ConnStr src)
       @ '',kind:'' @ go_quote (src_Kind src)
       @ '',preset_metrics:'' @ go_quote (src_PresetMetrics src)
       @ '',custom_metrics:'' @ canon_map go_quote itoa (src_CustomMetrics src)
       @ '',is_enabled:'' @ canon_bool (src_IsEnabled src)
       @ '',custom_tags:'' @ canon_map go_quote go_quote (src_CustomTags src) @ ''}''"

definition canon_metric :: "pgwatchMetric \<Rightarrow> string" where
  "canon_metric p =
     ''{init_sql:'' @ go_quote (pw_InitSQL p)
       @ '',sqls:'' @ canon_map itoa go_quote (pw_SQLs p)
       @ '',gauges:'' @ canon_list go_quote (pw_Gauges p)
       @ '',is_instance_level:'' @ canon_bool (pw_IsInstanceLevel p)
       @ '',node_status:'' @ go_quote (pw_NodeStatus p)
       @ '',storage_name:'' @ go_quote (pw_StorageName p)
       @ '',description:'' @ go_quote (pw_Description p) @ ''}''"

definition canon_preset :: "pgwatchPreset \<Rightarrow> string" where
  "canon_preset p =
     ''{description:'' @ go_quote (pp_Description p)
       @ '',metrics:'' @ canon_map go_quote itoa (pp_Metrics p) @ ''}''"

definition canon_file :: "pgwatchMetricsFile \<Rightarrow> string" where
  "canon_file f =
     ''{metrics:'' @ canon_map go_quote canon_metric (pf_Metrics f)
       @ '',presets:'' @ canon_map go_quote canon_preset (pf_Presets f) @ ''}''"

section \<open>Order and NUL\<close>

lemma canon_keys_eq:
  assumes "gm_rel R m m'"
  shows "canon_keys m = canon_keys m'"
proof -
  have "k \<in> set (gm_keys m) \<longleftrightarrow> k \<in> set (gm_keys m')" for k
  proof -
    have "gm_get m k = None \<longleftrightarrow> gm_get m' k = None"
      using assms [unfolded gm_rel_iff, rule_format, of k] by (auto elim: option.rel_cases)
    then show ?thesis by (simp add: map_of_eq_None_iff)
  qed
  then have "set (gm_keys m) = set (gm_keys m')" by blast
  then show ?thesis unfolding canon_keys_def
    by (intro sorted_distinct_set_unique) simp_all
qed

lemma canon_map_rel:
  assumes rel: "gm_rel R m m'" and f: "\<And>v v'. R v v' \<Longrightarrow> fv v = fv v'"
  shows "canon_map fk fv m = canon_map fk fv m'"
proof -
  have "fv (the (gm_get m k)) = fv (the (gm_get m' k))" if "k \<in> set (canon_keys m)" for k
  proof -
    have "gm_get m k \<noteq> None" using that by (simp add: canon_keys_def map_of_eq_None_iff)
    then show ?thesis
      using rel [unfolded gm_rel_iff, rule_format, of k] f by (auto elim: option.rel_cases)
  qed
  then show ?thesis
    unfolding canon_map_def canon_keys_eq [OF rel, symmetric]
    by (intro arg_cong [of _ _ "\<lambda>xs. ''{'' @ concat xs @ ''}''"] map_cong refl) (simp only:)
qed

lemma nul_free_append [simp]: "nul_free (a @ b) \<longleftrightarrow> nul_free a \<and> nul_free b"
  and nul_free_Cons [simp]: "nul_free (c # s) \<longleftrightarrow> c \<noteq> CHR 0x00 \<and> nul_free s"
  and nul_free_Nil [simp]: "nul_free []"
  by (auto simp: nul_free_def)

lemma nul_free_concat: "(\<And>x. x \<in> set xs \<Longrightarrow> nul_free (f x)) \<Longrightarrow> nul_free (concat (map f xs))"
  by (induction xs) auto

lemma nul_free_itoa [simp]: "nul_free (itoa i)"
  using itoa_chars [of "CHR 0x00" i] by (auto simp: nul_free_def digit_val_def)

lemma nul_free_hex_byte: "b < 128 \<Longrightarrow> nul_free (hex_byte b)"
proof -
  have digit: "hex_digit d \<noteq> CHR 0x00" if "d < 16" for d
  proof -
    have "list_all (\<lambda>d. hex_digit d \<noteq> CHR 0x00) [0..<16]" by code_simp
    with that show ?thesis by (simp add: list_all_iff)
  qed
  assume "b < 128"
  then show ?thesis by (simp add: hex_byte_def digit)
qed

lemma nul_free_quote_char: "nul_free (quote_char c)"
proof -
  have "(of_char c :: nat) < 256" by simp
  moreover have "c = CHR 0x00 \<longleftrightarrow> (of_char c :: nat) = 0" 
    using of_char_eq_iff [where 'a = nat, of c "CHR 0x00"] by simp
  ultimately show ?thesis
    by (auto simp: quote_char_def Let_def nul_free_hex_byte)
qed

lemma nul_free_quote [simp]: "nul_free (go_quote s)"
  by (simp add: go_quote_def nul_free_concat nul_free_quote_char)

lemma nul_free_canon_map:
  "(\<And>k. nul_free (fk k)) \<Longrightarrow> (\<And>v. nul_free (fv v)) \<Longrightarrow> nul_free (canon_map fk fv m)"
  by (simp add: canon_map_def nul_free_concat)

lemma nul_free_canon [simp]:
  "nul_free (canon_source src)" "nul_free (canon_metric p)" "nul_free (canon_preset pr)"
  "nul_free (canon_file f)"
proof -
  have bool: "nul_free (canon_bool b)" for b by (simp add: canon_bool_def)
  show "nul_free (canon_source src)"
    by (simp add: canon_source_def bool nul_free_canon_map)
  show metric: "nul_free (canon_metric p)" for p
    by (simp add: canon_metric_def bool nul_free_canon_map canon_list_def nul_free_concat)
  show preset: "nul_free (canon_preset pr)" for pr
    by (simp add: canon_preset_def nul_free_canon_map)
  show "nul_free (canon_file f)"
    by (simp add: canon_file_def nul_free_canon_map metric preset)
qed

section \<open>The instance\<close>

definition demo_wal :: pgwatchMetric where
  "demo_wal =
     \<lparr>pw_InitSQL = [], pw_SQLs = [(14, ''select 1'')], pw_Gauges = [''*''],
      pw_IsInstanceLevel = True, pw_NodeStatus = [], pw_StorageName = [],
      pw_Description = ''WAL''\<rparr>"

definition demo_registry :: pgwatchMetricsFile where
  "demo_registry =
     \<lparr>pf_Metrics = [(''wal'', demo_wal)],
      pf_Presets = [(''basic'', \<lparr>pp_Description = ''basic'', pp_Metrics = [(''wal'', 60)]\<rparr>),
        (''aiven'', \<lparr>pp_Description = ''aiven'', pp_Metrics = [(''wal'', 120), (''index_col_stats'', 86400)]\<rparr>)]\<rparr>"

definition canon_yaml :: yaml_lib where
  "canon_yaml =
     \<lparr>yaml_Marshal = (\<lambda>ss. Inr (canon_list canon_source ss)),
      yamlv3_Marshal = (\<lambda>f. Inr (canon_file f)),
      yamlv3_Unmarshal = (\<lambda>_. Inr demo_registry),
      builtinMetricsYAML = []\<rparr>"

lemma canon_source_equiv: "source_equiv s s' \<Longrightarrow> canon_source s = canon_source s'"
proof -
  assume eq: "source_equiv s s'"
  then have "canon_map go_quote itoa (src_CustomMetrics s) = canon_map go_quote itoa (src_CustomMetrics s')"
    "canon_map go_quote go_quote (src_CustomTags s) = canon_map go_quote go_quote (src_CustomTags s')"
    by (auto simp: source_equiv_def intro: canon_map_rel [where R = "(=)"])
  with eq show ?thesis by (cases s, cases s') (simp add: source_equiv_def canon_source_def)
qed

lemma canon_file_equiv: "file_equiv f f' \<Longrightarrow> canon_file f = canon_file f'"
proof -
  assume eq: "file_equiv f f'"
  have "canon_metric a = canon_metric b" if "pw_metric_equiv a b" for a b
    using that canon_map_rel [of "(=)" "pw_SQLs a" "pw_SQLs b" go_quote itoa]
    by (cases a, cases b) (simp add: pw_metric_equiv_def canon_metric_def)
  moreover have "canon_preset a = canon_preset b" if "preset_equiv a b" for a b
    using that canon_map_rel [of "(=)" "pp_Metrics a" "pp_Metrics b" itoa go_quote]
    by (cases a, cases b) (simp add: preset_equiv_def canon_preset_def)
  ultimately show ?thesis
    using eq canon_map_rel [of pw_metric_equiv "pf_Metrics f" "pf_Metrics f'" canon_metric go_quote]
      canon_map_rel [of preset_equiv "pf_Presets f" "pf_Presets f'" canon_preset go_quote]
    by (simp add: canon_file_def file_equiv_def)
qed

interpretation canon: yaml_contract canon_yaml
proof unfold_locales
  fix s s' :: pgwatchSource
  assume "source_equiv s s'"
  then show "yaml_Marshal canon_yaml [s] = yaml_Marshal canon_yaml [s']"
    by (simp add: canon_yaml_def canon_list_def canon_source_equiv)
next
  fix f f'
  assume "file_equiv f f'"
  then show "yamlv3_Marshal canon_yaml f = yamlv3_Marshal canon_yaml f'"
    by (simp add: canon_yaml_def canon_file_equiv)
next
  fix ss t
  assume "yaml_Marshal canon_yaml ss = Inr t"
  then show "nul_free t" by (auto simp: canon_yaml_def canon_list_def nul_free_concat)
next
  fix f t
  assume "yamlv3_Marshal canon_yaml f = Inr t"
  then show "nul_free t" by (auto simp: canon_yaml_def)
qed

end
