(* ===== verification/Admission.thy ===== *)
theory Admission
  imports Workloads
begin

text \<open>
  What an API server does with a submitted \<open>spec\<close>, as the \<open>kubebuilder\<close> markers and the JSON tags of
  \<open>api/v1\<close> declare it: missing fields get their default, the result is validated, and Go decodes it.
  A submitted object has an \<open>option\<close> for every field that may be missing (records \<open>j...\<close>). Structs
  without a default (metric definitions, metadata, resources) are submitted as the values they decode
  to. \<open>encode_...\<close> is the other direction: what a Go client sends for a value (\<open>omitempty\<close> leaves
  out zero values, a nested struct is always sent), so \<open>resubmit\<close> is what becomes of a specification
  that the operator writes back.
\<close>

section \<open>Submitted objects\<close>

record jCredentialsSecretRef =
  jcs_name :: string
  jcs_usernameKey :: "string option"
  jcs_passwordKey :: "string option"

record jDatabaseRef =
  jdb_host :: string
  jdb_port :: "int option"
  jdb_database :: string
  jdb_sslmode :: "string option"
  jdb_username :: "string option"
  jdb_password :: "string option"
  jdb_credentialsSecret :: "jCredentialsSecretRef option"
  jdb_customTags :: "(string, string) gomap option"

record jPrometheusSink =
  jps_enabled :: "bool option"
  jps_port :: "int option"

record jGRPCSink =
  jgs_enabled :: "bool option"
  jgs_endpoint :: "string option"
  jgs_tls :: "GRPCTLS option"

record jSinksSpec =
  jss_prometheus :: "jPrometheusSink option"
  jss_grpc :: "jGRPCSink option"

record jImageSpec =
  jim_repository :: "string option"
  jim_tag :: "string option"
  jim_pullPolicy :: "string option"

record jMonitorSpec =
  jsp_database :: jDatabaseRef
  jsp_metrics :: MetricsSpec
  jsp_sinks :: jSinksSpec
  jsp_resources :: ResourceRequirements
  jsp_image :: "jImageSpec option"
  jsp_podMetadata :: ObjectMetadataOverrides
  jsp_serviceMetadata :: ObjectMetadataOverrides

section \<open>Defaults and validation\<close>

definition or_default :: "'a \<Rightarrow> 'a option \<Rightarrow> 'a" where
  "or_default d v = (case v of None \<Rightarrow> d | Some x \<Rightarrow> x)"

definition ssl_modes :: "SSLMode list" where
  "ssl_modes = [SSLModeDisable, SSLModeAllow, SSLModePrefer, SSLModeRequire, SSLModeVerifyCA, SSLModeVerifyFull]"

definition pull_policies :: "string list" where
  "pull_policies = [''Always'', ''IfNotPresent'', ''Never'']"

definition min_length1 :: "string option \<Rightarrow> bool" where
  "min_length1 v = (case v of None \<Rightarrow> True | Some s \<Rightarrow> 1 \<le> length s)"

definition valid_port :: "int \<Rightarrow> bool" where
  "valid_port p \<longleftrightarrow> 1 \<le> p \<and> p \<le> 65535"

definition admit_credentials :: "jCredentialsSecretRef \<Rightarrow> CredentialsSecretRef option" where
  "admit_credentials j =
     (if 1 \<le> length (jcs_name j)
      then Some \<lparr>cs_Name = jcs_name j, cs_UsernameKey = or_default ''username'' (jcs_usernameKey j),
                 cs_PasswordKey = or_default ''password'' (jcs_passwordKey j)\<rparr>
      else None)"

text \<open>The three rules of \<open>XValidation\<close>, with \<open>has(self.x)\<close> as \<open>x \<noteq> None\<close>.\<close>

definition credential_rules :: "jDatabaseRef \<Rightarrow> bool" where
  "credential_rules j \<longleftrightarrow>
     ((jdb_username j \<noteq> None \<and> jdb_password j \<noteq> None) \<noteq> (jdb_credentialsSecret j \<noteq> None))
     \<and> (jdb_username j = None \<or> jdb_password j \<noteq> None)
     \<and> (jdb_password j = None \<or> jdb_username j \<noteq> None)"

definition admit_database :: "jDatabaseRef \<Rightarrow> DatabaseRef option" where
  "admit_database j =
     (let port = or_default 5432 (jdb_port j); sslmode = or_default ''disable'' (jdb_sslmode j);
          secret = map_option admit_credentials (jdb_credentialsSecret j)
      in if credential_rules j \<and> 1 \<le> length (jdb_host j) \<and> valid_port port \<and> 1 \<le> length (jdb_database j)
            \<and> sslmode \<in> set ssl_modes \<and> min_length1 (jdb_username j) \<and> min_length1 (jdb_password j)
            \<and> secret \<noteq> Some None
         then Some \<lparr>db_Host = jdb_host j, db_Port = word_of_int port, db_Database = jdb_database j,
                    db_SSLMode = sslmode, db_Username = or_default [] (jdb_username j),
                    db_Password = or_default [] (jdb_password j),
                    db_CredentialsSecret = map_option the secret,
                    db_CustomTags = or_default [] (jdb_customTags j)\<rparr>
         else None)"

definition admit_prometheus :: "jPrometheusSink \<Rightarrow> PrometheusSink option" where
  "admit_prometheus j =
     (let port = or_default 9187 (jps_port j)
      in if valid_port port
         then Some \<lparr>ps_Enabled = or_default True (jps_enabled j), ps_Port = word_of_int port\<rparr>
         else None)"

definition admit_grpc :: "jGRPCSink \<Rightarrow> GRPCSink" where
  "admit_grpc j =
     \<lparr>gs_Enabled = or_default False (jgs_enabled j), gs_Endpoint = or_default [] (jgs_endpoint j), gs_TLS = jgs_tls j\<rparr>"

definition admit_sinks :: "jSinksSpec \<Rightarrow> SinksSpec option" where
  "admit_sinks j =
     (let prometheus = map_option admit_prometheus (jss_prometheus j)
      in if prometheus \<noteq> Some None
         then Some \<lparr>ss_Prometheus = map_option the prometheus, ss_GRPC = map_option admit_grpc (jss_grpc j)\<rparr>
         else None)"

text \<open>The defaults inside \<open>image\<close> apply only where \<open>image\<close> is given at all.\<close>

definition admit_image :: "jImageSpec option \<Rightarrow> ImageSpec option" where
  "admit_image v =
     (case v of
        None \<Rightarrow> Some \<lparr>im_Repository = [], im_Tag = [], im_PullPolicy = []\<rparr>
      | Some j \<Rightarrow>
          (let policy = or_default ''IfNotPresent'' (jim_pullPolicy j)
           in if policy \<in> set pull_policies
              then Some \<lparr>im_Repository = or_default ''cybertecpostgresql/pgwatch'' (jim_repository j),
                         im_Tag = or_default ''5.1.0'' (jim_tag j), im_PullPolicy = policy\<rparr>
              else None))"

text \<open>The pattern \<open>^[a-z_][a-z0-9_]*$\<close> of metric names.\<close>

definition name_start :: "char \<Rightarrow> bool" where
  "name_start c \<longleftrightarrow> (let n = (of_char c :: nat) in 97 \<le> n \<and> n \<le> 122 \<or> n = 95)"

definition name_char :: "char \<Rightarrow> bool" where
  "name_char c \<longleftrightarrow> name_start c \<or> digit_val c \<noteq> None"

definition metric_name_pattern :: "string \<Rightarrow> bool" where
  "metric_name_pattern s = (case s of [] \<Rightarrow> False | c # cs \<Rightarrow> name_start c \<and> list_all name_char cs)"

definition metric_valid :: "MetricDefinition \<Rightarrow> bool" where
  "metric_valid md \<longleftrightarrow>
     metric_name_pattern (md_Name md) \<and> 1 \<le> length (md_Name md) \<and> length (md_Name md) \<le> 63
     \<and> 1 \<le> length (md_SQLs md) \<and> 0 \<le> sint (md_StatementTimeoutSeconds md)"

definition metrics_valid :: "MetricsSpec \<Rightarrow> bool" where
  "metrics_valid ms \<longleftrightarrow>
     list_all (\<lambda>ref. 1 \<le> length (lr_Name ref)) (ms_FromLibraries ms) \<and> list_all metric_valid (ms_Custom ms)"

definition library_spec_valid :: "PgpilotMetricLibrarySpec \<Rightarrow> bool" where
  "library_spec_valid ls \<longleftrightarrow> 1 \<le> length (ls_Metrics ls) \<and> list_all metric_valid (ls_Metrics ls)"

definition admit_spec :: "jMonitorSpec \<Rightarrow> PgpilotMonitorSpec option" where
  "admit_spec j =
     (case (admit_database (jsp_database j), admit_sinks (jsp_sinks j), admit_image (jsp_image j)) of
        (Some database, Some sinks, Some img) \<Rightarrow>
          if metrics_valid (jsp_metrics j)
          then Some \<lparr>sp_Database = database, sp_Metrics = jsp_metrics j, sp_Sinks = sinks,
                     sp_Resources = jsp_resources j, sp_Image = img, sp_PodMetadata = jsp_podMetadata j,
                     sp_ServiceMetadata = jsp_serviceMetadata j\<rparr>
          else None
      | _ \<Rightarrow> None)"

section \<open>What a Go client sends\<close>

definition omitempty :: "'a list \<Rightarrow> 'a list option" where
  "omitempty s = (if s = [] then None else Some s)"

definition omitzero :: "int32 \<Rightarrow> int option" where
  "omitzero n = (if n = 0 then None else Some (sint n))"

definition encode_credentials :: "CredentialsSecretRef \<Rightarrow> jCredentialsSecretRef" where
  "encode_credentials cs = \<lparr>jcs_name = cs_Name cs, jcs_usernameKey = omitempty (cs_UsernameKey cs),
     jcs_passwordKey = omitempty (cs_PasswordKey cs)\<rparr>"

definition encode_database :: "DatabaseRef \<Rightarrow> jDatabaseRef" where
  "encode_database db =
     \<lparr>jdb_host = db_Host db, jdb_port = omitzero (db_Port db), jdb_database = db_Database db,
      jdb_sslmode = omitempty (db_SSLMode db), jdb_username = omitempty (db_Username db),
      jdb_password = omitempty (db_Password db),
      jdb_credentialsSecret = map_option encode_credentials (db_CredentialsSecret db),
      jdb_customTags = omitempty (db_CustomTags db)\<rparr>"

definition encode_sinks :: "SinksSpec \<Rightarrow> jSinksSpec" where
  "encode_sinks ss =
     \<lparr>jss_prometheus = map_option (\<lambda>p. \<lparr>jps_enabled = Some (ps_Enabled p), jps_port = omitzero (ps_Port p)\<rparr>)
        (ss_Prometheus ss),
      jss_grpc = map_option (\<lambda>g. \<lparr>jgs_enabled = Some (gs_Enabled g), jgs_endpoint = omitempty (gs_Endpoint g),
        jgs_tls = gs_TLS g\<rparr>) (ss_GRPC ss)\<rparr>"

definition encode_image :: "ImageSpec \<Rightarrow> jImageSpec" where
  "encode_image im = \<lparr>jim_repository = omitempty (im_Repository im), jim_tag = omitempty (im_Tag im),
     jim_pullPolicy = omitempty (im_PullPolicy im)\<rparr>"

definition encode_spec :: "PgpilotMonitorSpec \<Rightarrow> jMonitorSpec" where
  "encode_spec sp =
     \<lparr>jsp_database = encode_database (sp_Database sp), jsp_metrics = sp_Metrics sp,
      jsp_sinks = encode_sinks (sp_Sinks sp), jsp_resources = sp_Resources sp,
      jsp_image = Some (encode_image (sp_Image sp)), jsp_podMetadata = sp_PodMetadata sp,
      jsp_serviceMetadata = sp_ServiceMetadata sp\<rparr>"

definition resubmit :: "PgpilotMonitorSpec \<Rightarrow> PgpilotMonitorSpec option" where
  "resubmit sp = admit_spec (encode_spec sp)"

section \<open>The type of an admitted specification\<close>

definition database_valid :: "DatabaseRef \<Rightarrow> bool" where
  "database_valid db \<longleftrightarrow>
     db_Host db \<noteq> [] \<and> db_Database db \<noteq> [] \<and> valid_port (sint (db_Port db)) \<and> db_SSLMode db \<in> set ssl_modes
     \<and> credentials_valid db
     \<and> (case db_CredentialsSecret db of None \<Rightarrow> True | Some cs \<Rightarrow> cs_Name cs \<noteq> [])"

definition sinks_valid :: "SinksSpec \<Rightarrow> bool" where
  "sinks_valid ss \<longleftrightarrow> (case ss_Prometheus ss of None \<Rightarrow> True | Some p \<Rightarrow> valid_port (sint (ps_Port p)))"

definition spec_valid :: "PgpilotMonitorSpec \<Rightarrow> bool" where
  "spec_valid sp \<longleftrightarrow>
     database_valid (sp_Database sp) \<and> sinks_valid (sp_Sinks sp) \<and> metrics_valid (sp_Metrics sp)
     \<and> im_PullPolicy (sp_Image sp) \<in> set ([] # pull_policies)"

lemma sint_port: "valid_port p \<Longrightarrow> sint (word_of_int p :: int32) = p"
  by (simp add: valid_port_def signed_of_int signed_take_bit_int_eq_self)

lemma or_default_omitempty [simp]: "or_default d (omitempty s) = (if s = [] then d else s)"
  by (simp add: or_default_def omitempty_def)

lemma or_default_simps [simp]: "or_default d None = d" "or_default d (Some x) = x"
  by (simp_all add: or_default_def)

lemma omitempty_None [simp]: "omitempty s = None \<longleftrightarrow> s = []"
  by (simp add: omitempty_def)

lemma min_length1_omitempty [simp]: "min_length1 (omitempty s)"
  by (cases s) (simp_all add: min_length1_def omitempty_def)

lemma min_length1_iff: "min_length1 v \<Longrightarrow> or_default [] v = [] \<longleftrightarrow> v = None"
  by (cases v) (auto simp: min_length1_def)

lemma or_default_omitzero: "valid_port (sint n) \<Longrightarrow> or_default d (omitzero n) = sint n"
  by (auto simp: omitzero_def valid_port_def)

lemma admit_database_valid:
  assumes "admit_database j = Some db"
  shows "database_valid db"
proof -
  from assms have cond: "credential_rules j" "1 \<le> length (jdb_host j)" "valid_port (or_default 5432 (jdb_port j))"
      "1 \<le> length (jdb_database j)" "or_default ''disable'' (jdb_sslmode j) \<in> set ssl_modes"
      "min_length1 (jdb_username j)" "min_length1 (jdb_password j)"
      "map_option admit_credentials (jdb_credentialsSecret j) \<noteq> Some None"
    and db: "db = \<lparr>db_Host = jdb_host j, db_Port = word_of_int (or_default 5432 (jdb_port j)),
        db_Database = jdb_database j, db_SSLMode = or_default ''disable'' (jdb_sslmode j),
        db_Username = or_default [] (jdb_username j), db_Password = or_default [] (jdb_password j),
        db_CredentialsSecret = map_option the (map_option admit_credentials (jdb_credentialsSecret j)),
        db_CustomTags = or_default [] (jdb_customTags j)\<rparr>"
    by (auto simp: admit_database_def Let_def split: if_splits)
  have "credentials_valid db"
    using cond(1) by (simp add: db credentials_valid_def credential_rules_def min_length1_iff cond(6,7))
  moreover have "cs_Name cs \<noteq> []" if "db_CredentialsSecret db = Some cs" for cs
    using that cond(8) by (auto simp: db admit_credentials_def split: if_splits)
  ultimately show ?thesis
    using cond(2-5) by (auto simp: database_valid_def db sint_port split: option.split)
qed

lemma admit_sinks_valid: "admit_sinks j = Some ss \<Longrightarrow> sinks_valid ss"
  by (cases "jss_prometheus j")
    (auto simp: admit_sinks_def sinks_valid_def admit_prometheus_def Let_def sint_port split: if_splits)

lemma admit_image_valid: "admit_image v = Some im \<Longrightarrow> im_PullPolicy im \<in> set ([] # pull_policies)"
  by (auto simp: admit_image_def Let_def split: option.splits if_splits)

lemma admit_spec_valid: "admit_spec j = Some sp \<Longrightarrow> spec_valid sp"
  by (auto simp: admit_spec_def spec_valid_def admit_database_valid admit_sinks_valid
      dest: admit_image_valid split: option.splits if_splits)

section \<open>Writing a specification back\<close>

text \<open>
  What resubmission adds: the defaults of \<open>image\<close>, which a Go client always sends, and of keys that
  were given as the empty string.
\<close>

definition fill_string :: "string \<Rightarrow> string \<Rightarrow> string" where
  "fill_string d s = (if s = [] then d else s)"

definition fill_credentials :: "CredentialsSecretRef \<Rightarrow> CredentialsSecretRef" where
  "fill_credentials cs = cs\<lparr>cs_UsernameKey := fill_string ''username'' (cs_UsernameKey cs),
     cs_PasswordKey := fill_string ''password'' (cs_PasswordKey cs)\<rparr>"

definition fill_image :: "ImageSpec \<Rightarrow> ImageSpec" where
  "fill_image im = \<lparr>im_Repository = fill_string ''cybertecpostgresql/pgwatch'' (im_Repository im),
     im_Tag = fill_string ''5.1.0'' (im_Tag im), im_PullPolicy = fill_string ''IfNotPresent'' (im_PullPolicy im)\<rparr>"

definition fill_spec :: "PgpilotMonitorSpec \<Rightarrow> PgpilotMonitorSpec" where
  "fill_spec sp = sp
     \<lparr>sp_Database := (sp_Database sp)\<lparr>db_CredentialsSecret :=
        map_option fill_credentials (db_CredentialsSecret (sp_Database sp))\<rparr>,
      sp_Image := fill_image (sp_Image sp)\<rparr>"

lemma ssl_modes_not_empty: "s \<in> set ssl_modes \<Longrightarrow> s \<noteq> []"
  by (auto simp: ssl_modes_def SSLModeDisable_def SSLModeAllow_def SSLModePrefer_def SSLModeRequire_def
      SSLModeVerifyCA_def SSLModeVerifyFull_def)

lemma resubmit_database:
  assumes "database_valid db"
  shows "admit_database (encode_database db) =
    Some (db\<lparr>db_CredentialsSecret := map_option fill_credentials (db_CredentialsSecret db)\<rparr>)"
proof -
  have port: "or_default d (omitzero (db_Port db)) = sint (db_Port db)" for d
    using assms by (simp add: database_valid_def or_default_omitzero)
  have "credential_rules (encode_database db)"
    using assms by (simp add: database_valid_def credentials_valid_def credential_rules_def encode_database_def)
  moreover have "map_option admit_credentials (jdb_credentialsSecret (encode_database db)) =
      map_option (Some \<circ> fill_credentials) (db_CredentialsSecret db)"
    using assms
    by (cases "db_CredentialsSecret db")
      (auto simp: database_valid_def encode_database_def encode_credentials_def admit_credentials_def
        fill_credentials_def fill_string_def Suc_le_eq)
  ultimately show ?thesis
    using assms ssl_modes_not_empty [of "db_SSLMode db"]
    by (cases "db_CredentialsSecret db")
      (auto simp: admit_database_def Let_def database_valid_def port encode_database_def Suc_le_eq)
qed

lemma resubmit_sinks: "sinks_valid ss \<Longrightarrow> admit_sinks (encode_sinks ss) = Some ss"
  by (cases "ss_Prometheus ss"; cases "ss_GRPC ss")
    (auto simp: admit_sinks_def encode_sinks_def sinks_valid_def admit_prometheus_def admit_grpc_def
      or_default_omitzero Let_def)

lemma resubmit_image:
  "im_PullPolicy im \<in> set ([] # pull_policies) \<Longrightarrow> admit_image (Some (encode_image im)) = Some (fill_image im)"
  by (auto simp: admit_image_def encode_image_def fill_image_def fill_string_def pull_policies_def Let_def)

lemma resubmit_valid: "spec_valid sp \<Longrightarrow> resubmit sp = Some (fill_spec sp)"
  by (simp add: spec_valid_def resubmit_def admit_spec_def encode_spec_def resubmit_database resubmit_sinks
      resubmit_image fill_spec_def)

lemma fill_spec_idem: "fill_spec (fill_spec sp) = fill_spec sp"
  by (cases "db_CredentialsSecret (sp_Database sp)")
    (auto simp: fill_spec_def fill_image_def fill_credentials_def fill_string_def)

lemma fill_spec_valid: "spec_valid sp \<Longrightarrow> spec_valid (fill_spec sp)"
  using resubmit_valid [of sp] by (simp add: resubmit_def admit_spec_valid)

end
