(* ===== verification/Cluster.thy ===== *)
theory Cluster
  imports LibraryController YamlCanon Admission
begin

text \<open>
  An API server as the controllers see it, and the controller libraries as documented: optimistic
  concurrency on resource versions, the status subresource, generations, finalizers that hold a
  deletion, server-side apply of the operator's children, condition and owner reference upserts.
  None of it is code of the repository: it instantiates the parameters of the model, so that the
  contracts are met by one and the same environment and the witnesses run on it.
\<close>

section \<open>Controller libraries\<close>

definition upsert_condition :: "Time \<Rightarrow> Condition list \<Rightarrow> Condition \<Rightarrow> Condition list" where
  "upsert_condition now cs c =
     (case find_condition cs (cd_Type c) of
        None \<Rightarrow> cs @ [c\<lparr>cd_LastTransitionTime := now\<rparr>]
      | Some old \<Rightarrow>
          map (\<lambda>x. if cd_Type x = cd_Type c
                   then c\<lparr>cd_LastTransitionTime := (if cd_Status old = cd_Status c
                                                     then cd_LastTransitionTime old else now)\<rparr>
                   else x) cs)"

definition controller_ref :: "PgpilotMonitor \<Rightarrow> OwnerReference" where
  "controller_ref m = \<lparr>or_Kind = ''PgpilotMonitor'', or_Name = pm_Name m,
     or_UID = om_UID (pm_Meta m), or_Controller = True\<rparr>"

definition set_controller_ref :: "PgpilotMonitor \<Rightarrow> ObjectMeta \<Rightarrow> goerror + ObjectMeta" where
  "set_controller_ref m meta =
     (case find or_Controller (om_OwnerReferences meta) of
        None \<Rightarrow> Inr (meta\<lparr>om_OwnerReferences := om_OwnerReferences meta @ [controller_ref m]\<rparr>)
      | Some ref \<Rightarrow>
          if ref = controller_ref m then Inr meta
          else Inl (ErrOther (''Object '' @ om_Namespace meta @ ''/'' @ om_Name meta
                 @ '' is already owned by another '' @ or_Kind ref @ '' controller '' @ or_Name ref)))"

definition kube_lib :: controller_lib where
  "kube_lib =
     \<lparr>cl_ContainsFinalizer = (\<lambda>m f. f \<in> set (om_Finalizers m)),
      cl_AddFinalizer = (\<lambda>m f. if f \<in> set (om_Finalizers m) then m
                               else m\<lparr>om_Finalizers := om_Finalizers m @ [f]\<rparr>),
      cl_RemoveFinalizer = (\<lambda>m f. m\<lparr>om_Finalizers := filter (\<lambda>x. x \<noteq> f) (om_Finalizers m)\<rparr>),
      cl_SetControllerReference = set_controller_ref,
      cl_SetStatusCondition = upsert_condition\<rparr>"

lemma find_condition_type: "find_condition cs ty = Some c \<Longrightarrow> cd_Type c = ty"
  by (auto simp: find_condition_def find_Some_iff)

lemma find_condition_append:
  "find_condition (cs @ ds) ty = (case find_condition cs ty of None \<Rightarrow> find_condition ds ty | Some c \<Rightarrow> Some c)"
  by (induction cs) (auto simp: find_condition_def)

lemma find_condition_map:
  assumes "cd_Type c' = ty"
  shows "find_condition (map (\<lambda>x. if cd_Type x = ty then c' else x) cs) ty' =
    (if ty' = ty then map_option (\<lambda>_. c') (find_condition cs ty) else find_condition cs ty')"
  using assms by (induction cs) (auto simp: find_condition_def)

interpretation upsert: condition_contract upsert_condition
proof unfold_locales
  fix now and cs :: "Condition list" and c :: Condition
  have frame: "condition_content (c\<lparr>cd_LastTransitionTime := t\<rparr>) = condition_content c" for t
    by (simp add: condition_content_def)
  show "map_option condition_content (find_condition (upsert_condition now cs c) (cd_Type c)) =
      Some (condition_content c)"
    by (cases "find_condition cs (cd_Type c)")
      (auto simp: upsert_condition_def find_condition_append find_condition_map frame,
       simp add: find_condition_def frame)
next
  fix ty now and cs :: "Condition list" and c :: Condition
  assume "ty \<noteq> cd_Type c"
  then show "find_condition (upsert_condition now cs c) ty = find_condition cs ty"
    by (cases "find_condition cs (cd_Type c)")
      (auto simp: upsert_condition_def find_condition_append find_condition_map split: option.split,
       simp add: find_condition_def)
next
  fix now and cs :: "Condition list" and c :: Condition
  assume dist: "distinct (map cd_Type cs)"
  show "distinct (map cd_Type (upsert_condition now cs c))"
  proof (cases "find_condition cs (cd_Type c)")
    case None
    then have "cd_Type c \<notin> cd_Type ` set cs"
      by (auto simp: find_condition_def find_None_iff)
    with None dist show ?thesis by (simp add: upsert_condition_def)
  next
    case (Some old)
    have "map cd_Type (upsert_condition now cs c) = map cd_Type cs"
      by (simp add: upsert_condition_def Some)
    with dist show ?thesis by simp
  qed
qed

interpretation controller_refs: owner_contract set_controller_ref
proof unfold_locales
  fix m and meta meta' :: ObjectMeta
  assume run: "set_controller_ref m meta = Inr meta'"
  then show "meta'\<lparr>om_OwnerReferences := []\<rparr> = meta\<lparr>om_OwnerReferences := []\<rparr>"
    by (auto simp: set_controller_ref_def split: option.splits if_splits)
  show "owned_by m meta'"
    using run
    by (auto simp: set_controller_ref_def owned_by_def controller_ref_def find_Some_iff list_ex_iff
        split: option.splits if_splits intro: bexI [of _ "controller_ref m"])
      (metis nth_mem OwnerReference.select_convs)
qed

interpretation finalizers: finalizer_contract "cl_ContainsFinalizer kube_lib"
    "cl_AddFinalizer kube_lib" "cl_RemoveFinalizer kube_lib"
  by unfold_locales (auto simp: kube_lib_def)

section \<open>The API server\<close>

record cluster =
  kc_Monitors :: "PgpilotMonitor list"
  kc_Libraries :: "PgpilotMetricLibrary list"
  kc_Secrets :: "NamespacedName list"
  kc_Children :: "Child list"
  kc_Pods :: "(string \<times> (string, string) gomap \<times> string) list"
  kc_Revision :: nat
  kc_Clock :: Time

definition kc_find :: "('a \<Rightarrow> NamespacedName) \<Rightarrow> NamespacedName \<Rightarrow> 'a list \<Rightarrow> string \<Rightarrow> goerror + 'a" where
  "kc_find key k xs resource =
     (case find (\<lambda>x. key x = k) xs of
        None \<Rightarrow> Inl (ErrNotFound (resource @ '' '' @ go_quote (nn_Name k) @ '' not found''))
      | Some x \<Rightarrow> Inr x)"

definition library_name :: "PgpilotMetricLibrary \<Rightarrow> NamespacedName" where
  "library_name lib = \<lparr>nn_Namespace = om_Namespace (lib_Meta lib), nn_Name = om_Name (lib_Meta lib)\<rparr>"

definition kc_conflict :: goerror where
  "kc_conflict = ErrConflict ''the object has been modified; please apply your changes to the latest version''"

definition kc_GetMonitor :: "NamespacedName \<Rightarrow> cluster \<Rightarrow> (goerror + PgpilotMonitor) \<times> cluster" where
  "kc_GetMonitor k c = (kc_find monitor_key k (kc_Monitors c) ''pgpilotmonitors.pgpilot.io'', c)"

text \<open>A write of an object: it must name the stored resource version, and gets a new one.\<close>

definition kc_put_monitor :: "PgpilotMonitor \<Rightarrow> cluster \<Rightarrow> PgpilotMonitor \<times> cluster" where
  "kc_put_monitor m c =
     (let m' = set_meta m ((pm_Meta m)\<lparr>om_ResourceVersion := utoa (Suc (kc_Revision c))\<rparr>);
          rest = filter (\<lambda>x. monitor_key x \<noteq> monitor_key m) (kc_Monitors c);
          gone = om_DeletionTimestamp (pm_Meta m) \<noteq> None \<and> om_Finalizers (pm_Meta m) = []
      in (m', c\<lparr>kc_Monitors := (if gone then rest else m' # rest), kc_Revision := Suc (kc_Revision c)\<rparr>))"

text \<open>
  A write of a specification, as the server has decoded it, and the same for a Go client, whose
  value is encoded and admitted again.
\<close>

definition kc_WriteMonitor :: "PgpilotMonitor \<Rightarrow> cluster \<Rightarrow> (goerror + PgpilotMonitor) \<times> cluster" where
  "kc_WriteMonitor m c =
     (case fst (kc_GetMonitor (monitor_key m) c) of
        Inl err \<Rightarrow> (Inl err, c)
      | Inr cur \<Rightarrow>
          if om_ResourceVersion (pm_Meta m) \<noteq> om_ResourceVersion (pm_Meta cur)
          then (Inl kc_conflict, c)
          else (let gen = om_Generation (pm_Meta cur) + (if pm_Spec m = pm_Spec cur then 0 else 1);
                    (m', c) = kc_put_monitor (m\<lparr>pm_Status := pm_Status cur,
                        pm_Meta := (pm_Meta m)\<lparr>om_Generation := gen,
                          om_DeletionTimestamp := om_DeletionTimestamp (pm_Meta cur)\<rparr>\<rparr>) c
                in (Inr m', c)))"

definition kc_UpdateMonitor :: "PgpilotMonitor \<Rightarrow> cluster \<Rightarrow> (goerror + PgpilotMonitor) \<times> cluster" where
  "kc_UpdateMonitor m c =
     (case resubmit (pm_Spec m) of
        None \<Rightarrow> (Inl (ErrOther (''PgpilotMonitor.pgpilot.io '' @ go_quote (pm_Name m) @ '' is invalid'')), c)
      | Some spec \<Rightarrow> kc_WriteMonitor (m\<lparr>pm_Spec := spec\<rparr>) c)"

definition kc_UpdateMonitorStatus :: "PgpilotMonitor \<Rightarrow> cluster \<Rightarrow> goerror option \<times> cluster" where
  "kc_UpdateMonitorStatus m c =
     (case fst (kc_GetMonitor (monitor_key m) c) of
        Inl err \<Rightarrow> (Some err, c)
      | Inr cur \<Rightarrow>
          if om_ResourceVersion (pm_Meta m) \<noteq> om_ResourceVersion (pm_Meta cur)
          then (Some kc_conflict, c)
          else (None, snd (kc_put_monitor (cur\<lparr>pm_Status := pm_Status m\<rparr>) c)))"

definition kc_GetSecret :: "NamespacedName \<Rightarrow> cluster \<Rightarrow> goerror option \<times> cluster" where
  "kc_GetSecret k c =
     (if k \<in> set (kc_Secrets c) then None
      else Some (ErrNotFound (''secrets '' @ go_quote (nn_Name k) @ '' not found'')), c)"

definition kc_GetLibrary :: "NamespacedName \<Rightarrow> cluster \<Rightarrow> (goerror + PgpilotMetricLibrary) \<times> cluster" where
  "kc_GetLibrary k c = (kc_find library_name k (kc_Libraries c) ''pgpilotmetriclibraries.pgpilot.io'', c)"

definition kc_UpdateLibraryStatus :: "PgpilotMetricLibrary \<Rightarrow> cluster \<Rightarrow> goerror option \<times> cluster" where
  "kc_UpdateLibraryStatus lib c =
     (case fst (kc_GetLibrary (library_name lib) c) of
        Inl err \<Rightarrow> (Some err, c)
      | Inr cur \<Rightarrow>
          if om_ResourceVersion (lib_Meta lib) \<noteq> om_ResourceVersion (lib_Meta cur) then (Some kc_conflict, c)
          else (let lib' = cur\<lparr>lib_Status := lib_Status lib,
                    lib_Meta := (lib_Meta cur)\<lparr>om_ResourceVersion := utoa (Suc (kc_Revision c))\<rparr>\<rparr>
                in (None, c\<lparr>kc_Libraries := lib' # filter (\<lambda>x. library_name x \<noteq> library_name lib) (kc_Libraries c),
                            kc_Revision := Suc (kc_Revision c)\<rparr>)))"

fun kc_deployments :: "Child list \<Rightarrow> Deployment list" where
  "kc_deployments [] = []"
| "kc_deployments (ChildDeployment d # cs) = d # kc_deployments cs"
| "kc_deployments (_ # cs) = kc_deployments cs"

definition deployment_name :: "Deployment \<Rightarrow> NamespacedName" where
  "deployment_name d = \<lparr>nn_Namespace = om_Namespace (dep_Meta d), nn_Name = om_Name (dep_Meta d)\<rparr>"

definition kc_GetDeployment :: "NamespacedName \<Rightarrow> cluster \<Rightarrow> (goerror + Deployment) \<times> cluster" where
  "kc_GetDeployment k c = (kc_find deployment_name k (kc_deployments (kc_Children c)) ''deployments.apps'', c)"

text \<open>Server-side apply by the single field owner: the object is replaced, its status stays.\<close>

fun keep_status :: "Child \<Rightarrow> Child \<Rightarrow> Child" where
  "keep_status (ChildDeployment old) (ChildDeployment d) =
     ChildDeployment (d\<lparr>dep_ReadyReplicas := dep_ReadyReplicas old\<rparr>)"
| "keep_status _ c = c"

definition same_child :: "Child \<Rightarrow> Child \<Rightarrow> bool" where
  "same_child a b \<longleftrightarrow> child_kind a = child_kind b \<and> child_name a = child_name b"

definition patch_child :: "Child list \<Rightarrow> Child \<Rightarrow> Child list" where
  "patch_child children obj =
     (let stored = (case find (same_child obj) children of None \<Rightarrow> obj | Some old \<Rightarrow> keep_status old obj)
      in stored # filter (\<lambda>x. \<not> same_child obj x) children)"

definition kc_Patch :: "Child \<Rightarrow> cluster \<Rightarrow> goerror option \<times> cluster" where
  "kc_Patch obj c = (None, c\<lparr>kc_Children := patch_child (kc_Children c) obj\<rparr>)"

definition kc_ListPods ::
  "string \<Rightarrow> (string, string) gomap \<Rightarrow> cluster \<Rightarrow> (goerror + string list) \<times> cluster" where
  "kc_ListPods ns sel c =
     (Inr (map (\<lambda>(_, _, name). name)
        (filter (\<lambda>(ns', labels, _). ns' = ns \<and> selects sel labels) (kc_Pods c))), c)"

definition kc_ListMonitors :: "string \<Rightarrow> cluster \<Rightarrow> (goerror + PgpilotMonitor list) \<times> cluster" where
  "kc_ListMonitors ns c = (Inr (filter (\<lambda>m. pm_Namespace m = ns) (kc_Monitors c)), c)"

definition kc_Now :: "cluster \<Rightarrow> Time \<times> cluster" where
  "kc_Now c = (kc_Clock c, c\<lparr>kc_Clock := kc_Clock c + 1\<rparr>)"

text \<open>The client of the operator on this server; a retry runs its function as often as its backoff has steps.\<close>

definition cluster_client :: "cluster kube_api" where
  "cluster_client =
     \<lparr>api_GetMonitor = kc_GetMonitor,
      api_UpdateMonitor = kc_UpdateMonitor,
      api_UpdateMonitorStatus = kc_UpdateMonitorStatus,
      api_GetSecret = kc_GetSecret,
      api_GetLibrary = kc_GetLibrary,
      api_UpdateLibraryStatus = kc_UpdateLibraryStatus,
      api_GetDeployment = kc_GetDeployment,
      api_Patch = kc_Patch,
      api_ListPods = kc_ListPods,
      api_ListMonitors = kc_ListMonitors,
      api_Now = kc_Now,
      api_RetryOnConflict = (\<lambda>backoff. attempts (bo_Steps backoff - 1))\<rparr>"

definition cluster_reconciler :: "bool \<Rightarrow> cluster Reconciler" where
  "cluster_reconciler sm_enabled =
     \<lparr>r_Client = cluster_client, r_Lib = kube_lib, r_Yaml = canon_yaml, r_ServiceMonitorEnabled = sm_enabled\<rparr>"

interpretation cluster: controller_contract "cluster_reconciler b" for b
proof (rule controller_contract.intro)
  show "retry_contract (api_RetryOnConflict (r_Client (cluster_reconciler b)) DefaultRetry)"
    by (simp add: cluster_reconciler_def cluster_client_def bounded_retry.retry_contract_axioms)
  show "owner_contract (cl_SetControllerReference (r_Lib (cluster_reconciler b)))"
    by (simp add: cluster_reconciler_def kube_lib_def controller_refs.owner_contract_axioms)
  show "condition_contract (cl_SetStatusCondition (r_Lib (cluster_reconciler b)))"
    by (simp add: cluster_reconciler_def kube_lib_def upsert.condition_contract_axioms)
  show "finalizer_contract (cl_ContainsFinalizer (r_Lib (cluster_reconciler b)))
      (cl_AddFinalizer (r_Lib (cluster_reconciler b))) (cl_RemoveFinalizer (r_Lib (cluster_reconciler b)))"
    by (simp add: cluster_reconciler_def finalizers.finalizer_contract_axioms)
qed

end
