(* ===== verification/ClusterFacts.thy ===== *)
theory ClusterFacts
  imports Cluster
begin

text \<open>
  The reconcile loop on the API server of \<open>Cluster\<close>: with the credentials, the libraries and a
  renderable configuration in place, one reconcile succeeds, leaves every desired child in the
  cluster and stores the status. This is the liveness half of what \<open>ReconcileFacts\<close> shows of any
  environment.
\<close>

section \<open>Ready replicas\<close>

text \<open>The replicas the server counts for a Deployment: no request of the operator changes them.\<close>

definition kc_replicas :: "NamespacedName \<Rightarrow> cluster \<Rightarrow> int32" where
  "kc_replicas k c = (case fst (kc_GetDeployment k c) of Inl _ \<Rightarrow> 0 | Inr d \<Rightarrow> dep_ReadyReplicas d)"

fun strip_status :: "Child \<Rightarrow> Child" where
  "strip_status (ChildDeployment d) = ChildDeployment (d\<lparr>dep_ReadyReplicas := 0\<rparr>)"
| "strip_status c = c"

lemma same_child_deployment:
  "same_child (ChildDeployment d) (ChildDeployment d') \<longleftrightarrow> deployment_name d' = deployment_name d"
  by (auto simp: same_child_def child_name_def deployment_name_def)

lemma same_child_kind: "child_kind a \<noteq> child_kind b \<Longrightarrow> \<not> same_child a b"
  by (simp add: same_child_def)

lemma kc_deployments_filter:
  "kc_deployments (filter (\<lambda>x. \<not> same_child (ChildDeployment d) x) cs) =
     filter (\<lambda>x. deployment_name x \<noteq> deployment_name d) (kc_deployments cs)"
  by (induction cs rule: kc_deployments.induct) (auto simp: same_child_deployment same_child_kind)

lemma kc_deployments_filter_other:
  "child_kind obj \<noteq> KDeployment \<Longrightarrow>
     kc_deployments (filter (\<lambda>x. \<not> same_child obj x) cs) = kc_deployments cs"
  by (induction cs rule: kc_deployments.induct) (auto simp: same_child_kind)

lemma find_deployment:
  "find (same_child (ChildDeployment d)) cs =
     map_option ChildDeployment (find (\<lambda>x. deployment_name x = deployment_name d) (kc_deployments cs))"
  by (induction cs rule: kc_deployments.induct) (auto simp: same_child_deployment same_child_kind)

lemma find_filter_other: "k \<noteq> k' \<Longrightarrow> find (\<lambda>x. f x = k) (filter (\<lambda>x. f x \<noteq> k') xs) = find (\<lambda>x. f x = k) xs"
  by (induction xs) auto

lemma kc_Patch_replicas:
  assumes "strip_status obj = obj"
  shows "kc_replicas k (snd (kc_Patch obj c)) = kc_replicas k c"
proof (cases "\<exists>d. obj = ChildDeployment d")
  case True
  then obtain d where obj: "obj = ChildDeployment d" by blast
  have zero: "dep_ReadyReplicas d = 0"
    using assms by (auto simp: obj dest: arg_cong [of _ _ dep_ReadyReplicas])
  let ?found = "find (\<lambda>x. deployment_name x = deployment_name d) (kc_deployments (kc_Children c))"
  define d' where "d' = (case ?found of None \<Rightarrow> d | Some old \<Rightarrow> d\<lparr>dep_ReadyReplicas := dep_ReadyReplicas old\<rparr>)"
  have deps: "kc_deployments (kc_Children (snd (kc_Patch obj c))) =
      d' # filter (\<lambda>x. deployment_name x \<noteq> deployment_name d) (kc_deployments (kc_Children c))"
    by (cases ?found) (simp_all add: kc_Patch_def patch_child_def Let_def obj find_deployment d'_def kc_deployments_filter)
  have name: "deployment_name d' = deployment_name d"
    by (simp add: d'_def deployment_name_def split: option.split)
  show ?thesis
  proof (cases "k = deployment_name d")
    case True
    then show ?thesis
      by (cases ?found) (simp_all add: kc_replicas_def kc_GetDeployment_def kc_find_def deps name,
        simp_all add: d'_def zero)
  next
    case False
    then show ?thesis
      by (simp add: kc_replicas_def kc_GetDeployment_def kc_find_def deps name find_filter_other)
  qed
next
  case False
  then have kind: "child_kind obj \<noteq> KDeployment" by (cases obj rule: Child.exhaust) auto
  have "kc_deployments (x # xs) = kc_deployments xs" if "child_kind x \<noteq> KDeployment" for x xs
    using that by (cases x rule: Child.exhaust) auto
  moreover have "child_kind (keep_status old obj) = child_kind obj" for old
    by (cases "(old, obj)" rule: keep_status.cases) auto
  ultimately have "kc_deployments (kc_Children (snd (kc_Patch obj c))) = kc_deployments (kc_Children c)"
    using kind by (simp add: kc_Patch_def patch_child_def Let_def kc_deployments_filter_other split: option.split)
  then show ?thesis by (simp add: kc_replicas_def kc_GetDeployment_def)
qed

section \<open>The two actors that a reconcile moves\<close>

text \<open>A step that touched children and clock only, and one that touched the clock only.\<close>

definition kc_frame :: "cluster rstate \<Rightarrow> cluster rstate \<Rightarrow> bool" where
  "kc_frame s s' \<longleftrightarrow>
     (world s')\<lparr>kc_Children := [], kc_Clock := 0\<rparr> = (world s)\<lparr>kc_Children := [], kc_Clock := 0\<rparr>
     \<and> (\<forall>k. kc_replicas k (world s') = kc_replicas k (world s))"

definition kc_idle :: "cluster rstate \<Rightarrow> cluster rstate \<Rightarrow> bool" where
  "kc_idle s s' \<longleftrightarrow> (world s')\<lparr>kc_Clock := 0\<rparr> = (world s)\<lparr>kc_Clock := 0\<rparr>"

lemma kc_idle_refl [simp]: "kc_idle s s"
  by (simp add: kc_idle_def)

lemma kc_idle_trans: "kc_idle s s' \<Longrightarrow> kc_idle s' s'' \<Longrightarrow> kc_idle s s''"
  by (simp add: kc_idle_def)

lemma kc_frame_trans: "kc_frame s s' \<Longrightarrow> kc_frame s' s'' \<Longrightarrow> kc_frame s s''"
  by (simp add: kc_frame_def)

lemma kc_idle_fields:
  assumes "kc_idle s s'"
  shows "kc_Monitors (world s') = kc_Monitors (world s)" "kc_Libraries (world s') = kc_Libraries (world s)"
    "kc_Secrets (world s') = kc_Secrets (world s)" "kc_Children (world s') = kc_Children (world s)"
    "kc_Pods (world s') = kc_Pods (world s)"
  using assms unfolding kc_idle_def by (cases "world s", cases "world s'", simp)+

lemma kc_frame_fields:
  assumes "kc_frame s s'"
  shows "kc_Monitors (world s') = kc_Monitors (world s)" "kc_Libraries (world s') = kc_Libraries (world s)"
    "kc_Secrets (world s') = kc_Secrets (world s)"
  using assms unfolding kc_frame_def by (cases "world s", cases "world s'", simp)+

lemma kc_idle_frame: "kc_idle s s' \<Longrightarrow> kc_frame s s'"
  using kc_idle_fields(4) [of s s'] unfolding kc_idle_def kc_frame_def
  by (cases "world s", cases "world s'", simp add: kc_replicas_def kc_GetDeployment_def)

lemma kc_frame_replicas: "kc_frame s s' \<Longrightarrow> kc_replicas k (world s') = kc_replicas k (world s)"
  by (simp add: kc_frame_def)

lemma cluster_simps:
  "api_GetMonitor (r_Client (cluster_reconciler b)) = kc_GetMonitor"
  "api_UpdateMonitorStatus (r_Client (cluster_reconciler b)) = kc_UpdateMonitorStatus"
  "api_GetSecret (r_Client (cluster_reconciler b)) = kc_GetSecret"
  "api_GetLibrary (r_Client (cluster_reconciler b)) = kc_GetLibrary"
  "api_GetDeployment (r_Client (cluster_reconciler b)) = kc_GetDeployment"
  "api_Patch (r_Client (cluster_reconciler b)) = kc_Patch"
  "api_ListPods (r_Client (cluster_reconciler b)) = kc_ListPods"
  "api_Now (r_Client (cluster_reconciler b)) = kc_Now"
  "api_RetryOnConflict (r_Client (cluster_reconciler b)) DefaultRetry = attempts 4"
  "r_Yaml (cluster_reconciler b) = canon_yaml"
  "r_ServiceMonitorEnabled (cluster_reconciler b) = b"
  by (simp_all add: cluster_reconciler_def cluster_client_def)

lemma cluster_setCondition:
  assumes "setCondition (cluster_reconciler b) m ty st re msg s = (m', s')"
  shows "kc_idle s s'"
  using assms
  by (auto simp: setCondition_def Let_def cluster_simps kc_Now_def on_world_def kc_idle_def)

lemma kc_idle_event [simp]: "kc_idle s (recordEvent ty re msg s') \<longleftrightarrow> kc_idle s s'"
  by (simp add: kc_idle_def recordEvent_def)

section \<open>Credentials and libraries\<close>

definition credentials_available :: "PgpilotMonitor \<Rightarrow> cluster \<Rightarrow> bool" where
  "credentials_available m c \<longleftrightarrow>
     db_Username (pm_Database m) \<noteq> [] \<and> db_Password (pm_Database m) \<noteq> []
     \<or> (case db_CredentialsSecret (pm_Database m) of
          None \<Rightarrow> False
        | Some ref \<Rightarrow> \<lparr>nn_Namespace = pm_Namespace m, nn_Name = cs_Name ref\<rparr> \<in> set (kc_Secrets c))"

lemma cluster_credentials:
  assumes "credentials_available m (world s)"
  obtains res m1 s1 where "validateCredentials (cluster_reconciler b) m s = ((res, True), m1, s1)" "kc_idle s s1"
proof (cases "db_Username (pm_Database m) \<noteq> [] \<and> db_Password (pm_Database m) \<noteq> []")
  case True
  let ?set = "setCondition (cluster_reconciler b) m ''DatabaseReachable'' ConditionTrue
      ''InlineCredentials'' ''Inline username/password configured'' s"
  obtain m1 s1 where set: "?set = (m1, s1)" by (cases ?set)
  show ?thesis
    by (rule that [OF _ cluster_setCondition [OF set]])
      (use True in \<open>simp add: validateCredentials_def set\<close>)
next
  case False
  then obtain ref where ref: "db_CredentialsSecret (pm_Database m) = Some ref"
      "\<lparr>nn_Namespace = pm_Namespace m, nn_Name = cs_Name ref\<rparr> \<in> set (kc_Secrets (world s))"
    using assms by (auto simp: credentials_available_def split: option.splits)
  then have get: "on_world (api_GetSecret (r_Client (cluster_reconciler b))
      \<lparr>nn_Namespace = pm_Namespace m, nn_Name = cs_Name ref\<rparr>) s = (None, s)"
    by (simp add: cluster_simps kc_GetSecret_def on_world_def)
  let ?set = "setCondition (cluster_reconciler b) m ''DatabaseReachable'' ConditionTrue ''CredentialsFound''
      (''Credentials secret '' @ go_quote (cs_Name ref) @ '' exists'') s"
  obtain m1 s1 where set: "?set = (m1, s1)" by (cases ?set)
  have "validateCredentials (cluster_reconciler b) m s = ((emptyResult, True), m1, s1)"
    unfolding validateCredentials_def Let_def if_not_P [OF False] ref(1) option.case get prod.case set
    by (rule refl)
  then show ?thesis by (rule that [OF _ cluster_setCondition [OF set]])
qed

definition libraries_available :: "PgpilotMonitor \<Rightarrow> cluster \<Rightarrow> PgpilotMetricLibrary list \<Rightarrow> bool" where
  "libraries_available m c libs \<longleftrightarrow>
     list_all2 (\<lambda>ref lib. fst (kc_GetLibrary (library_key (pm_Namespace m) ref) c) = Inr lib)
       (ms_FromLibraries (sp_Metrics (pm_Spec m))) libs"

lemma cluster_resolve_loop:
  assumes "list_all2 (\<lambda>ref lib. fst (kc_GetLibrary (library_key ns ref) (world s)) = Inr lib) refs libs"
  shows "resolve_loop (cluster_reconciler b) ns refs acc s = (Inr (acc @ libs), s)"
  using assms
proof (induction refs libs arbitrary: acc rule: list_all2_induct)
  case (Cons ref refs lib libs)
  have "on_world (api_GetLibrary (r_Client (cluster_reconciler b)) (library_key ns ref)) s = (Inr lib, s)"
    using Cons.hyps(1) by (simp add: cluster_simps kc_GetLibrary_def on_world_def)
  then show ?case by (simp add: Cons.IH)
qed simp

lemma cluster_libraries:
  assumes "libraries_available m (world s) libs"
  shows "resolveLibraries (cluster_reconciler b) m s = (Inr libs, s)"
  using cluster_resolve_loop [OF assms [unfolded libraries_available_def]] assms
  by (auto simp: resolveLibraries_def libraries_available_def Let_def)

section \<open>Applying children\<close>

text \<open>The server stores a request, up to the status it owns.\<close>

definition kc_holds :: "cluster rstate \<Rightarrow> Child \<Rightarrow> bool" where
  "kc_holds s obj \<longleftrightarrow>
     (\<exists>x \<in> set (kc_Children (world s)). same_child x obj \<and> strip_status x = strip_status obj)"

lemma strip_keep_status [simp]: "strip_status (keep_status old obj) = strip_status obj"
  by (cases "(old, obj)" rule: keep_status.cases) simp_all

lemma same_child_keep [simp]: "same_child (keep_status old obj) obj' = same_child obj obj'"
  by (cases "(old, obj)" rule: keep_status.cases) (simp_all add: same_child_def child_name_def)

lemma same_child_refl [simp]: "same_child c c"
  by (simp add: same_child_def)

lemma kc_Patch_children:
  obtains x where "fst (kc_Patch obj c) = None"
    "kc_Children (snd (kc_Patch obj c)) = x # filter (\<lambda>x. \<not> same_child obj x) (kc_Children c)"
    "strip_status x = strip_status obj" "same_child x obj"
  by (cases "find (same_child obj) (kc_Children c)") (auto simp: kc_Patch_def patch_child_def Let_def)

text \<open>The request this server gets for a child that no one owns yet.\<close>

definition cluster_request :: "PgpilotMonitor \<Rightarrow> Child \<Rightarrow> Child" where
  "cluster_request m c =
     set_child_meta ((child_meta c)\<lparr>om_OwnerReferences := [controller_ref m], om_ManagedFields := [],
       om_ResourceVersion := []\<rparr>) c"

lemma cluster_apply:
  assumes c: "om_OwnerReferences (child_meta c) = []" and strip: "strip_status c = c"
  obtains sent s' where "apply_owned (cluster_reconciler b) m what c s = (None, s')"
    "child_request m c sent" "kc_frame s s'" "kc_holds s' sent"
    "\<And>obj. kc_holds s obj \<Longrightarrow> child_kind obj \<noteq> child_kind c \<Longrightarrow> kc_holds s' obj"
    "kc_Children (world s') = patch_child (kc_Children (world s)) (cluster_request m c)"
proof -
  obtain meta where meta: "set_controller_ref m (child_meta c) = Inr meta"
    by (simp add: set_controller_ref_def c)
  have ref: "cl_SetControllerReference (r_Lib (cluster_reconciler b)) m (child_meta c) = Inr meta"
    by (simp add: cluster_reconciler_def kube_lib_def meta)
  define sent where "sent = set_child_meta (meta\<lparr>om_ManagedFields := [], om_ResourceVersion := []\<rparr>) c"
  obtain x where patch: "fst (kc_Patch sent (world s)) = None"
    "kc_Children (snd (kc_Patch sent (world s))) =
       x # filter (\<lambda>x. \<not> same_child sent x) (kc_Children (world s))"
    "strip_status x = strip_status sent" "same_child x sent"
    by (rule kc_Patch_children)
  let ?s' = "(emit (EffApply sent) s)\<lparr>world := snd (kc_Patch sent (world s))\<rparr>"
  have run: "apply_owned (cluster_reconciler b) m what c s = (None, ?s')"
    using patch(1)
    by (auto simp: apply_owned_def ref serverSideApply_def sent_def on_world_def cluster_simps Let_def
        split: prod.split)
  have "sent = cluster_request m c"
    using meta by (simp add: sent_def cluster_request_def set_controller_ref_def c)
  then have children: "kc_Children (world ?s') = patch_child (kc_Children (world s)) (cluster_request m c)"
    by (simp add: kc_Patch_def)
  show ?thesis
  proof (rule that [OF run _ _ _ _ children])
    show "child_request m c sent"
      using controller_refs.ref_owner [OF meta] controller_refs.ref_fields [OF meta]
      by (simp add: child_request_def owned_by_def sent_def)
    have "strip_status sent = sent"
      using strip by (cases c rule: Child.exhaust) (auto simp: sent_def dest: arg_cong [of _ _ dep_ReadyReplicas])
    from kc_Patch_replicas [OF this] show "kc_frame s ?s'"
      by (simp add: kc_frame_def) (simp add: kc_Patch_def patch_child_def Let_def)
    show "kc_holds ?s' sent" using patch by (auto simp: kc_holds_def)
    show "kc_holds ?s' obj" if "kc_holds s obj" "child_kind obj \<noteq> child_kind c" for obj
    proof -
      obtain y where y: "y \<in> set (kc_Children (world s))" "same_child y obj" "strip_status y = strip_status obj"
        using \<open>kc_holds s obj\<close> by (auto simp: kc_holds_def)
      have "\<not> same_child sent y" using y(2) that(2) by (simp add: same_child_def sent_def)
      with y patch(2) show ?thesis by (auto simp: kc_holds_def)
    qed
  qed
qed

text \<open>A Deployment that is held is found under its name.\<close>

lemma kc_deployments_set: "d \<in> set (kc_deployments cs) \<longleftrightarrow> ChildDeployment d \<in> set cs"
  by (induction cs rule: kc_deployments.induct) auto

lemma cluster_deployment:
  assumes "kc_holds s (ChildDeployment d)"
  obtains dep where "fst (kc_GetDeployment (deployment_name d) (world s)) = Inr dep"
proof -
  obtain x where x: "x \<in> set (kc_Children (world s))" "same_child x (ChildDeployment d)"
    using assms by (auto simp: kc_holds_def)
  then obtain d' where "x = ChildDeployment d'"
    by (cases x rule: Child.exhaust) (auto simp: same_child_def)
  with x have "d' \<in> set (kc_deployments (kc_Children (world s)))" "deployment_name d' = deployment_name d"
    by (simp_all add: kc_deployments_set same_child_def child_name_def deployment_name_def)
  then have "find (\<lambda>y. deployment_name y = deployment_name d) (kc_deployments (kc_Children (world s))) \<noteq> None"
    by (auto simp: find_None_iff)
  then show ?thesis using that by (auto simp: kc_GetDeployment_def kc_find_def)
qed

section \<open>Storing the status\<close>

text \<open>The server holds one monitor under each key.\<close>

definition kc_wf :: "cluster \<Rightarrow> bool" where
  "kc_wf c \<longleftrightarrow> distinct (map monitor_key (kc_Monitors c))"

lemma kc_GetMonitor_iff:
  "fst (kc_GetMonitor k c) = Inr m \<longleftrightarrow> find (\<lambda>x. monitor_key x = k) (kc_Monitors c) = Some m"
  by (auto simp: kc_GetMonitor_def kc_find_def split: option.split)

lemma kc_GetMonitor_key: "fst (kc_GetMonitor k c) = Inr m \<Longrightarrow> monitor_key m = k"
  by (auto simp: kc_GetMonitor_iff find_Some_iff)

text \<open>A monitor whose status was stored differs in its resource version; the rest of the server did not change.\<close>

definition rewritten :: "PgpilotMonitor \<Rightarrow> PgpilotMonitor \<Rightarrow> bool" where
  "rewritten m m' \<longleftrightarrow> (pm_Meta m')\<lparr>om_ResourceVersion := []\<rparr> = (pm_Meta m)\<lparr>om_ResourceVersion := []\<rparr>
     \<and> pm_Spec m' = pm_Spec m"

definition kc_surroundings :: "cluster rstate \<Rightarrow> cluster rstate \<Rightarrow> bool" where
  "kc_surroundings s s' \<longleftrightarrow>
     kc_Libraries (world s') = kc_Libraries (world s) \<and> kc_Secrets (world s') = kc_Secrets (world s)"

lemma kc_surroundings_trans: "kc_surroundings s s' \<Longrightarrow> kc_surroundings s' s'' \<Longrightarrow> kc_surroundings s s''"
  by (simp add: kc_surroundings_def)

lemma kc_frame_surroundings: "kc_frame s s' \<Longrightarrow> kc_surroundings s s'"
  by (simp add: kc_surroundings_def kc_frame_fields)

lemma rewritten_fields:
  assumes "rewritten m m'"
  shows "pm_Name m' = pm_Name m" "pm_Namespace m' = pm_Namespace m" "pm_Spec m' = pm_Spec m"
    "om_UID (pm_Meta m') = om_UID (pm_Meta m)" "om_DeletionTimestamp (pm_Meta m') = om_DeletionTimestamp (pm_Meta m)"
    "om_Finalizers (pm_Meta m') = om_Finalizers (pm_Meta m)" "om_Generation (pm_Meta m') = om_Generation (pm_Meta m)"
  using assms unfolding rewritten_def by (cases "pm_Meta m", cases "pm_Meta m'", simp)+

text \<open>With nobody else writing, the status update goes through at the first attempt.\<close>

lemma cluster_patchStatus:
  assumes cur: "fst (kc_GetMonitor (monitor_key m) (world s)) = Inr cur"
    and live: "om_DeletionTimestamp (pm_Meta cur) = None"
  obtains s' stored where "patchStatus (cluster_reconciler b) m s = (None, s')"
    "fst (kc_GetMonitor (monitor_key m) (world s')) = Inr stored"
    "pm_Status stored = pm_Status m" "pm_Spec stored = pm_Spec cur"
    "kc_Children (world s') = kc_Children (world s)" "rewritten cur stored" "kc_surroundings s s'"
    "status_written s' (pm_Status stored)"
proof -
  let ?latest = "cur\<lparr>pm_Status := pm_Status m\<rparr>"
  let ?w = "snd (kc_put_monitor ?latest (world s))"
  let ?s' = "(emit (EffStatus ?latest) s)\<lparr>world := ?w\<rparr>"
  have key: "monitor_key cur = monitor_key m" by (rule kc_GetMonitor_key [OF cur])
  have get: "on_world (kc_GetMonitor (monitor_key m)) s = (Inr cur, s)"
    using cur by (simp add: on_world_def kc_GetMonitor_def)
  have key': "monitor_key ?latest = monitor_key m" using key by (simp add: monitor_key_def)
  have upd: "kc_UpdateMonitorStatus ?latest (world s) = (None, ?w)"
    unfolding kc_UpdateMonitorStatus_def key' cur by simp
  have "on_world (kc_UpdateMonitorStatus ?latest) (emit (EffStatus ?latest) s) = (None, ?s')"
    by (simp add: on_world_def upd)
  then have "patchStatus_attempt (cluster_reconciler b) m s = (None, ?s')"
    by (simp add: patchStatus_attempt_def cluster_simps get Let_def)
  then have run: "patchStatus (cluster_reconciler b) m s = (None, ?s')"
    by (simp add: patchStatus_def cluster_simps eval_nat_numeral)
  let ?stored = "set_meta ?latest ((pm_Meta cur)\<lparr>om_ResourceVersion := utoa (Suc (kc_Revision (world s)))\<rparr>)"
  have stored: "fst (kc_GetMonitor (monitor_key m) ?w) = Inr ?stored"
    using key live by (simp add: kc_GetMonitor_def kc_find_def kc_put_monitor_def Let_def set_meta_def monitor_key_def)
  show ?thesis
    by (rule that [OF run, of ?stored])
       (simp_all add: stored, simp_all add: set_meta_def kc_put_monitor_def Let_def rewritten_def kc_surroundings_def
          status_written_def)
qed

section \<open>Delivery\<close>

text \<open>The cluster holds the request for a child of the monitor.\<close>

definition delivered :: "PgpilotMonitor \<Rightarrow> cluster rstate \<Rightarrow> Child \<Rightarrow> bool" where
  "delivered m s c \<longleftrightarrow> (\<exists>sent. child_request m c sent \<and> kc_holds s sent)"

lemma child_request_kind: "child_request m c sent \<Longrightarrow> child_kind sent = child_kind c"
  by (metis child_kind_set child_request_def)

lemma delivered_ignore_status:
  assumes "pm_Meta m' = pm_Meta m"
  shows "delivered m' = delivered m"
  unfolding delivered_def [abs_def] child_request_ignore_status [OF assms] by (rule refl)

lemma delivered_children:
  "kc_Children (world s') = kc_Children (world s) \<Longrightarrow> delivered m s' = delivered m s"
  by (simp add: delivered_def [abs_def] kc_holds_def)

lemma cluster_deliver:
  assumes "om_OwnerReferences (child_meta c) = []" "strip_status c = c"
  obtains s' where "apply_owned (cluster_reconciler b) m what c s = (None, s')" "kc_frame s s'"
    "delivered m s' c" "\<And>c'. delivered m s c' \<Longrightarrow> child_kind c' \<noteq> child_kind c \<Longrightarrow> delivered m s' c'"
    "kc_Children (world s') = patch_child (kc_Children (world s)) (cluster_request m c)"
proof (rule cluster_apply [OF assms, of b m what s])
  fix sent s'
  assume run: "apply_owned (cluster_reconciler b) m what c s = (None, s')"
    and req: "child_request m c sent" and frame: "kc_frame s s'" and holds: "kc_holds s' sent"
    and keep: "\<And>obj. kc_holds s obj \<Longrightarrow> child_kind obj \<noteq> child_kind c \<Longrightarrow> kc_holds s' obj"
    and children: "kc_Children (world s') = patch_child (kc_Children (world s)) (cluster_request m c)"
  show thesis
  proof (rule that [OF run frame _ _ children])
    show "delivered m s' c" using req holds by (auto simp: delivered_def)
    show "delivered m s' c'" if "delivered m s c'" "child_kind c' \<noteq> child_kind c" for c'
      using that keep child_request_kind unfolding delivered_def by metis
  qed
qed

lemma cluster_config:
  assumes cm: "BuildConfigMap canon_yaml m merged = Inr (cm, h)"
  obtains m1 s1 where "reconcile_config (cluster_reconciler b) m merged s = (Inr (m1, h), s1)"
    "config_recorded m h m1" "kc_frame s s1" "delivered m s1 (ChildConfigMap cm)"
    "kc_Children (world s1) = patch_child (kc_Children (world s)) (cluster_request m (ChildConfigMap cm))"
proof -
  have own: "om_OwnerReferences (child_meta (ChildConfigMap cm)) = []"
    using BuildConfigMap_shape(4) [OF cm] by simp
  obtain s0 where ap: "apply_owned (cluster_reconciler b) m ''reconcile configmap'' (ChildConfigMap cm) s = (None, s0)"
    and frame: "kc_frame s s0" and del: "delivered m s0 (ChildConfigMap cm)"
    and children: "kc_Children (world s0) = patch_child (kc_Children (world s)) (cluster_request m (ChildConfigMap cm))"
    by (rule cluster_deliver [OF own strip_status.simps(2)])
  have hash: "slice12 h = Some (take 12 h)"
    using BuildConfigMap_shape(5) [OF cm] by (simp add: slice12_hash)
  define msg where "msg = ''ConfigMap '' @ om_Name (cm_Meta cm) @ '' up to date (hash='' @ take 12 h @ '')''"
  let ?set = "setCondition (cluster_reconciler b) m ''ConfigGenerated'' ConditionTrue ''ConfigMapUpdated'' msg s0"
  obtain m1 s1 where set: "?set = (m1, s1)" by (cases ?set)
  have idle: "kc_idle s0 s1" by (rule cluster_setCondition [OF set])
  note only = setCondition_only [OF set]
  have run: "reconcile_config (cluster_reconciler b) m merged s =
      (if st_ConfigHash (pm_Status m1) \<noteq> h
       then (Inr (m1\<lparr>pm_Status := (pm_Status m1)\<lparr>st_ConfigHash := h\<rparr>\<rparr>, h),
             recordEvent EventTypeNormal ''ConfigMapUpdated''
               (''ConfigMap '' @ om_Name (cm_Meta cm) @ '' reconciled (hash='' @ take 12 h @ '')'') s1)
       else (Inr (m1, h), s1))"
    unfolding reconcile_config_def cluster_simps cm sum.case prod.case ap option.case hash
      msg_def [symmetric] set Let_def by (rule refl)
  have rec: "config_recorded m h (m1\<lparr>pm_Status := (pm_Status m1)\<lparr>st_ConfigHash := h\<rparr>\<rparr>)"
    using conditions_only_meta [OF only] conditions_only_spec [OF only] conditions_only_status(1) [OF only]
    by (simp add: config_recorded_def)
  have frame1: "kc_frame s s1" by (rule kc_frame_trans [OF frame kc_idle_frame [OF idle]])
  have del1: "delivered m s1 (ChildConfigMap cm)"
    using del delivered_children [OF kc_idle_fields(4) [OF idle]] by simp
  have children1: "kc_Children (world s1) = patch_child (kc_Children (world s)) (cluster_request m (ChildConfigMap cm))"
    using children kc_idle_fields(4) [OF idle] by simp
  show ?thesis
  proof (cases "st_ConfigHash (pm_Status m1) = h")
    case True
    then have "m1\<lparr>pm_Status := (pm_Status m1)\<lparr>st_ConfigHash := h\<rparr>\<rparr> = m1" by simp
    with run True rec frame1 del1 children1 show ?thesis by (intro that [of m1 s1]) simp_all
  next
    case False
    let ?s2 = "recordEvent EventTypeNormal ''ConfigMapUpdated''
        (''ConfigMap '' @ om_Name (cm_Meta cm) @ '' reconciled (hash='' @ take 12 h @ '')'') s1"
    have "kc_idle s1 ?s2" by simp
    moreover have "kc_Children (world ?s2) = kc_Children (world s1)" by (simp add: recordEvent_def)
    ultimately show ?thesis
      using run False rec kc_frame_trans [OF frame1 kc_idle_frame] del1
        delivered_children [OF kc_idle_fields(4), of s1 ?s2] children1
      by (intro that [of "m1\<lparr>pm_Status := (pm_Status m1)\<lparr>st_ConfigHash := h\<rparr>\<rparr>" ?s2]) simp_all
  qed
qed

lemma cluster_workloads:
  assumes dep: "BuildDeployment m merged h = Some dep"
  obtains s' where "reconcile_workloads (cluster_reconciler b) m merged h s = (None, s')" "kc_frame s s'"
    "\<forall>c \<in> set (workload_children b m dep). delivered m s' c"
    "\<And>c. delivered m s c \<Longrightarrow> child_kind c = KConfigMap \<Longrightarrow> delivered m s' c"
    "kc_Children (world s') =
       foldl patch_child (kc_Children (world s)) (map (cluster_request m) (workload_children b m dep))"
proof -
  let ?r = "cluster_reconciler b"
  have own: "om_OwnerReferences (child_meta (ChildDeployment dep)) = []"
      "om_OwnerReferences (child_meta (ChildService (BuildService m))) = []"
      "om_OwnerReferences (child_meta (ChildServiceMonitor (BuildServiceMonitor m))) = []"
    using dep by (auto simp: BuildDeployment_def BuildService_def BuildServiceMonitor_def Let_def
        emptyMeta_def split: option.splits)
  have strip: "strip_status (ChildDeployment dep) = ChildDeployment dep"
    using dep by (auto simp: BuildDeployment_def Let_def split: option.splits)
  obtain s1 where r1: "apply_owned ?r m ''reconcile deployment'' (ChildDeployment dep) s = (None, s1)"
    and f1: "kc_frame s s1" and d1: "delivered m s1 (ChildDeployment dep)"
    and k1: "\<And>c. delivered m s c \<Longrightarrow> child_kind c \<noteq> child_kind (ChildDeployment dep) \<Longrightarrow> delivered m s1 c"
    and c1: "kc_Children (world s1) = patch_child (kc_Children (world s)) (cluster_request m (ChildDeployment dep))"
    by (rule cluster_deliver [OF own(1) strip]) blast
  obtain s2 where r2: "apply_owned ?r m ''reconcile service'' (ChildService (BuildService m)) s1 = (None, s2)"
    and f2: "kc_frame s1 s2" and d2: "delivered m s2 (ChildService (BuildService m))"
    and k2: "\<And>c. delivered m s1 c \<Longrightarrow> child_kind c \<noteq> child_kind (ChildService (BuildService m)) \<Longrightarrow> delivered m s2 c"
    and c2: "kc_Children (world s2) = patch_child (kc_Children (world s1)) (cluster_request m (ChildService (BuildService m)))"
    by (rule cluster_deliver [OF own(2) strip_status.simps(3)]) blast
  show ?thesis
  proof (cases b)
    case False
    have run: "reconcile_workloads ?r m merged h s = (None, s2)"
      unfolding reconcile_workloads_def dep option.case r1 prod.case r2 cluster_simps by (simp add: False)
    show ?thesis
    proof (rule that [OF run kc_frame_trans [OF f1 f2]])
      show "\<forall>c \<in> set (workload_children b m dep). delivered m s2 c"
        using k2 [OF d1] d2 False by (simp add: workload_children_def)
      show "delivered m s2 c" if "delivered m s c" "child_kind c = KConfigMap" for c
        using k2 [OF k1 [OF that(1)]] that(2) by simp
    qed (simp add: c1 c2 False workload_children_def)
  next
    case True
    obtain s3 where r3: "apply_owned ?r m ''reconcile servicemonitor''
          (ChildServiceMonitor (BuildServiceMonitor m)) s2 = (None, s3)"
      and f3: "kc_frame s2 s3" and d3: "delivered m s3 (ChildServiceMonitor (BuildServiceMonitor m))"
      and k3: "\<And>c. delivered m s2 c \<Longrightarrow> child_kind c \<noteq> child_kind (ChildServiceMonitor (BuildServiceMonitor m))
          \<Longrightarrow> delivered m s3 c"
      and c3: "kc_Children (world s3) =
        patch_child (kc_Children (world s2)) (cluster_request m (ChildServiceMonitor (BuildServiceMonitor m)))"
      by (rule cluster_deliver [OF own(3) strip_status.simps(4)]) blast
    have run: "reconcile_workloads ?r m merged h s = (None, s3)"
      unfolding reconcile_workloads_def dep option.case r1 prod.case r2 r3 cluster_simps by (simp add: True)
    show ?thesis
    proof (rule that [OF run kc_frame_trans [OF kc_frame_trans [OF f1 f2] f3]])
      show "\<forall>c \<in> set (workload_children b m dep). delivered m s3 c"
        using k3 [OF k2 [OF d1]] k3 [OF d2] d3 True by (simp add: workload_children_def)
      show "delivered m s3 c" if "delivered m s c" "child_kind c = KConfigMap" for c
        using k3 [OF k2 [OF k1 [OF that(1)]]] that(2) by simp
    qed (simp add: c1 c2 c3 True workload_children_def)
  qed
qed

section \<open>The status step and the whole reconcile\<close>

lemma cluster_status:
  assumes dep: "fst (kc_GetDeployment \<lparr>nn_Namespace = pm_Namespace m, nn_Name = ResourceName (pm_Name m)\<rparr>
      (world s)) = Inr dep"
    and cur: "fst (kc_GetMonitor (monitor_key m) (world s)) = Inr cur"
    and live: "om_DeletionTimestamp (pm_Meta cur) = None"
  obtains ready s' stored where
    "reconcile_status (cluster_reconciler b) m s = (Done (if ready then emptyResult else requeue_seconds 15) None, s')"
    "ready = (0 < sint (dep_ReadyReplicas dep))"
    "fst (kc_GetMonitor (monitor_key m) (world s')) = Inr stored" "pm_Spec stored = pm_Spec cur"
    "status_reported m ready (pm_Status stored)"
    "kc_Children (world s') = kc_Children (world s)" "rewritten cur stored" "kc_surroundings s s'"
    "status_written s' (pm_Status stored)"
proof -
  let ?r = "cluster_reconciler b"
  define ready where "ready = (0 < sint (dep_ReadyReplicas dep))"
  have get: "on_world (kc_GetDeployment \<lparr>nn_Namespace = pm_Namespace m, nn_Name = ResourceName (pm_Name m)\<rparr>) s
      = (Inr dep, s)"
    using dep by (simp add: on_world_def kc_GetDeployment_def)
  obtain now s1 where now: "on_world kc_Now s = (now, s1)" by (cases "on_world kc_Now s")
  have idle1: "kc_idle s s1" using now by (auto simp: on_world_def kc_Now_def kc_idle_def)
  define m1 where "m1 = m\<lparr>pm_Status := (pm_Status m)\<lparr>st_Ready := ready,
      st_ObservedGeneration := om_Generation (pm_Meta m), st_LastReconciled := Some now\<rparr>\<rparr>"
  obtain m2 s2 where tr: "ready_transition ?r m1 (st_Ready (pm_Status m)) ready s1 = (m2, s2)"
    by (cases "ready_transition ?r m1 (st_Ready (pm_Status m)) ready s1")
  have idle2: "kc_idle s1 s2"
    using tr by (auto simp: ready_transition_def Let_def split: if_splits prod.splits dest: cluster_setCondition)
  obtain m3 s3 where pod: "find_pod ?r m2 s2 = (m3, s3)" by (cases "find_pod ?r m2 s2")
  have idle3: "kc_idle s2 s3"
    using pod by (auto simp: find_pod_def cluster_simps on_world_def kc_ListPods_def split: list.splits)
  note tr_facts = ready_transition_facts [OF cluster.condition_ok tr]
  note pod_facts = find_pod_facts [OF pod]
  have key: "monitor_key m3 = monitor_key m"
    using pod_facts(2) conditions_only_meta [OF tr_facts(1)] by (auto simp: monitor_key_def m1_def)
  have same: "kc_Monitors (world s3) = kc_Monitors (world s)" "kc_Children (world s3) = kc_Children (world s)"
    using kc_idle_fields [OF kc_idle_trans [OF kc_idle_trans [OF idle1 idle2] idle3]] by simp_all
  have around3: "kc_surroundings s s3"
    by (rule kc_frame_surroundings [OF kc_idle_frame [OF kc_idle_trans [OF kc_idle_trans [OF idle1 idle2] idle3]]])
  have cur3: "fst (kc_GetMonitor (monitor_key m3) (world s3)) = Inr cur"
    using cur by (simp add: kc_GetMonitor_iff same key)
  obtain s4 stored where patch: "patchStatus ?r m3 s3 = (None, s4)"
    and stored: "fst (kc_GetMonitor (monitor_key m3) (world s4)) = Inr stored"
      "pm_Status stored = pm_Status m3" "pm_Spec stored = pm_Spec cur"
      "kc_Children (world s4) = kc_Children (world s3)" "rewritten cur stored" "kc_surroundings s3 s4"
      "status_written s4 (pm_Status stored)"
    by (rule cluster_patchStatus [OF cur3 live])
  have "status_reported m ready (pm_Status m3)"
    using pod_facts(2) conditions_only_status [OF tr_facts(1)] tr_facts(4,5)
    by (auto simp: status_reported_def m1_def ready_content_def)
  moreover have "reconcile_status ?r m s = (Done (if ready then emptyResult else requeue_seconds 15) None, s4)"
    unfolding reconcile_status_def cluster_simps get prod.case sum.case Let_def now
      ready_def [symmetric] m1_def [symmetric] tr pod patch option.case by (rule refl)
  ultimately show ?thesis
    using stored key same(2) kc_surroundings_trans [OF around3 stored(6)]
    by (intro that [of ready s4 stored]) (simp_all add: ready_def)
qed

text \<open>What has to be in place for a reconcile of \<open>m\<close> to go through.\<close>

definition reconcilable :: "NamespacedName \<Rightarrow> PgpilotMonitor \<Rightarrow> PgpilotMetricLibrary list \<Rightarrow> cluster \<Rightarrow> bool" where
  "reconcilable req m libs c \<longleftrightarrow>
     fst (kc_GetMonitor req c) = Inr m
     \<and> om_DeletionTimestamp (pm_Meta m) = None
     \<and> finalizerName \<in> set (om_Finalizers (pm_Meta m))
     \<and> credentials_available m c
     \<and> libraries_available m c libs"

lemma cluster_reconcile:
  assumes rec: "reconcilable req m libs (world s)"
    and cm: "BuildConfigMap canon_yaml m (merged_of m libs) = Inr (cm, h)"
  obtains ready s' stored cs where
    "ready = (0 < sint (kc_replicas \<lparr>nn_Namespace = pm_Namespace m, nn_Name = ResourceName (pm_Name m)\<rparr> (world s)))"
    "Reconcile (cluster_reconciler b) req s = (Done (if ready then emptyResult else requeue_seconds 15) None, s')"
    "desired_children b canon_yaml m libs = Some cs" "\<forall>c \<in> set cs. delivered m s' c"
    "fst (kc_GetMonitor req (world s')) = Inr stored" "pm_Spec stored = pm_Spec m"
    "status_final m h ready (pm_Status stored)"
    "kc_Children (world s') = foldl patch_child (kc_Children (world s)) (map (cluster_request m) cs)"
    "rewritten m stored" "kc_surroundings s s'" "status_written s' (pm_Status stored)"
    "\<And>k. kc_replicas k (world s') = kc_replicas k (world s)"
proof -
  let ?r = "cluster_reconciler b" and ?merged = "merged_of m libs"
  have cur: "fst (kc_GetMonitor req (world s)) = Inr m" and live: "om_DeletionTimestamp (pm_Meta m) = None"
    and fin: "cl_ContainsFinalizer (r_Lib ?r) (pm_Meta m) finalizerName"
    and creds: "credentials_available m (world s)" and libs: "libraries_available m (world s) libs"
    using rec by (simp_all add: reconcilable_def cluster_reconciler_def kube_lib_def)
  have req: "req = monitor_key m" using kc_GetMonitor_key [OF cur] by simp
  obtain res m1 s1 where val: "validateCredentials ?r m s = ((res, True), m1, s1)" and idle: "kc_idle s s1"
    using creds by (rule cluster_credentials)
  note only = validateCredentials_only [OF val]
  note meta1 = conditions_only_meta [OF only] and spec1 = conditions_only_spec [OF only]
  have lib: "resolveLibraries ?r m1 s1 = (Inr libs, s1)"
    using libs kc_idle_fields(2) [OF idle]
    by (intro cluster_libraries) (simp add: libraries_available_def kc_GetLibrary_def meta1 spec1)
  obtain m2 s2 where config: "reconcile_config ?r m1 ?merged s1 = (Inr (m2, h), s2)"
    and rec2: "config_recorded m1 h m2" and frame2: "kc_frame s1 s2" and del2: "delivered m1 s2 (ChildConfigMap cm)"
    and c2: "kc_Children (world s2) = patch_child (kc_Children (world s1)) (cluster_request m1 (ChildConfigMap cm))"
    using cm unfolding BuildConfigMap_ignore_status [OF meta1 spec1, symmetric] by (rule cluster_config)
  have meta2: "pm_Meta m2 = pm_Meta m" and spec2: "pm_Spec m2 = pm_Spec m"
    using rec2 meta1 spec1 by (simp_all add: config_recorded_def)
  have "buildEnvVars m \<noteq> None" by (rule validateCredentials_ok [OF val])
  then obtain dep where dep: "BuildDeployment m ?merged h = Some dep"
    by (auto simp: BuildDeployment_def Let_def)
  obtain s3 where work: "reconcile_workloads ?r m2 ?merged h s2 = (None, s3)" and frame3: "kc_frame s2 s3"
    and del3: "\<forall>c \<in> set (workload_children b m2 dep). delivered m2 s3 c"
      "\<And>c. delivered m2 s2 c \<Longrightarrow> child_kind c = KConfigMap \<Longrightarrow> delivered m2 s3 c"
    and c3: "kc_Children (world s3) =
      foldl patch_child (kc_Children (world s2)) (map (cluster_request m2) (workload_children b m2 dep))"
    using dep unfolding BuildDeployment_ignore_status [OF meta2 spec2, symmetric] by (rule cluster_workloads) blast
  note del = delivered_ignore_status [OF meta1] delivered_ignore_status [OF meta2]
    workload_children_ignore_status [OF meta2 spec2]
  have desired: "desired_children b canon_yaml m libs = Some ([ChildConfigMap cm] @ workload_children b m dep)"
    by (rule desired_children_Some [OF cm dep])
  have all3: "\<forall>c \<in> set ([ChildConfigMap cm] @ workload_children b m dep). delivered m s3 c"
    using del3(1) del3(2) [of "ChildConfigMap cm"] del2 by (simp add: del)
  have frame: "kc_frame s s3" by (rule kc_frame_trans [OF kc_idle_frame [OF idle] kc_frame_trans [OF frame2 frame3]])
  have key2: "monitor_key m2 = req" by (simp add: req monitor_key_def meta2)
  have cur3: "fst (kc_GetMonitor (monitor_key m2) (world s3)) = Inr m"
    using cur unfolding key2 kc_GetMonitor_iff kc_frame_fields [OF frame] .
  have "delivered m s3 (ChildDeployment dep)" using all3 by (simp add: workload_children_def)
  then obtain sent where sent: "child_request m (ChildDeployment dep) sent" "kc_holds s3 sent"
    by (auto simp: delivered_def)
  have names: "om_Name (dep_Meta dep) = ResourceName (pm_Name m)" "om_Namespace (dep_Meta dep) = pm_Namespace m"
    by (rule BuildDeployment_Some [OF dep], assumption)+
  obtain d where d: "sent = ChildDeployment d" "om_Name (dep_Meta d) = ResourceName (pm_Name m)"
      "om_Namespace (dep_Meta d) = pm_Namespace m"
    using sent(1) names by (cases sent rule: Child.exhaust) (simp_all add: child_request_def)
  obtain cdep where "fst (kc_GetDeployment (deployment_name d) (world s3)) = Inr cdep"
    using sent(2) unfolding d(1) by (rule cluster_deployment)
  then have cdep: "fst (kc_GetDeployment \<lparr>nn_Namespace = pm_Namespace m2, nn_Name = ResourceName (pm_Name m2)\<rparr>
      (world s3)) = Inr cdep"
    by (simp add: deployment_name_def d meta2)
  obtain ready s4 stored where status:
    "reconcile_status ?r m2 s3 = (Done (if ready then emptyResult else requeue_seconds 15) None, s4)"
    and ready: "ready = (0 < sint (dep_ReadyReplicas cdep))"
    and stored: "fst (kc_GetMonitor (monitor_key m2) (world s4)) = Inr stored" "pm_Spec stored = pm_Spec m"
      "status_reported m2 ready (pm_Status stored)" "kc_Children (world s4) = kc_Children (world s3)"
      "rewritten m stored" "kc_surroundings s3 s4"
      "status_written s4 (pm_Status stored)"
    using cdep cur3 live by (rule cluster_status)
  have run: "Reconcile ?r req s = (Done (if ready then emptyResult else requeue_seconds 15) None, s4)"
  proof -
    have get: "on_world (kc_GetMonitor req) s = (Inr m, s)" using cur by (simp add: on_world_def kc_GetMonitor_def)
    have zero: "timestamp_IsZero (om_DeletionTimestamp (pm_Meta m))" by (simp add: live timestamp_IsZero_def)
    have "reconcile_merged ?r m1 libs s1 = reconcile_status ?r m2 s3"
      unfolding reconcile_merged_def spec1 Let_def config work prod.case sum.case option.case by (rule refl)
    then have "reconcile_spec ?r m s = reconcile_status ?r m2 s3"
      by (simp add: reconcile_spec_def val lib)
    then have "Reconcile ?r req s = reconcile_status ?r m2 s3"
      by (simp add: Reconcile_def cluster_simps get ensure_finalizer_def zero fin)
    then show ?thesis by (simp only: status)
  qed
  let ?key = "\<lparr>nn_Namespace = pm_Namespace m, nn_Name = ResourceName (pm_Name m)\<rparr>"
  have "kc_replicas ?key (world s) = kc_replicas ?key (world s3)" by (simp only: kc_frame_replicas [OF frame])
  also have "\<dots> = dep_ReadyReplicas cdep" using cdep by (simp add: kc_replicas_def meta2)
  finally have replicas: "kc_replicas ?key (world s) = dep_ReadyReplicas cdep" .
  have around: "kc_surroundings s s4"
    by (rule kc_surroundings_trans [OF kc_frame_surroundings [OF frame] stored(6)])
  have requests: "cluster_request m1 = cluster_request m" "cluster_request m2 = cluster_request m"
    by (simp_all add: cluster_request_def [abs_def] controller_ref_def meta1 meta2)
  have children: "kc_Children (world s4) =
      foldl patch_child (kc_Children (world s)) (map (cluster_request m) ([ChildConfigMap cm] @ workload_children b m dep))"
    by (simp add: stored(4) c3 c2 requests kc_idle_fields(4) [OF idle] workload_children_ignore_status [OF meta2 spec2])
  have counted: "kc_replicas k (world s4) = kc_replicas k (world s)" for k
    using kc_frame_replicas [OF frame] stored(4) by (simp add: kc_replicas_def kc_GetDeployment_def)
  show ?thesis
  proof (rule that [OF ready [folded replicas] run desired _ _ _ _ children stored(5) around stored(7) counted])
    show "\<forall>c \<in> set ([ChildConfigMap cm] @ workload_children b m dep). delivered m s4 c"
      using all3 by (simp only: delivered_children [OF stored(4)])
    show "status_final m h ready (pm_Status stored)"
      using status_reported_final [OF rec2 stored(3)] unfolding status_final_def ready_content_def meta1 .
  qed (use stored key2 in simp_all)
qed

end
