(* ===== verification/Scenario.thy ===== *)
theory Scenario
  imports ClusterFacts
begin

text \<open>
  A concrete monitor \<open>orders\<close> with one metric library, and a cluster that holds them with the
  credentials Secret and a ready Deployment: the input the theorems are run on.
\<close>

definition orders_lib :: PgpilotMetricLibrary where
  "orders_lib =
     \<lparr>lib_Meta = emptyMeta\<lparr>om_Name := ''app'', om_Namespace := ''prod'', om_Generation := 2\<rparr>,
      lib_Spec = \<lparr>ls_Metrics =
        [\<lparr>md_Name = ''queue'', md_Description = ''queue depth'', md_Interval = Some 30000000000,
          md_SQLs = [(''14'', ''select 2'')], md_Gauges = [''*''], md_StatementTimeoutSeconds = 5,
          md_MasterOnly = True, md_StandbyOnly = False, md_IsInstanceLevel = False\<rparr>]\<rparr>,
      lib_Status = \<lparr>lst_ObservedGeneration = 0, lst_Conditions = []\<rparr>\<rparr>"

definition orders_database :: DatabaseRef where
  "orders_database =
     \<lparr>db_Host = ''db.prod'', db_Port = 5432, db_Database = ''orders'', db_SSLMode = ''require'',
      db_Username = [], db_Password = [],
      db_CredentialsSecret = Some \<lparr>cs_Name = ''creds'', cs_UsernameKey = [], cs_PasswordKey = ''pw''\<rparr>,
      db_CustomTags = [(''env'', ''prod'')]\<rparr>"

definition orders_spec :: PgpilotMonitorSpec where
  "orders_spec =
     \<lparr>sp_Database = orders_database,
      sp_Metrics = \<lparr>ms_Preset = ''basic'', ms_FromLibraries = [\<lparr>lr_Name = ''app''\<rparr>], ms_Custom = []\<rparr>,
      sp_Sinks = \<lparr>ss_Prometheus = Some \<lparr>ps_Enabled = True, ps_Port = 9187\<rparr>, ss_GRPC = None\<rparr>,
      sp_Resources = \<lparr>rr_Limits = [], rr_Requests = []\<rparr>,
      sp_Image = \<lparr>im_Repository = [], im_Tag = [], im_PullPolicy = []\<rparr>,
      sp_PodMetadata = \<lparr>mo_Labels = [(''team'', ''pay'')], mo_Annotations = []\<rparr>,
      sp_ServiceMetadata = \<lparr>mo_Labels = [], mo_Annotations = []\<rparr>\<rparr>"

text \<open>What a user submits to get it: most fields are left to their defaults.\<close>

definition orders_submitted :: jMonitorSpec where
  "orders_submitted =
     \<lparr>jsp_database = \<lparr>jdb_host = ''db.prod'', jdb_port = None, jdb_database = ''orders'',
        jdb_sslmode = Some ''require'', jdb_username = None, jdb_password = None,
        jdb_credentialsSecret = Some \<lparr>jcs_name = ''creds'', jcs_usernameKey = Some [], jcs_passwordKey = Some ''pw''\<rparr>,
        jdb_customTags = Some [(''env'', ''prod'')]\<rparr>,
      jsp_metrics = sp_Metrics orders_spec,
      jsp_sinks = \<lparr>jss_prometheus = Some \<lparr>jps_enabled = None, jps_port = None\<rparr>, jss_grpc = None\<rparr>,
      jsp_resources = sp_Resources orders_spec,
      jsp_image = None,
      jsp_podMetadata = sp_PodMetadata orders_spec,
      jsp_serviceMetadata = sp_ServiceMetadata orders_spec\<rparr>"

definition orders :: PgpilotMonitor where
  "orders =
     \<lparr>pm_Meta = emptyMeta\<lparr>om_Name := ''orders'', om_Namespace := ''prod'', om_UID := ''u1'',
        om_Finalizers := [finalizerName], om_Generation := 3, om_ResourceVersion := ''7''\<rparr>,
      pm_Spec = orders_spec,
      pm_Status = \<lparr>st_Ready = False, st_PodName = [], st_ObservedGeneration = 0, st_ConfigHash = [],
        st_LastReconciled = None, st_Conditions = []\<rparr>\<rparr>"

definition orders_key :: NamespacedName where
  "orders_key = \<lparr>nn_Namespace = ''prod'', nn_Name = ''orders''\<rparr>"

definition orders_cluster :: cluster where
  "orders_cluster =
     \<lparr>kc_Monitors = [orders], kc_Libraries = [orders_lib],
      kc_Secrets = [\<lparr>nn_Namespace = ''prod'', nn_Name = ''creds''\<rparr>],
      kc_Children = [], kc_Pods = [(''prod'', SystemLabels ''orders'', ''orders-0'')],
      kc_Revision = 7, kc_Clock = 1\<rparr>"

definition orders_state :: "cluster rstate" where
  "orders_state = \<lparr>world = orders_cluster, journal = []\<rparr>"

lemma orders_simps [simp]:
  "pm_Meta orders = emptyMeta\<lparr>om_Name := ''orders'', om_Namespace := ''prod'', om_UID := ''u1'',
     om_Finalizers := [finalizerName], om_Generation := 3, om_ResourceVersion := ''7''\<rparr>"
  "pm_Spec orders = orders_spec"
  "sp_Database orders_spec = orders_database"
  "sp_Metrics orders_spec = \<lparr>ms_Preset = ''basic'', ms_FromLibraries = [\<lparr>lr_Name = ''app''\<rparr>], ms_Custom = []\<rparr>"
  "db_Username orders_database = []" "db_Password orders_database = []"
  "db_CredentialsSecret orders_database =
     Some \<lparr>cs_Name = ''creds'', cs_UsernameKey = [], cs_PasswordKey = ''pw''\<rparr>"
  by (simp_all add: orders_def orders_spec_def orders_database_def)

lemma orders_admitted: "admit_spec orders_submitted = Some (pm_Spec orders)"
  by (simp add: admit_spec_def orders_submitted_def orders_spec_def orders_database_def admit_database_def
      admit_sinks_def admit_prometheus_def admit_image_def admit_credentials_def credential_rules_def
      metrics_valid_def valid_port_def ssl_modes_def SSLModeRequire_def min_length1_def Let_def)

lemma orders_reconcilable: "reconcilable orders_key orders [orders_lib] orders_cluster"
  by (simp add: reconcilable_def kc_GetMonitor_def kc_find_def orders_cluster_def monitor_key_def
      orders_key_def emptyMeta_def credentials_available_def libraries_available_def kc_GetLibrary_def
      library_name_def orders_lib_def)

lemma orders_live: "live_read (cluster_reconciler b) orders_key orders_state orders"
  using orders_reconcilable
  by (simp add: live_read_def reconcilable_def cluster_simps orders_state_def timestamp_IsZero_def
      cluster_reconciler_def kube_lib_def cluster_client_def)

text \<open>The configuration of \<open>orders\<close> renders; its text and hash stay symbolic.\<close>

lemma canon_metrics: "\<exists>t. renderMetrics canon_yaml merged = Inr t"
  by (auto simp: renderMetrics_def metrics_file_def canon_yaml_def loadBuiltinMetrics_def Let_def)

lemma canon_sources:
  assumes "mm_Preset merged = ''basic''"
  shows "\<exists>t. renderSources canon_yaml m merged = Inr t"
  using assms
  by (auto simp: renderSources_def source_entry_def expandPresetIntoIntervals_def loadBuiltinMetrics_def
      canon_yaml_def demo_registry_def Let_def)

lemma orders_config:
  obtains cm h where "BuildConfigMap canon_yaml orders (merged_of orders [orders_lib]) = Inr (cm, h)"
proof -
  let ?merged = "merged_of orders [orders_lib]"
  obtain t where t: "renderSources canon_yaml orders ?merged = Inr t"
    using canon_sources [of ?merged orders] by (auto simp: MergeMetrics_preset)
  obtain u where u: "renderMetrics canon_yaml ?merged = Inr u"
    using canon_metrics by blast
  have "\<exists>data. config_data canon_yaml orders ?merged = Inr data"
    unfolding config_data_def t u Let_def sum.case by auto
  then show ?thesis using that by (auto simp: BuildConfigMap_def)
qed

text \<open>The Deployment is new, so its pod is not ready after the first reconcile.\<close>

lemma orders_run:
  obtains s' where
    "Reconcile (cluster_reconciler b) orders_key orders_state = (Done (requeue_seconds 15) None, s')"
proof -
  obtain cm h where cm: "BuildConfigMap canon_yaml orders (merged_of orders [orders_lib]) = Inr (cm, h)"
    by (rule orders_config)
  have rec: "reconcilable orders_key orders [orders_lib] (world orders_state)"
    using orders_reconcilable by (simp add: orders_state_def)
  show ?thesis
  proof (rule cluster_reconcile [OF rec cm, of b])
    fix ready s'
    assume ready: "ready = (0 < sint (kc_replicas \<lparr>nn_Namespace = pm_Namespace orders,
        nn_Name = ResourceName (pm_Name orders)\<rparr> (world orders_state)))"
      and run: "Reconcile (cluster_reconciler b) orders_key orders_state =
        (Done (if ready then emptyResult else requeue_seconds 15) None, s')"
    have "\<not> ready"
      unfolding ready by (simp add: kc_replicas_def kc_GetDeployment_def kc_find_def orders_state_def orders_cluster_def)
    with run show ?thesis by (intro that) simp
  qed
qed

end
