(* ===== verification/BuilderProperties.thy ===== *)
theory BuilderProperties
  imports Scenario "HOL-Library.Multiset"
begin

text \<open>
  What the builders of \<open>internal/builder\<close> guarantee, each with an application to a concrete input.
\<close>

section \<open>Metrics\<close>

text \<open>
  C20: The merge refines its specification: under every name the interval and the SQL definition are
  those of the last definition with that name, libraries in the order they are referenced and the
  inline metrics after them; the preset is passed through.
\<close>
theorem merge_last_definition_wins:
  "gm_get (mm_Intervals (MergeMetrics spec libs)) n = map_option metric_interval (effective_metric spec libs n)
   \<and> gm_get (mm_Definitions (MergeMetrics spec libs)) n = map_option metric_def (effective_metric spec libs n)
   \<and> mm_Preset (MergeMetrics spec libs) = ms_Preset spec"
  by (simp add: MergeMetrics_get)

text \<open>
  Every merge result is well-formed: no duplicate keys, the same keys in the interval map and
  in the definition map, and positive intervals only.
\<close>
theorem merge_result_wf: "merged_wf (MergeMetrics spec libs)"
  by (rule MergeMetrics_wf)

text \<open>
  C29: The collection interval in seconds is the duration rounded down for every duration up to
  about 194 days, with the default of 60 for anything below a second; beyond that the float
  conversion may add one second, never more.
\<close>
theorem interval_in_seconds:
  assumes "md_Interval md = Some d" "0 \<le> sint d"
  shows "(sint d < 2 ^ 24 * Second \<longrightarrow>
       metric_interval md = (if sint d div Second = 0 then 60 else sint d div Second))
     \<and> (metric_interval md = 60 \<or> metric_interval md = sint d div Second
        \<or> metric_interval md = sint d div Second + 1)"
  using duration_to_seconds_exact [OF assms(2)] duration_to_seconds_bounds [OF assms(2)]
    pos_imp_zdiv_nonneg_iff [of Second "sint d"] assms(2)
  by (auto simp: metric_interval_def assms(1) Let_def defaultInterval_def Second_def)

definition half_minute :: MetricDefinition where
  "half_minute = \<lparr>md_Name = ''q'', md_Description = [], md_Interval = Some 30500000000,
     md_SQLs = [(''14'', ''select 1''), (''*'', ''select 0'')], md_Gauges = [], md_StatementTimeoutSeconds = 0,
     md_MasterOnly = False, md_StandbyOnly = False, md_IsInstanceLevel = False\<rparr>"

theorem interval_in_seconds_witness: "metric_interval half_minute = 30"
  using interval_in_seconds [of half_minute 30500000000] by (simp add: half_minute_def Second_def)

text \<open>
  C30: When no two version keys of a metric denote the same number, the SQL under a version is the
  one whose key parses to it; keys that are not numbers, the documented fallback "*" among them,
  are dropped.
\<close>
theorem versions_of_metric:
  assumes "gomap_wf (md_SQLs md)" "versions_distinct (md_SQLs md)"
  shows "gm_get (mf_SQLs (metric_def md)) v = Some q \<longleftrightarrow>
     (\<exists>k. gm_get (md_SQLs md) k = Some q \<and> Atoi k = Some v)"
  using sqls_loop_unique [OF assms] by (simp add: metric_def_def)

theorem versions_of_metric_witness:
  "gm_get (mf_SQLs (metric_def half_minute)) 14 = Some ''select 1''
   \<and> ''select 0'' \<notin> ran (gm_get (mf_SQLs (metric_def half_minute)))"
proof -
  have wf: "gomap_wf (md_SQLs half_minute)" by (simp add: half_minute_def gomap_wf_def)
  have "versions_distinct (md_SQLs half_minute)"
    by (auto simp: versions_distinct_def half_minute_def inj_on_def Atoi_examples)
  note ver = versions_of_metric [OF wf this]
  show ?thesis unfolding ran_def mem_Collect_eq ver
    by (auto simp: half_minute_def Atoi_examples split: if_splits)
qed

section \<open>The ConfigMap\<close>

text \<open>
  C19: pgwatch collects what the monitor asks for: reading the rendered source and the rendered
  metrics file by pgwatch's rules gives the intervals of the preset, overridden by the user's.
\<close>
theorem pgwatch_collects_intended:
  assumes "loadBuiltinMetrics y = Inr (bm, bp)" "registry_wf bm bp"
    and "source_entry y monitor (MergeMetrics spec libs) = Inr src"
    and "metrics_file y (MergeMetrics spec libs) = Inr mf"
  shows "pgwatch_intervals (pf_Presets mf) src = intended_intervals bp (MergeMetrics spec libs)"
  using source_entry_effective [OF assms(1,2) _ assms(3,4)] MergeMetrics_wf [of spec libs]
  by (simp add: merged_wf_def)

definition small_spec :: MetricsSpec where
  "small_spec = \<lparr>ms_Preset = ''basic'', ms_FromLibraries = [], ms_Custom = [half_minute]\<rparr>"

lemma canon_load: "loadBuiltinMetrics canon_yaml = Inr (pf_Metrics demo_registry, pf_Presets demo_registry)"
  by (simp add: loadBuiltinMetrics_def canon_yaml_def)

lemma demo_registry_wf: "registry_wf (pf_Metrics demo_registry) (pf_Presets demo_registry)"
  by (simp add: registry_wf_def demo_registry_def gomap_wf_def)

lemma small_merged:
  "ms_Preset small_spec = ''basic''"
  "mm_Intervals (MergeMetrics small_spec []) = [(''q'', metric_interval half_minute)]"
  by (simp_all add: small_spec_def MergeMetrics_def Let_def gm_put_def half_minute_def)

lemma small_source:
  "\<exists>src. source_entry canon_yaml m (MergeMetrics small_spec []) = Inr src"
  by (simp add: source_entry_def expandPresetIntoIntervals_def canon_load small_merged demo_registry_def Let_def)

lemma small_file:
  "\<exists>mf. metrics_file canon_yaml (MergeMetrics small_spec []) = Inr mf"
  by (simp add: metrics_file_def canon_load small_merged Let_def)

theorem pgwatch_collects_intended_witness:
  "\<exists>src mf. source_entry canon_yaml orders (MergeMetrics small_spec []) = Inr src
     \<and> metrics_file canon_yaml (MergeMetrics small_spec []) = Inr mf
     \<and> pgwatch_intervals (pf_Presets mf) src ''wal'' = Some 60
     \<and> pgwatch_intervals (pf_Presets mf) src ''q'' \<noteq> None"
proof -
  obtain src where src: "source_entry canon_yaml orders (MergeMetrics small_spec []) = Inr src" using small_source by blast
  obtain mf where mf: "metrics_file canon_yaml (MergeMetrics small_spec []) = Inr mf" using small_file by blast
  show ?thesis
    using src mf pgwatch_collects_intended [OF canon_load demo_registry_wf src mf]
    by (simp add: intended_intervals_def small_merged demo_registry_def)
qed

text \<open>
  C27: The operator leaves no gap of its own between what pgwatch collects and what it can read: a metric
  that the rendered source collects is missing from the rendered metrics file exactly when the user
  does not define it and the built-in registry does not either. Such a metric is one that the preset
  itself lists with that interval (in the embedded registry, \<open>index_col_stats\<close> of the preset
  \<open>aiven\<close>); a metric of the user is always defined.
\<close>
theorem collected_metrics_defined:
  assumes "loadBuiltinMetrics y = Inr (bm, bp)" "registry_wf bm bp"
    and "source_entry y monitor (MergeMetrics spec libs) = Inr src"
    and "metrics_file y (MergeMetrics spec libs) = Inr mf"
    and "pgwatch_intervals (pf_Presets mf) src n = Some i"
  shows "(gm_get (pf_Metrics mf) n = None \<longleftrightarrow> effective_metric spec libs n = None \<and> gm_get bm n = None)
     \<and> (effective_metric spec libs n = None \<longrightarrow>
          (\<exists>p. gm_get bp (ms_Preset spec) = Some p \<and> gm_get (pp_Metrics p) n = Some i))"
  using source_entry_defined [OF assms(1,2) MergeMetrics_wf assms(3-5)]
  by (simp add: MergeMetrics_get MergeMetrics_preset)

text \<open>A preset with a gap, next to a metric of the user.\<close>

definition gap_spec :: MetricsSpec where
  "gap_spec = small_spec\<lparr>ms_Preset := ''aiven''\<rparr>"

lemma gap_merged:
  "ms_Preset gap_spec = ''aiven''"
  "mm_Intervals (MergeMetrics gap_spec []) = [(''q'', metric_interval half_minute)]"
  by (simp_all add: gap_spec_def small_spec_def MergeMetrics_def Let_def gm_put_def half_minute_def)

theorem collected_metrics_defined_witness:
  "\<exists>src mf. source_entry canon_yaml orders (MergeMetrics gap_spec []) = Inr src
     \<and> metrics_file canon_yaml (MergeMetrics gap_spec []) = Inr mf
     \<and> pgwatch_intervals (pf_Presets mf) src ''index_col_stats'' = Some 86400
     \<and> gm_get (pf_Metrics mf) ''index_col_stats'' = None
     \<and> gm_get (pf_Metrics mf) ''wal'' \<noteq> None \<and> gm_get (pf_Metrics mf) ''q'' \<noteq> None"
proof -
  have "\<exists>src. source_entry canon_yaml orders (MergeMetrics gap_spec []) = Inr src"
    by (simp add: source_entry_def expandPresetIntoIntervals_def canon_load gap_merged demo_registry_def Let_def)
  then obtain src where src: "source_entry canon_yaml orders (MergeMetrics gap_spec []) = Inr src" by blast
  have "\<exists>mf. metrics_file canon_yaml (MergeMetrics gap_spec []) = Inr mf"
    by (simp add: metrics_file_def canon_load gap_merged Let_def)
  then obtain mf where mf: "metrics_file canon_yaml (MergeMetrics gap_spec []) = Inr mf" by blast
  have intervals: "pgwatch_intervals (pf_Presets mf) src = intended_intervals (pf_Presets demo_registry) (MergeMetrics gap_spec [])"
    using source_entry_effective [OF canon_load demo_registry_wf _ src mf] MergeMetrics_wf [of gap_spec "[]"]
    by (simp add: merged_wf_def)
  have "pgwatch_intervals (pf_Presets mf) src ''index_col_stats'' = Some 86400"
    "pgwatch_intervals (pf_Presets mf) src ''wal'' = Some 120"
    "pgwatch_intervals (pf_Presets mf) src ''q'' = Some (metric_interval half_minute)"
    unfolding intervals by (simp_all add: intended_intervals_def gap_merged demo_registry_def)
  note collected = this [THEN collected_metrics_defined [OF canon_load demo_registry_wf src mf]]
  have "effective_metric gap_spec [] ''index_col_stats'' = None" "effective_metric gap_spec [] ''q'' \<noteq> None"
    by (simp_all add: effective_metric_def all_metrics_def gap_spec_def small_spec_def half_minute_def last_of_Cons)
  then show ?thesis
    using src mf collected \<open>pgwatch_intervals (pf_Presets mf) src ''index_col_stats'' = Some 86400\<close>
    by (auto simp: demo_registry_def)
qed

text \<open>What the metrics file says under a version of a metric.\<close>

definition rendered_sql :: "pgwatchMetricsFile \<Rightarrow> string \<Rightarrow> int \<Rightarrow> string option" where
  "rendered_sql mf n v = (case gm_get (pf_Metrics mf) n of None \<Rightarrow> None | Some d \<Rightarrow> gm_get (pw_SQLs d) v)"

definition add_custom :: "MetricsSpec \<Rightarrow> MetricDefinition \<Rightarrow> MetricsSpec" where
  "add_custom spec md = spec\<lparr>ms_Custom := ms_Custom spec @ [md]\<rparr>"

lemma order_ending_with:
  assumes "gm_get m k = Some q"
  obtains ys where "mset (ys @ [(k, q)]) = mset m"
proof -
  have "(k, q) \<in> set m" using assms by (rule map_of_SomeD)
  then have "mset (remove1 (k, q) m @ [(k, q)]) = mset m" by simp
  then show ?thesis by (rule that)
qed

lemma sql_assignments_append: "sql_assignments (xs @ ys) = sql_assignments xs @ sql_assignments ys"
  by (induction xs) (auto split: option.split)

lemma rendered_last:
  assumes "loadBuiltinMetrics y = Inr (bm, bp)" "registry_wf bm bp" "Atoi k = Some v"
  obtains mf where "metrics_file y (MergeMetrics (add_custom spec (md\<lparr>md_SQLs := ys @ [(k, q)]\<rparr>)) libs) = Inr mf"
    "rendered_sql mf (md_Name md) v = Some q"
proof -
  let ?md = "md\<lparr>md_SQLs := ys @ [(k, q)]\<rparr>" and ?merged = "MergeMetrics (add_custom spec (md\<lparr>md_SQLs := ys @ [(k, q)]\<rparr>)) libs"
  obtain mf where mf: "metrics_file y ?merged = Inr mf"
    using assms(1) by (cases "mm_Preset ?merged = []") (simp_all add: metrics_file_def Let_def)
  have "effective_metric (add_custom spec ?md) libs (md_Name md) = Some ?md"
    by (simp add: effective_metric_def all_metrics_def add_custom_def last_of_append last_of_Cons)
  then have "gm_get (mm_Definitions ?merged) (md_Name md) = Some (metric_def ?md)" by (simp add: MergeMetrics_get)
  then have "gm_get (pf_Metrics mf) (md_Name md) = Some (to_pgwatchMetric (metric_def ?md))"
    using metrics_file_metrics [OF assms(1,2) mf] MergeMetrics_wf by (simp add: merged_wf_def)
  moreover have "gm_get (sqls_loop [] (ys @ [(k, q)])) v = Some q"
    by (simp add: sqls_loop_get sql_assignments_append assms(3) last_of_snoc)
  ultimately have "rendered_sql mf (md_Name md) v = Some q"
    by (simp add: rendered_sql_def to_pgwatchMetric_def metric_def_def)
  with mf show ?thesis by (rule that)
qed

definition two_keys :: MetricDefinition where
  "two_keys = half_minute\<lparr>md_SQLs := [(''13'', ''a''), (''+13'', ''b'')]\<rparr>"

text \<open>
  C35: Two version keys of a metric that denote the same number make the generated configuration depend
  on the iteration order of a Go map. Whatever else is merged, the same metric (one and the same set
  of entries) is read in two orders for which the metrics file that is rendered has different SQL
  under that version: each time that of the key the loop happens to reach last.
\<close>
theorem version_keys_collide:
  assumes "loadBuiltinMetrics y = Inr (bm, bp)" "registry_wf bm bp"
    and "gm_get (md_SQLs md) k = Some q" "gm_get (md_SQLs md) k' = Some q'"
    and "Atoi k = Some v" "Atoi k' = Some v" "q \<noteq> q'"
  shows "\<exists>ys ys' mf mf'.
     mset (ys @ [(k, q)]) = mset (md_SQLs md) \<and> mset (ys' @ [(k', q')]) = mset (md_SQLs md)
     \<and> metrics_file y (MergeMetrics (add_custom spec (md\<lparr>md_SQLs := ys @ [(k, q)]\<rparr>)) libs) = Inr mf
     \<and> metrics_file y (MergeMetrics (add_custom spec (md\<lparr>md_SQLs := ys' @ [(k', q')]\<rparr>)) libs) = Inr mf'
     \<and> rendered_sql mf (md_Name md) v = Some q \<and> rendered_sql mf' (md_Name md) v = Some q' \<and> mf \<noteq> mf'"
proof -
  obtain ys where ys: "mset (ys @ [(k, q)]) = mset (md_SQLs md)" using assms(3) by (rule order_ending_with)
  obtain ys' where ys': "mset (ys' @ [(k', q')]) = mset (md_SQLs md)" using assms(4) by (rule order_ending_with)
  obtain mf where mf: "metrics_file y (MergeMetrics (add_custom spec (md\<lparr>md_SQLs := ys @ [(k, q)]\<rparr>)) libs) = Inr mf"
      "rendered_sql mf (md_Name md) v = Some q"
    by (rule rendered_last [OF assms(1,2,5)])
  obtain mf' where mf': "metrics_file y (MergeMetrics (add_custom spec (md\<lparr>md_SQLs := ys' @ [(k', q')]\<rparr>)) libs) = Inr mf'"
      "rendered_sql mf' (md_Name md) v = Some q'"
    by (rule rendered_last [OF assms(1,2,6)])
  have "mf \<noteq> mf'" using mf(2) mf'(2) assms(7) by auto
  with ys ys' mf mf' show ?thesis by blast
qed

theorem version_keys_collide_witness:
  "\<exists>ys ys' mf mf'. metrics_file canon_yaml (MergeMetrics (add_custom small_spec (two_keys\<lparr>md_SQLs := ys\<rparr>)) []) = Inr mf
     \<and> metrics_file canon_yaml (MergeMetrics (add_custom small_spec (two_keys\<lparr>md_SQLs := ys'\<rparr>)) []) = Inr mf'
     \<and> mset ys = mset (md_SQLs two_keys) \<and> mset ys' = mset (md_SQLs two_keys)
     \<and> rendered_sql mf ''q'' 13 = Some ''a'' \<and> rendered_sql mf' ''q'' 13 = Some ''b''"
proof -
  have "gm_get (md_SQLs two_keys) ''13'' = Some ''a''" "gm_get (md_SQLs two_keys) ''+13'' = Some ''b''"
    "md_Name two_keys = ''q''"
    by (simp_all add: two_keys_def half_minute_def)
  from version_keys_collide [OF canon_load demo_registry_wf this(1,2) Atoi_examples(3,4), of small_spec "[]", unfolded this(3)]
  obtain ys ys' mf mf' where
    "metrics_file canon_yaml (MergeMetrics (add_custom small_spec (two_keys\<lparr>md_SQLs := ys @ [(''13'', ''a'')]\<rparr>)) []) = Inr mf"
    "metrics_file canon_yaml (MergeMetrics (add_custom small_spec (two_keys\<lparr>md_SQLs := ys' @ [(''+13'', ''b'')]\<rparr>)) []) = Inr mf'"
    "mset (ys @ [(''13'', ''a'')]) = mset (md_SQLs two_keys)" "mset (ys' @ [(''+13'', ''b'')]) = mset (md_SQLs two_keys)"
    "rendered_sql mf ''q'' 13 = Some ''a''" "rendered_sql mf' ''q'' 13 = Some ''b''" by auto
  then show ?thesis by blast
qed





text \<open>
  C26: The hash is taken over an encoding that determines the ConfigMap data: two data maps without
  NUL characters are encoded alike exactly when they are equal, in whatever order they are read, and
  every hash is 64 characters long.
\<close>
theorem hash_input_determines_data:
  assumes "gomap_wf d" "gomap_wf d'" "data_nul_free d" "data_nul_free d'"
  shows "(hash_input d = hash_input d' \<longleftrightarrow> gm_get d = gm_get d')
     \<and> (gm_get d = gm_get d' \<longrightarrow> contentHash d = contentHash d') \<and> length (contentHash d) = 64"
  using hash_input_inject [OF assms] by (auto simp: contentHash_def)

theorem hash_input_determines_data_witness:
  "hash_input [(SourcesKey, ''a''), (MetricsKey, ''b'')] \<noteq> hash_input [(SourcesKey, ''a'')]
   \<and> contentHash [(SourcesKey, ''a''), (MetricsKey, ''b'')] = contentHash [(MetricsKey, ''b''), (SourcesKey, ''a'')]"
proof -
  let ?d = "[(SourcesKey, ''a''), (MetricsKey, ''b'')]"
  have wf: "gomap_wf ?d" "gomap_wf [(SourcesKey, ''a'')]" "gomap_wf [(MetricsKey, ''b''), (SourcesKey, ''a'')]"
    "data_nul_free ?d" "data_nul_free [(SourcesKey, ''a'')]" "data_nul_free [(MetricsKey, ''b''), (SourcesKey, ''a'')]"
    by (simp_all add: gomap_wf_def SourcesKey_def MetricsKey_def data_nul_free_def nul_free_def)
  have "gm_get ?d \<noteq> gm_get [(SourcesKey, ''a'')]"
    by (auto simp: fun_eq_iff SourcesKey_def MetricsKey_def intro!: exI [of _ "''metrics.yaml''"])
  moreover have "gm_get ?d = gm_get [(MetricsKey, ''b''), (SourcesKey, ''a'')]"
    by (auto simp: fun_eq_iff SourcesKey_def MetricsKey_def)
  ultimately show ?thesis
    using hash_input_determines_data [OF wf(1,2,4,5)] hash_input_determines_data [OF wf(1,3,4,6)] by blast
qed

text \<open>
  Different databases get different connection strings: for hosts without a slash and SSL modes
  without a question mark the string determines host, port, database and mode, defaults applied.
\<close>
theorem connection_string_injective:
  assumes "CHR ''/'' \<notin> set (db_Host db)" "CHR ''/'' \<notin> set (db_Host db')"
    and "CHR ''?'' \<notin> set (db_SSLMode db)" "CHR ''?'' \<notin> set (db_SSLMode db')"
    and "buildConnStr db = buildConnStr db'"
  shows "db_Host db = db_Host db' \<and> db_Database db = db_Database db'
     \<and> (if db_Port db = 0 then 5432 else db_Port db) = (if db_Port db' = 0 then 5432 else db_Port db')
     \<and> (if db_SSLMode db = [] then SSLModeDisable else db_SSLMode db) =
       (if db_SSLMode db' = [] then SSLModeDisable else db_SSLMode db')"
  using buildConnStr_inject [OF assms] by (intro conjI)

theorem connection_string_injective_witness:
  "buildConnStr orders_database \<noteq> buildConnStr (orders_database\<lparr>db_Port := 5433\<rparr>)
   \<and> buildConnStr orders_database = buildConnStr (orders_database\<lparr>db_Username := ''x''\<rparr>)"
  using connection_string_injective [of orders_database "orders_database\<lparr>db_Port := 5433\<rparr>"]
  by (auto simp: orders_database_def buildConnStr_def)

text \<open>
  C33: Credentials stay out of what is rendered: the ConfigMap, its hash and the arguments of pgwatch
  do not depend on the user name, the password or the Secret reference.
\<close>
theorem credentials_not_rendered:
  "BuildConfigMap y (set_credentials u p ref m) merged = BuildConfigMap y m merged
   \<and> buildArgs (set_credentials u p ref m) merged = buildArgs m merged"
  by (simp add: BuildConfigMap_credentials) (simp add: buildArgs_def set_credentials_def)

section \<open>Labels and selectors\<close>

text \<open>
  Merging labels keeps both sides: a system key has the system's value, any other key the
  user's, no key is lost or added, and the same holds of annotations.
\<close>
theorem merged_labels:
  assumes "gomap_wf system" "gomap_wf user"
  shows "gm_get (MergeLabels system user) k = (case gm_get system k of Some v \<Rightarrow> Some v | None \<Rightarrow> gm_get user k)
     \<and> gm_get (MergeAnnotations system user) k = (case gm_get system k of Some v \<Rightarrow> Some v | None \<Rightarrow> gm_get user k)
     \<and> gomap_wf (MergeLabels system user)"
  using labels.merge_get [OF assms] annotations.merge_get [OF assms] labels.merge_wf by simp

theorem merged_labels_witness:
  "gm_get (MergeLabels (SystemLabels ''a'') [(LabelAppName, ''mine''), (''team'', ''x'')]) LabelAppName = Some AppName
   \<and> gm_get (MergeLabels (SystemLabels ''a'') [(LabelAppName, ''mine''), (''team'', ''x'')]) ''team'' = Some ''x''"
proof -
  have wf: "gomap_wf [(LabelAppName, ''mine''), (''team'', ''x'')]" by (simp add: gomap_wf_def LabelAppName_def)
  note get = merged_labels [OF SystemLabels_wf wf, THEN conjunct1]
  show ?thesis unfolding get by (simp add: SystemLabels_def label_keys LabelAppName_def)
qed

text \<open>
  C25: The selectors of a monitor match its own objects whatever labels the user adds: the Deployment
  and the Service select its pods, and the ServiceMonitor selects its Service.
\<close>
theorem selectors_match:
  assumes "BuildDeployment monitor merged h = Some dep"
  shows "selects (dep_Selector dep) (pt_Labels (dep_Template dep))
     \<and> selects (svc_Selector (BuildService monitor)) (pt_Labels (dep_Template dep))
     \<and> selects (sm_Selector (BuildServiceMonitor monitor)) (om_Labels (svc_Meta (BuildService monitor)))"
  using BuildDeployment_selects_pods [OF assms] ServiceMonitor_selects_Service by blast

lemma orders_deployment: "BuildDeployment orders merged h \<noteq> None"
  by (simp add: BuildDeployment_def Let_def buildEnvVars_None split: option.split)

theorem selectors_match_witness:
  "\<exists>dep. BuildDeployment orders (MergeMetrics small_spec []) ''h'' = Some dep
     \<and> selects (dep_Selector dep) (pt_Labels (dep_Template dep))"
  using orders_deployment [of "MergeMetrics small_spec []" "''h''"] selectors_match by blast

text \<open>
  Monitors in one namespace do not select each other's pods: a Service or Deployment selector
  that matches the pod labels of a monitor belongs to a monitor of the same name.
\<close>
theorem selectors_separate_monitors:
  assumes "BuildDeployment monitor merged h = Some dep"
    and "selects (svc_Selector (BuildService other)) (pt_Labels (dep_Template dep))"
  shows "pm_Name other = pm_Name monitor"
proof -
  have "pt_Labels (dep_Template dep) =
      MergeLabels (SystemLabels (pm_Name monitor)) (mo_Labels (sp_PodMetadata (pm_Spec monitor)))"
    by (rule BuildDeployment_Some [OF assms(1)])
  moreover have "svc_Selector (BuildService other) = selector_labels (pm_Name other)"
    by (simp add: BuildService_def Let_def selector_labels_def)
  ultimately show ?thesis using assms(2) selector_separates by metis
qed

theorem selectors_separate_monitors_witness:
  "\<exists>dep. BuildDeployment orders (MergeMetrics small_spec []) ''h'' = Some dep
     \<and> \<not> selects (svc_Selector (BuildService (set_meta orders ((pm_Meta orders)\<lparr>om_Name := ''users''\<rparr>))))
           (pt_Labels (dep_Template dep))"
proof -
  obtain dep where dep: "BuildDeployment orders (MergeMetrics small_spec []) ''h'' = Some dep"
    using orders_deployment [of "MergeMetrics small_spec []" "''h''"] by blast
  then show ?thesis
    using selectors_separate_monitors [OF dep, of "set_meta orders ((pm_Meta orders)\<lparr>om_Name := ''users''\<rparr>)"]
    by (auto simp: set_meta_def)
qed

section \<open>The workload\<close>

text \<open>
  C28: One port everywhere: with an enabled Prometheus sink and a port the CRD admits, the argument
  of pgwatch, the container port, both probes and the Service carry the same number, between 1 and
  65535.
\<close>
theorem ports_agree:
  assumes "ss_Prometheus (sp_Sinks (pm_Spec monitor)) = Some p" "ps_Enabled p" "port_valid (ps_Port p)"
    and "BuildDeployment monitor merged h = Some dep"
  shows "\<exists>c. pt_Containers (dep_Template dep) = [c]
     \<and> ''prometheus://0.0.0.0:'' @ itoa (sint (prometheusPort monitor)) \<in> set (c_Args c)
     \<and> map cp_ContainerPort (c_Ports c) = [prometheusPort monitor]
     \<and> pr_TCPSocketPort (c_LivenessProbe c) = FromInt32 (prometheusPort monitor)
     \<and> pr_TCPSocketPort (c_ReadinessProbe c) = FromInt32 (prometheusPort monitor)
     \<and> map svp_Port (svc_Ports (BuildService monitor)) = [prometheusPort monitor]
     \<and> 0 < sint (prometheusPort monitor) \<and> sint (prometheusPort monitor) \<le> 65535"
proof -
  obtain envs where c: "pt_Containers (dep_Template dep) = [pgwatch_container monitor merged envs]"
    by (rule BuildDeployment_Some [OF assms(4)])
  have "0 < sint (prometheusPort monitor) \<and> sint (prometheusPort monitor) \<le> 65535"
    by (rule prometheusPort_range) (use assms(1,3) in auto)
  then show ?thesis
    by (simp add: c pgwatch_container_ports buildArgs_parts prometheus_args_port [OF assms(1-3)])
      (simp add: BuildService_def Let_def)
qed

theorem ports_agree_witness:
  "\<exists>dep c. BuildDeployment orders (MergeMetrics small_spec []) ''h'' = Some dep
     \<and> pt_Containers (dep_Template dep) = [c] \<and> ''prometheus://0.0.0.0:9187'' \<in> set (c_Args c)
     \<and> map cp_ContainerPort (c_Ports c) = [9187] \<and> map svp_Port (svc_Ports (BuildService orders)) = [9187]"
proof -
  obtain dep where dep: "BuildDeployment orders (MergeMetrics small_spec []) ''h'' = Some dep"
    using orders_deployment [of "MergeMetrics small_spec []" "''h''"] by blast
  have sink: "ss_Prometheus (sp_Sinks (pm_Spec orders)) = Some \<lparr>ps_Enabled = True, ps_Port = 9187\<rparr>"
    by (simp add: orders_spec_def)
  have valid: "port_valid (ps_Port \<lparr>ps_Enabled = True, ps_Port = 9187\<rparr>)" by (simp add: port_valid_def)
  have port: "prometheusPort orders = 9187" by (simp add: prometheusPort_def orders_spec_def)
  have url: "''prometheus://0.0.0.0:'' @ itoa (sint (9187 :: int32)) = ''prometheus://0.0.0.0:9187''"
    by (simp add: itoa_def utoa.simps digit_char_def)
  show ?thesis
    using ports_agree [OF sink _ valid dep, unfolded port url] dep by auto
qed

text \<open>
  C37: Without an enabled Prometheus sink nothing tells pgwatch to listen, yet both probes of the
  container still knock on the Prometheus port.
\<close>
theorem probes_without_prometheus:
  assumes "\<And>p. ss_Prometheus (sp_Sinks (pm_Spec monitor)) = Some p \<Longrightarrow> \<not> ps_Enabled p"
    and "BuildDeployment monitor merged h = Some dep"
  shows "\<exists>c. pt_Containers (dep_Template dep) = [c]
     \<and> c_Args c = [''--sources'', ''/etc/pgwatch/sources.yaml'']
         @ (if needs_metrics_file merged then [''--metrics'', ''/etc/pgwatch/metrics.yaml''] else [])
         @ grpc_args monitor
     \<and> pr_TCPSocketPort (c_LivenessProbe c) = FromInt32 (prometheusPort monitor)
     \<and> pr_TCPSocketPort (c_ReadinessProbe c) = FromInt32 (prometheusPort monitor)"
proof -
  obtain envs where c: "pt_Containers (dep_Template dep) = [pgwatch_container monitor merged envs]"
    by (rule BuildDeployment_Some [OF assms(2)])
  have "prometheus_args monitor = []" using assms(1) by (auto simp: prometheus_args_def split: option.split)
  then show ?thesis by (simp add: c pgwatch_container_ports buildArgs_parts)
qed

definition orders_push :: PgpilotMonitor where
  "orders_push = orders\<lparr>pm_Spec := orders_spec\<lparr>sp_Sinks :=
     \<lparr>ss_Prometheus = None, ss_GRPC = Some \<lparr>gs_Enabled = True, gs_Endpoint = ''sink:443'', gs_TLS = None\<rparr>\<rparr>\<rparr>\<rparr>"

theorem probes_without_prometheus_witness:
  "\<exists>dep c. BuildDeployment orders_push (MergeMetrics small_spec []) ''h'' = Some dep
     \<and> pt_Containers (dep_Template dep) = [c]
     \<and> c_Args c = [''--sources'', ''/etc/pgwatch/sources.yaml'', ''--metrics'', ''/etc/pgwatch/metrics.yaml'',
                   ''--sink'', ''grpc://sink:443'']
     \<and> pr_TCPSocketPort (c_LivenessProbe c) = FromInt32 9187"
proof -
  obtain dep where dep: "BuildDeployment orders_push (MergeMetrics small_spec []) ''h'' = Some dep"
    by (cases "BuildDeployment orders_push (MergeMetrics small_spec []) ''h''")
      (auto simp: BuildDeployment_def Let_def buildEnvVars_None orders_push_def split: option.splits)
  have "needs_metrics_file (MergeMetrics small_spec [])" by (simp add: needs_metrics_file_def small_merged)
  then show ?thesis
    using probes_without_prometheus [OF _ dep] dep
    by (auto simp: orders_push_def prometheusPort_def grpc_args_def)
qed

text \<open>
  The arguments and the ConfigMap agree: the container is told to read metrics.yaml exactly
  when the ConfigMap it mounts has that file, and it reads sources.yaml, which is always there.
\<close>
theorem arguments_match_configmap:
  assumes "BuildConfigMap y monitor merged = Inr (cm, h)"
  shows "(''--metrics'' \<in> set (buildArgs monitor merged) \<longleftrightarrow> MetricsKey \<in> set (gm_keys (cm_Data cm)))
     \<and> SourcesKey \<in> set (gm_keys (cm_Data cm))
     \<and> take 2 (buildArgs monitor merged) = [''--sources'', configMountPath @ ''/'' @ SourcesKey]"
  by (simp add: BuildConfigMap_shape [OF assms] buildArgs_metrics_flag)
    (simp add: SourcesKey_def MetricsKey_def configMountPath_def buildArgs_parts)

theorem arguments_match_configmap_witness:
  "\<exists>cm h. BuildConfigMap canon_yaml orders (merged_of orders [orders_lib]) = Inr (cm, h)
     \<and> MetricsKey \<in> set (gm_keys (cm_Data cm))"
proof -
  obtain cm h where cm: "BuildConfigMap canon_yaml orders (merged_of orders [orders_lib]) = Inr (cm, h)"
    by (rule orders_config)
  then show ?thesis
    using arguments_match_configmap [OF cm]
    by (auto simp: buildArgs_metrics_flag needs_metrics_file_def MergeMetrics_preset)
qed

text \<open>
  The Deployment is wired to its ConfigMap: it mounts the ConfigMap by name, in the same
  namespace, and its pod template carries the hash of that ConfigMap's data, so that a pod is
  replaced whenever the hash changes.
\<close>
theorem deployment_mounts_configmap:
  assumes "BuildConfigMap y monitor merged = Inr (cm, h)" "BuildDeployment monitor merged h = Some dep"
  shows "ConfigMapVolume (om_Name (cm_Meta cm)) \<in> vol_Source ` set (pt_Volumes (dep_Template dep))
     \<and> om_Namespace (dep_Meta dep) = om_Namespace (cm_Meta cm)
     \<and> gm_get (pt_Annotations (dep_Template dep)) AnnotationConfigHash = Some (contentHash (cm_Data cm))"
proof -
  have "pt_Volumes (dep_Template dep) =
      [\<lparr>vol_Name = configVolumeName, vol_Source = ConfigMapVolume (ResourceName (pm_Name monitor) @ ''-config'')\<rparr>,
       \<lparr>vol_Name = ''tmp'', vol_Source = EmptyDirVolume\<rparr>]" "om_Namespace (dep_Meta dep) = pm_Namespace monitor"
    by (rule BuildDeployment_Some [OF assms(2)], assumption)+
  with BuildConfigMap_shape [OF assms(1)] BuildDeployment_config_hash [OF assms(2)] show ?thesis by simp
qed

theorem deployment_mounts_configmap_witness:
  "\<exists>cm h dep. BuildConfigMap canon_yaml orders (merged_of orders [orders_lib]) = Inr (cm, h)
     \<and> BuildDeployment orders (merged_of orders [orders_lib]) h = Some dep
     \<and> gm_get (pt_Annotations (dep_Template dep)) AnnotationConfigHash = Some (contentHash (cm_Data cm))"
proof -
  obtain cm h where cm: "BuildConfigMap canon_yaml orders (merged_of orders [orders_lib]) = Inr (cm, h)"
    by (rule orders_config)
  obtain dep where dep: "BuildDeployment orders (merged_of orders [orders_lib]) h = Some dep"
    using orders_deployment by blast
  show ?thesis using cm dep deployment_mounts_configmap [OF cm dep] by blast
qed

text \<open>
  The environment of the container: always PGUSER and PGPASSWORD, and without inline credentials
  no value is written into the object, both variables refer to the Secret of the monitor.
\<close>
theorem environment_refers_to_secret:
  assumes "buildEnvVars monitor = Some envs"
    and "db_Username (pm_Database monitor) = [] \<or> db_Password (pm_Database monitor) = []"
  shows "map ev_Name envs = [''PGUSER'', ''PGPASSWORD''] \<and> map ev_Value envs = [[], []]
     \<and> (\<exists>ref. db_CredentialsSecret (pm_Database monitor) = Some ref
          \<and> map (map_option sk_Name \<circ> ev_SecretKeyRef) envs = [Some (cs_Name ref), Some (cs_Name ref)])"
  using assms
  by (auto simp: buildEnvVars_def Let_def secret_env_def split: option.splits if_splits)

theorem environment_refers_to_secret_witness:
  "\<exists>envs. buildEnvVars orders = Some envs
     \<and> map (map_option sk_Name \<circ> ev_SecretKeyRef) envs = [Some ''creds'', Some ''creds'']"
proof -
  obtain envs where envs: "buildEnvVars orders = Some envs"
    by (cases "buildEnvVars orders") (auto simp: buildEnvVars_None)
  show ?thesis using envs environment_refers_to_secret [OF envs] by auto
qed

text \<open>
  Children of different monitors never collide: two monitors that differ in name or namespace
  have no child of the same kind, namespace and name.
\<close>
theorem children_of_monitors_disjoint:
  assumes "desired_children b y m libs = Some cs" "desired_children b' y' m' libs' = Some cs'"
    and "monitor_key m \<noteq> monitor_key m'" "c \<in> set cs" "c' \<in> set cs'"
  shows "\<not> same_child c c'"
  using desired_children_names [OF assms(1,4)] desired_children_names [OF assms(2,5)] assms(3)
  by (auto simp: same_child_def child_name_def monitor_key_def ResourceName_def split: if_splits)

definition users :: PgpilotMonitor where
  "users = set_meta orders ((pm_Meta orders)\<lparr>om_Name := ''users''\<rparr>)"

lemma desired_children_exist:
  assumes "mm_Preset (merged_of m libs) = ''basic''" "buildEnvVars m \<noteq> None"
  shows "\<exists>cs. desired_children b canon_yaml m libs = Some cs"
proof -
  obtain t u where t: "renderSources canon_yaml m (merged_of m libs) = Inr t"
    and u: "renderMetrics canon_yaml (merged_of m libs) = Inr u"
    using canon_sources [OF assms(1)] canon_metrics by blast
  have "\<exists>data. config_data canon_yaml m (merged_of m libs) = Inr data"
    unfolding config_data_def t u Let_def sum.case by auto
  then obtain cm h where cm: "BuildConfigMap canon_yaml m (merged_of m libs) = Inr (cm, h)"
    by (auto simp: BuildConfigMap_def)
  obtain dep where "BuildDeployment m (merged_of m libs) h = Some dep"
    using assms(2) by (auto simp: BuildDeployment_def Let_def)
  with cm show ?thesis using desired_children_Some by blast
qed

theorem children_of_monitors_disjoint_witness:
  "\<exists>cs cs'. desired_children True canon_yaml orders [] = Some cs \<and> desired_children True canon_yaml users [] = Some cs'
     \<and> list_all (\<lambda>c. list_all (\<lambda>c'. \<not> same_child c c') cs') cs"
proof -
  obtain cs where cs: "desired_children True canon_yaml orders [] = Some cs"
    using desired_children_exist [of orders "[]" True] by (auto simp: MergeMetrics_preset buildEnvVars_None)
  obtain cs' where cs': "desired_children True canon_yaml users [] = Some cs'"
    using desired_children_exist [of users "[]" True]
    by (auto simp: MergeMetrics_preset buildEnvVars_None users_def set_meta_def)
  have "monitor_key orders \<noteq> monitor_key users" by (simp add: users_def set_meta_def monitor_key_def)
  with children_of_monitors_disjoint [OF cs cs'] cs cs' show ?thesis by (simp add: list_all_iff)
qed

section \<open>Discovery and numbers\<close>

text \<open>
  A version number survives the round trip through its key: formatting a number of 64 bits and
  parsing it as the merge does gives the number back.
\<close>
theorem version_key_roundtrip:
  assumes "- (2 ^ 63) \<le> v" "v < 2 ^ 63"
  shows "gm_get (mf_SQLs (metric_def (md\<lparr>md_SQLs := [(itoa v, q)]\<rparr>))) v = Some q"
  by (simp add: metric_def_def Atoi_itoa [OF assms] gm_put_def)

theorem version_key_roundtrip_witness:
  "gm_get (mf_SQLs (metric_def (half_minute\<lparr>md_SQLs := [(itoa 17, ''select 1'')]\<rparr>))) 17 = Some ''select 1''"
  by (rule version_key_roundtrip) simp_all

end
