(* ===== verification/DeepHeap.thy ===== *)
theory DeepHeap
  imports KubeTypes
begin

text \<open>
  Memory for the generated deep copies: a store of cells under addresses, a pointer being an
  optional address (\<open>None\<close> is nil). The structs that hold pointers, maps or slices have a twin
  here whose fields hold addresses, so that copying a struct value shares what it points to, as an
  assignment does in Go. A slice is the address of its backing array, a map the address of its table.

  \<open>deep_copy\<close> is the contract every copy has to meet: the copy reads as the same value, old cells do
  not change, and the copy reaches only cells that were allocated by the call.
\<close>

section \<open>Struct values in memory\<close>

type_synonym addr = nat
type_synonym ptr = "addr option"

record hDatabaseRef =
  hdb_Host :: string
  hdb_Port :: int32
  hdb_Database :: string
  hdb_SSLMode :: SSLMode
  hdb_Username :: string
  hdb_Password :: string
  hdb_CredentialsSecret :: ptr
  hdb_CustomTags :: ptr

record hGRPCSink =
  hgs_Enabled :: bool
  hgs_Endpoint :: string
  hgs_TLS :: ptr

record hSinksSpec =
  hss_Prometheus :: ptr
  hss_GRPC :: ptr

record hMetricDefinition =
  hmd_Name :: string
  hmd_Description :: string
  hmd_Interval :: ptr
  hmd_SQLs :: ptr
  hmd_Gauges :: ptr
  hmd_StatementTimeoutSeconds :: int32
  hmd_MasterOnly :: bool
  hmd_StandbyOnly :: bool
  hmd_IsInstanceLevel :: bool

record hMetricsSpec =
  hms_Preset :: string
  hms_FromLibraries :: ptr
  hms_Custom :: ptr

record hObjectMetadataOverrides =
  hmo_Labels :: ptr
  hmo_Annotations :: ptr

text \<open>The structs of Kubernetes the custom resources embed.\<close>

record hResourceRequirements =
  hrr_Limits :: ptr
  hrr_Requests :: ptr

record hObjectMeta =
  hom_Name :: string
  hom_Namespace :: string
  hom_UID :: string
  hom_Labels :: ptr
  hom_Annotations :: ptr
  hom_Finalizers :: ptr
  hom_OwnerReferences :: ptr
  hom_Generation :: int64
  hom_ResourceVersion :: string
  hom_DeletionTimestamp :: ptr
  hom_ManagedFields :: ptr

record hListMeta =
  hlm_ResourceVersion :: string
  hlm_Continue :: string
  hlm_RemainingItemCount :: ptr

record hMonitorSpec =
  hsp_Database :: hDatabaseRef
  hsp_Metrics :: hMetricsSpec
  hsp_Sinks :: hSinksSpec
  hsp_Resources :: hResourceRequirements
  hsp_Image :: ImageSpec
  hsp_PodMetadata :: hObjectMetadataOverrides
  hsp_ServiceMetadata :: hObjectMetadataOverrides

record hMonitorStatus =
  hst_Ready :: bool
  hst_PodName :: string
  hst_ObservedGeneration :: int64
  hst_ConfigHash :: string
  hst_LastReconciled :: ptr
  hst_Conditions :: ptr

record TypeMeta =
  tm_Kind :: string
  tm_APIVersion :: string

record hMonitor =
  hpm_TypeMeta :: TypeMeta
  hpm_Meta :: hObjectMeta
  hpm_Spec :: hMonitorSpec
  hpm_Status :: hMonitorStatus

record hLibrarySpec =
  hls_Metrics :: ptr

record hLibraryStatus =
  hlst_ObservedGeneration :: int64
  hlst_Conditions :: ptr

record hLibrary =
  hlib_TypeMeta :: TypeMeta
  hlib_Meta :: hObjectMeta
  hlib_Spec :: hLibrarySpec
  hlib_Status :: hLibraryStatus

record hMonitorList =
  hml_TypeMeta :: TypeMeta
  hml_ListMeta :: hListMeta
  hml_Items :: ptr

record hLibraryList =
  hll_TypeMeta :: TypeMeta
  hll_ListMeta :: hListMeta
  hll_Items :: ptr

section \<open>The store\<close>

datatype cell =
    is_Credentials: CCredentials (un_Credentials: CredentialsSecretRef)
  | is_GRPCTLS: CGRPCTLS (un_GRPCTLS: GRPCTLS)
  | is_Prometheus: CPrometheus (un_Prometheus: PrometheusSink)
  | is_Image: CImage (un_Image: ImageSpec)
  | is_LibraryRef: CLibraryRef (un_LibraryRef: LibraryRef)
  | is_Int64: CInt64 (un_Int64: int64)
  | is_Time: CTime (un_Time: Time)
  | is_StringMap: CStringMap (un_StringMap: "(string, string) gomap")
  | is_Strings: CStrings (un_Strings: "string list")
  | is_OwnerRefs: COwnerRefs (un_OwnerRefs: "OwnerReference list")
  | is_LibraryRefs: CLibraryRefs (un_LibraryRefs: "LibraryRef list")
  | is_Conditions: CConditions (un_Conditions: "Condition list")
  | is_Metrics: CMetrics (un_Metrics: "hMetricDefinition list")
  | is_Database: CDatabase (un_Database: hDatabaseRef)
  | is_GRPC: CGRPC (un_GRPC: hGRPCSink)
  | is_Sinks: CSinks (un_Sinks: hSinksSpec)
  | is_Metric: CMetric (un_Metric: hMetricDefinition)
  | is_MetricsSpec: CMetricsSpec (un_MetricsSpec: hMetricsSpec)
  | is_Overrides: COverrides (un_Overrides: hObjectMetadataOverrides)
  | is_MonitorSpec: CMonitorSpec (un_MonitorSpec: hMonitorSpec)
  | is_MonitorStatus: CMonitorStatus (un_MonitorStatus: hMonitorStatus)
  | is_Monitor: CMonitor (un_Monitor: hMonitor)
  | is_Monitors: CMonitors (un_Monitors: "hMonitor list")
  | is_MonitorList: CMonitorList (un_MonitorList: hMonitorList)
  | is_LibrarySpec: CLibrarySpec (un_LibrarySpec: hLibrarySpec)
  | is_LibraryStatus: CLibraryStatus (un_LibraryStatus: hLibraryStatus)
  | is_Library: CLibrary (un_Library: hLibrary)
  | is_Libraries: CLibraries (un_Libraries: "hLibrary list")
  | is_LibraryList: CLibraryList (un_LibraryList: hLibraryList)

record heap =
  h_cells :: "addr \<Rightarrow> cell option"
  h_next :: addr

definition heap_wf :: "heap \<Rightarrow> bool" where
  "heap_wf h \<longleftrightarrow> (\<forall>a. h_next h \<le> a \<longrightarrow> h_cells h a = None)"

text \<open>A later store: nothing that was allocated changed.\<close>

definition extends :: "heap \<Rightarrow> heap \<Rightarrow> bool" where
  "extends h h' \<longleftrightarrow> h_next h \<le> h_next h' \<and> (\<forall>a < h_next h. h_cells h' a = h_cells h a)"

lemma extends_refl [simp]: "extends h h"
  by (simp add: extends_def)

lemma extends_trans: "extends h h' \<Longrightarrow> extends h' h'' \<Longrightarrow> extends h h''"
  by (simp add: extends_def)

text \<open>\<open>new(T)\<close> and \<open>make\<close> reserve an address, \<open>store_cell\<close> fills the cell.\<close>

definition alloc :: "heap \<Rightarrow> addr \<times> heap" where
  "alloc h = (h_next h, h\<lparr>h_next := Suc (h_next h)\<rparr>)"

definition store_cell :: "addr \<Rightarrow> cell \<Rightarrow> heap \<Rightarrow> heap" where
  "store_cell a c h = h\<lparr>h_cells := (h_cells h)(a := Some c)\<rparr>"

section \<open>Copying through a pointer\<close>

text \<open>
  The shape all generated copies of a pointer, a slice or a map share: nil stays nil; otherwise a
  new cell is allocated and filled by copying what the old one holds. The two tests of the cell's
  type never fail on typed pointers, which is all that Go has.
\<close>

definition new_copy ::
  "(cell \<Rightarrow> bool) \<Rightarrow> (cell \<Rightarrow> 'h) \<Rightarrow> ('h \<Rightarrow> cell) \<Rightarrow> ('h \<Rightarrow> heap \<Rightarrow> 'h \<times> heap) \<Rightarrow> ptr \<Rightarrow> heap \<Rightarrow> ptr \<times> heap"
where
  "new_copy isT un mk into p h =
     (case p of
        None \<Rightarrow> (None, h)
      | Some a \<Rightarrow>
          (case h_cells h a of
             None \<Rightarrow> (None, h)
           | Some c \<Rightarrow>
               if isT c
               then (let (b, h) = alloc h; (y, h) = into (un c) h in (Some b, store_cell b (mk y) h))
               else (None, h)))"

text \<open>\<open>*out = *in\<close> of a struct without pointers, the copy loop of a map, and the loop over a slice.\<close>

definition assign :: "'h \<Rightarrow> heap \<Rightarrow> 'h \<times> heap" where
  "assign x h = (x, h)"

definition copy_map :: "(string, string) gomap \<Rightarrow> heap \<Rightarrow> (string, string) gomap \<times> heap" where
  "copy_map m h = (maps_Copy [] m, h)"

fun copy_each :: "('h \<Rightarrow> heap \<Rightarrow> 'h \<times> heap) \<Rightarrow> 'h list \<Rightarrow> heap \<Rightarrow> 'h list \<times> heap" where
  "copy_each into [] h = ([], h)"
| "copy_each into (x # xs) h =
     (let (y, h) = into x h; (ys, h) = copy_each into xs h in (y # ys, h))"

section \<open>Reading a value back\<close>

text \<open>
  \<open>read x h = Some (v, A)\<close>: the struct value \<open>x\<close> stands for \<open>v\<close> in \<open>h\<close>, and reaches the addresses
  \<open>A\<close>. A dangling or ill-typed pointer reads as \<open>None\<close>.
\<close>

type_synonym ('h, 'a) reader = "'h \<Rightarrow> heap \<Rightarrow> ('a \<times> addr list) option"

definition r_flat :: "('a, 'a) reader" where
  "r_flat x h = Some (x, [])"

definition r_map :: "((string, string) gomap, (string, string) gomap) reader" where
  "r_map m h = (if gomap_wf m then Some (m, []) else None)"

definition r_pair :: "('h, 'a) reader \<Rightarrow> ('g, 'b) reader \<Rightarrow> ('h \<times> 'g, 'a \<times> 'b) reader" where
  "r_pair r1 r2 = (\<lambda>(x1, x2) h.
     case (r1 x1 h, r2 x2 h) of
       (Some (v1, A1), Some (v2, A2)) \<Rightarrow> Some ((v1, v2), A1 @ A2)
     | _ \<Rightarrow> None)"

fun r_list :: "('h, 'a) reader \<Rightarrow> ('h list, 'a list) reader" where
  "r_list r [] h = Some ([], [])"
| "r_list r (x # xs) h =
     (case (r x h, r_list r xs h) of
        (Some (v, A), Some (vs, B)) \<Rightarrow> Some (v # vs, A @ B)
      | _ \<Rightarrow> None)"

definition r_ptr :: "(cell \<Rightarrow> bool) \<Rightarrow> (cell \<Rightarrow> 'h) \<Rightarrow> ('h, 'a) reader \<Rightarrow> (ptr, 'a option) reader" where
  "r_ptr isT un r p h =
     (case p of
        None \<Rightarrow> Some (None, [])
      | Some a \<Rightarrow>
          (case h_cells h a of
             None \<Rightarrow> None
           | Some c \<Rightarrow> if isT c then map_option (\<lambda>(v, A). (Some v, a # A)) (r (un c) h) else None))"

text \<open>A struct read through some of its fields: \<open>sel\<close> takes them out, \<open>build\<close> makes the value.\<close>

definition r_via :: "('h \<Rightarrow> 'g) \<Rightarrow> ('h \<Rightarrow> 'a \<Rightarrow> 'b) \<Rightarrow> ('g, 'a) reader \<Rightarrow> ('h, 'b) reader" where
  "r_via sel build r x h = map_option (\<lambda>(v, A). (build x v, A)) (r (sel x) h)"

lemma r_pair_Some:
  "r_pair r1 r2 (x1, x2) h = Some (v, A) \<longleftrightarrow>
     (\<exists>v1 A1 v2 A2. r1 x1 h = Some (v1, A1) \<and> r2 x2 h = Some (v2, A2) \<and> v = (v1, v2) \<and> A = A1 @ A2)"
  by (auto simp: r_pair_def split: option.splits)

lemma r_list_Some:
  "r_list r (x # xs) h = Some (vs, A) \<longleftrightarrow>
     (\<exists>v A1 ws A2. r x h = Some (v, A1) \<and> r_list r xs h = Some (ws, A2) \<and> vs = v # ws \<and> A = A1 @ A2)"
  by (auto split: option.splits)

lemma r_via_Some:
  "r_via sel build r x h = Some (v, A) \<longleftrightarrow> (\<exists>w. r (sel x) h = Some (w, A) \<and> v = build x w)"
  by (auto simp: r_via_def)

text \<open>
  Original and copy are independent: both read as the same value, they share no cell, and whatever
  is stored into a cell of one of them, the other one still reads as that value.
\<close>

definition independent :: "('h, 'a) reader \<Rightarrow> 'h \<Rightarrow> 'h \<Rightarrow> 'a \<Rightarrow> heap \<Rightarrow> bool" where
  "independent r x y v h \<longleftrightarrow>
     (\<exists>A B. r x h = Some (v, A) \<and> r y h = Some (v, B) \<and> set A \<inter> set B = {}
        \<and> (\<forall>a \<in> set A. \<forall>c. r y (store_cell a c h) = Some (v, B))
        \<and> (\<forall>b \<in> set B. \<forall>c. r x (store_cell b c h) = Some (v, A)))"

section \<open>The contract\<close>

locale deep_copy =
  fixes into :: "'h \<Rightarrow> heap \<Rightarrow> 'h \<times> heap"
    and read :: "('h, 'a) reader"
  assumes copy: "heap_wf h \<Longrightarrow> read x h = Some (v, A) \<Longrightarrow> into x h = (y, h') \<Longrightarrow>
      heap_wf h' \<and> extends h h' \<and> (\<exists>B. read y h' = Some (v, B) \<and> set B \<subseteq> {h_next h..<h_next h'})"
    and local: "read x h = Some (v, A) \<Longrightarrow> \<forall>a \<in> set A. h_cells h' a = h_cells h a \<Longrightarrow> read x h' = Some (v, A)"
    and allocated: "read x h = Some (v, A) \<Longrightarrow> a \<in> set A \<Longrightarrow> h_cells h a \<noteq> None"
begin

lemma reach_below:
  assumes "heap_wf h" "read x h = Some (v, A)" "a \<in> set A"
  shows "a < h_next h"
  using allocated [OF assms(2,3)] assms(1) by (auto simp: heap_wf_def not_le [symmetric])

lemma read_extends:
  assumes "heap_wf h" "read x h = Some (v, A)" "extends h h'"
  shows "read x h' = Some (v, A)"
  by (rule local [OF assms(2)]) (use reach_below [OF assms(1,2)] assms(3) in \<open>auto simp: extends_def\<close>)

text \<open>The original is intact after the copy, and the two share no cell.\<close>

lemma copy_disjoint:
  assumes "heap_wf h" "read x h = Some (v, A)" "into x h = (y, h')"
  obtains B where "read y h' = Some (v, B)" "read x h' = Some (v, A)" "set A \<inter> set B = {}" "extends h h'" "heap_wf h'"
proof -
  obtain B where B: "read y h' = Some (v, B)" "set B \<subseteq> {h_next h..<h_next h'}"
    and ext: "extends h h'" "heap_wf h'"
    using copy [OF assms] by blast
  have "set A \<inter> set B = {}" using B(2) reach_below [OF assms(1,2)] by fastforce
  with B(1) ext read_extends [OF assms(1,2) ext(1)] show ?thesis by (intro that)
qed

lemma copy_independent:
  assumes "heap_wf h" "read x h = Some (v, A)" "into x h = (y, h')"
  shows "independent read x y v h'"
proof -
  obtain B where B: "read y h' = Some (v, B)" "read x h' = Some (v, A)" "set A \<inter> set B = {}"
    by (rule copy_disjoint [OF assms])
  have "read y (store_cell a c h') = Some (v, B)" if "a \<in> set A" for a c
    by (rule local [OF B(1)]) (use that B(3) in \<open>auto simp: store_cell_def\<close>)
  moreover have "read x (store_cell b c h') = Some (v, A)" if "b \<in> set B" for b c
    by (rule local [OF B(2)]) (use that B(3) in \<open>auto simp: store_cell_def\<close>)
  ultimately show ?thesis using B unfolding independent_def by blast
qed

end

section \<open>The contract composes\<close>

definition copy_pair ::
  "('h \<Rightarrow> heap \<Rightarrow> 'h \<times> heap) \<Rightarrow> ('g \<Rightarrow> heap \<Rightarrow> 'g \<times> heap) \<Rightarrow> 'h \<times> 'g \<Rightarrow> heap \<Rightarrow> ('h \<times> 'g) \<times> heap" where
  "copy_pair i1 i2 = (\<lambda>(x1, x2) h. let (y1, h1) = i1 x1 h; (y2, h2) = i2 x2 h1 in ((y1, y2), h2))"

lemma deep_copy_assign: "deep_copy assign r_flat"
  by unfold_locales (auto simp: assign_def r_flat_def)

lemma gm_put_new: "k \<notin> fst ` set dst \<Longrightarrow> gm_put k v dst = dst @ [(k, v)]"
  by (induction dst) (auto simp: gm_put_def)

lemma maps_Copy_append: "gomap_wf (dst @ src) \<Longrightarrow> maps_Copy dst src = dst @ src"
proof (induction dst src rule: maps_Copy.induct)
  case (2 dst k v rest)
  then have "gm_put k v dst = dst @ [(k, v)]"
    by (intro gm_put_new) (auto simp: gomap_wf_def)
  with 2 show ?case by (simp add: gomap_wf_def)
qed simp

lemma deep_copy_map: "deep_copy copy_map r_map"
  by unfold_locales (auto simp: copy_map_def r_map_def maps_Copy_append split: if_splits)

lemma deep_copy_pair:
  assumes "deep_copy i1 r1" "deep_copy i2 r2"
  shows "deep_copy (copy_pair i1 i2) (r_pair r1 r2)"
proof unfold_locales
  fix h x v A y h'
  assume wf: "heap_wf h" and rd: "r_pair r1 r2 x h = Some (v, A)" and run: "copy_pair i1 i2 x h = (y, h')"
  obtain x1 x2 where x: "x = (x1, x2)" by (cases x)
  obtain v1 A1 v2 A2 where r: "r1 x1 h = Some (v1, A1)" "r2 x2 h = Some (v2, A2)" "v = (v1, v2)" "A = A1 @ A2"
    using rd unfolding x r_pair_Some by blast
  obtain y1 h1 where i1: "i1 x1 h = (y1, h1)" by (cases "i1 x1 h")
  obtain y2 h2 where i2: "i2 x2 h1 = (y2, h2)" by (cases "i2 x2 h1")
  have out: "y = (y1, y2)" "h' = h2" using run by (simp_all add: copy_pair_def x i1 i2)
  obtain B1 where c1: "heap_wf h1" "extends h h1" "r1 y1 h1 = Some (v1, B1)" "set B1 \<subseteq> {h_next h..<h_next h1}"
    using deep_copy.copy [OF assms(1) wf r(1) i1] by blast
  have r2': "r2 x2 h1 = Some (v2, A2)" by (rule deep_copy.read_extends [OF assms(2) wf r(2) c1(2)])
  obtain B2 where c2: "heap_wf h2" "extends h1 h2" "r2 y2 h2 = Some (v2, B2)" "set B2 \<subseteq> {h_next h1..<h_next h2}"
    using deep_copy.copy [OF assms(2) c1(1) r2' i2] by blast
  have "r1 y1 h2 = Some (v1, B1)" by (rule deep_copy.read_extends [OF assms(1) c1(1,3) c2(2)])
  then have "r_pair r1 r2 y h' = Some (v, B1 @ B2)" using c2(3) by (simp add: r_pair_def out r(3))
  moreover have "extends h h'" using extends_trans [OF c1(2) c2(2)] by (simp add: out)
  moreover have "set (B1 @ B2) \<subseteq> {h_next h..<h_next h'}"
    using c1(2,4) c2(2,4) by (fastforce simp: out extends_def)
  ultimately show "heap_wf h' \<and> extends h h' \<and> (\<exists>B. r_pair r1 r2 y h' = Some (v, B) \<and> set B \<subseteq> {h_next h..<h_next h'})"
    using c2(1) by (auto simp: out)
next
  fix x v A and h h' :: heap
  assume rd: "r_pair r1 r2 x h = Some (v, A)" and same: "\<forall>a \<in> set A. h_cells h' a = h_cells h a"
  obtain x1 x2 where x: "x = (x1, x2)" by (cases x)
  obtain v1 A1 v2 A2 where r: "r1 x1 h = Some (v1, A1)" "r2 x2 h = Some (v2, A2)" "v = (v1, v2)" "A = A1 @ A2"
    using rd unfolding x r_pair_Some by blast
  have "r1 x1 h' = Some (v1, A1)" "r2 x2 h' = Some (v2, A2)"
    by (rule deep_copy.local [OF assms(1) r(1)], use same r(4) in simp,
        rule deep_copy.local [OF assms(2) r(2)], use same r(4) in simp)
  then show "r_pair r1 r2 x h' = Some (v, A)" by (simp add: x r_pair_Some r(3,4))
next
  fix x v A a and h :: heap
  assume rd: "r_pair r1 r2 x h = Some (v, A)" and a: "a \<in> set A"
  obtain x1 x2 where x: "x = (x1, x2)" by (cases x)
  obtain v1 A1 v2 A2 where r: "r1 x1 h = Some (v1, A1)" "r2 x2 h = Some (v2, A2)" "A = A1 @ A2"
    using rd unfolding x r_pair_Some by blast
  show "h_cells h a \<noteq> None"
    using a r(3) deep_copy.allocated [OF assms(1) r(1)] deep_copy.allocated [OF assms(2) r(2)] by auto
qed

lemma deep_copy_via:
  assumes dc: "deep_copy i r"
    and j: "\<And>x h. j x h = (let (y, h') = i (sel x) h in (mk x y, h'))"
    and mk: "\<And>x y. sel (mk x y) = y" "\<And>x y v. build (mk x y) v = build x v"
  shows "deep_copy j (r_via sel build r)"
proof unfold_locales
  fix h x v A y h'
  assume wf: "heap_wf h" and rd: "r_via sel build r x h = Some (v, A)" and run: "j x h = (y, h')"
  obtain w where w: "r (sel x) h = Some (w, A)" "v = build x w" using rd by (auto simp: r_via_Some)
  obtain z h1 where i: "i (sel x) h = (z, h1)" by (cases "i (sel x) h")
  have out: "y = mk x z" "h' = h1" using run by (simp_all add: j i)
  show "heap_wf h' \<and> extends h h' \<and>
      (\<exists>B. r_via sel build r y h' = Some (v, B) \<and> set B \<subseteq> {h_next h..<h_next h'})"
    using deep_copy.copy [OF dc wf w(1) i] by (auto simp: r_via_Some out mk w(2))
next
  fix x v A and h h' :: heap
  assume rd: "r_via sel build r x h = Some (v, A)" and same: "\<forall>a \<in> set A. h_cells h' a = h_cells h a"
  obtain w where w: "r (sel x) h = Some (w, A)" "v = build x w" using rd by (auto simp: r_via_Some)
  show "r_via sel build r x h' = Some (v, A)"
    by (simp add: r_via_Some w(2)) (blast intro: deep_copy.local [OF dc w(1) same])
next
  fix x v A a and h :: heap
  assume rd: "r_via sel build r x h = Some (v, A)" and a: "a \<in> set A"
  obtain w where w: "r (sel x) h = Some (w, A)" using rd by (auto simp: r_via_Some)
  show "h_cells h a \<noteq> None" by (rule deep_copy.allocated [OF dc w a])
qed

lemma r_list_extends:
  assumes dc: "deep_copy i r" and wf: "heap_wf h" and ext: "extends h h'"
  shows "r_list r xs h = Some (vs, A) \<Longrightarrow> r_list r xs h' = Some (vs, A)"
proof (induction xs arbitrary: vs A)
  case (Cons x xs)
  obtain v A1 ws A2 where r: "r x h = Some (v, A1)" "r_list r xs h = Some (ws, A2)" "vs = v # ws" "A = A1 @ A2"
    using Cons.prems unfolding r_list_Some by blast
  show ?case by (simp add: deep_copy.read_extends [OF dc wf r(1) ext] Cons.IH [OF r(2)] r(3,4))
qed simp

lemma deep_copy_list:
  assumes dc: "deep_copy i r"
  shows "deep_copy (copy_each i) (r_list r)"
proof unfold_locales
  fix h xs vs A ys h'
  assume "heap_wf h" "r_list r xs h = Some (vs, A)" "copy_each i xs h = (ys, h')"
  then show "heap_wf h' \<and> extends h h' \<and> (\<exists>B. r_list r ys h' = Some (vs, B) \<and> set B \<subseteq> {h_next h..<h_next h'})"
  proof (induction xs arbitrary: h vs A ys h')
    case Nil
    then show ?case by auto
  next
    case (Cons x xs)
    obtain v A1 ws A2 where r: "r x h = Some (v, A1)" "r_list r xs h = Some (ws, A2)" "vs = v # ws"
      using Cons.prems(2) unfolding r_list_Some by blast
    obtain y h1 where i: "i x h = (y, h1)" by (cases "i x h")
    obtain zs h2 where each: "copy_each i xs h1 = (zs, h2)" by (cases "copy_each i xs h1")
    have out: "ys = y # zs" "h' = h2" using Cons.prems(3) by (simp_all add: i each)
    obtain B1 where c1: "heap_wf h1" "extends h h1" "r y h1 = Some (v, B1)" "set B1 \<subseteq> {h_next h..<h_next h1}"
      using deep_copy.copy [OF dc Cons.prems(1) r(1) i] by blast
    have "r_list r xs h1 = Some (ws, A2)"
      by (rule r_list_extends [OF dc Cons.prems(1) c1(2) r(2)])
    from Cons.IH [OF c1(1) this each] obtain B2 where c2: "heap_wf h2" "extends h1 h2"
      "r_list r zs h2 = Some (ws, B2)" "set B2 \<subseteq> {h_next h1..<h_next h2}" by blast
    have "r y h2 = Some (v, B1)" by (rule deep_copy.read_extends [OF dc c1(1,3) c2(2)])
    then have "r_list r ys h' = Some (vs, B1 @ B2)" using c2(3) by (simp add: out r(3))
    moreover have "set (B1 @ B2) \<subseteq> {h_next h..<h_next h'}"
      using c1(2,4) c2(2,4) by (fastforce simp: out extends_def)
    ultimately show ?case using c2(1) extends_trans [OF c1(2) c2(2)] out(2) by blast
  qed
next
  fix xs vs A and h h' :: heap
  assume "r_list r xs h = Some (vs, A)" "\<forall>a \<in> set A. h_cells h' a = h_cells h a"
  then show "r_list r xs h' = Some (vs, A)"
  proof (induction xs arbitrary: vs A)
    case (Cons x xs)
    obtain v A1 ws A2 where r: "r x h = Some (v, A1)" "r_list r xs h = Some (ws, A2)" "vs = v # ws" "A = A1 @ A2"
      using Cons.prems(1) unfolding r_list_Some by blast
    have "r x h' = Some (v, A1)" by (rule deep_copy.local [OF dc r(1)]) (use Cons.prems(2) r(4) in simp)
    moreover have "r_list r xs h' = Some (ws, A2)" by (rule Cons.IH [OF r(2)]) (use Cons.prems(2) r(4) in simp)
    ultimately show ?case by (simp add: r(3,4))
  qed simp
next
  fix xs vs A a and h :: heap
  assume "r_list r xs h = Some (vs, A)" "a \<in> set A"
  then show "h_cells h a \<noteq> None"
  proof (induction xs arbitrary: vs A)
    case (Cons x xs)
    obtain v A1 ws A2 where r: "r x h = Some (v, A1)" "r_list r xs h = Some (ws, A2)" "A = A1 @ A2"
      using Cons.prems(1) unfolding r_list_Some by blast
    show ?case using Cons.prems(2) r(3) deep_copy.allocated [OF dc r(1)] Cons.IH [OF r(2)] by auto
  qed simp
qed

lemma new_copy_Some:
  "r_ptr isT un r (Some a) h = Some (v, A) \<Longrightarrow> \<exists>b h'. new_copy isT un mk into (Some a) h = (Some b, h')"
  by (cases "h_cells h a")
     (auto simp: r_ptr_def new_copy_def Let_def case_prod_beta split: if_splits)

lemma new_copy_nil [simp]: "new_copy isT un mk into None h = (None, h)"
  by (simp add: new_copy_def)

lemma heap_wf_alloc: "heap_wf h \<Longrightarrow> alloc h = (b, h1) \<Longrightarrow> heap_wf h1 \<and> extends h h1 \<and> b = h_next h \<and> h_next h1 = Suc b"
  by (auto simp: alloc_def heap_wf_def extends_def)

lemma deep_copy_new:
  assumes dc: "deep_copy i r" and mk: "\<And>x. isT (mk x)" "\<And>x. un (mk x) = x"
  shows "deep_copy (new_copy isT un mk i) (r_ptr isT un r)"
proof unfold_locales
  fix h p v A q h'
  assume wf: "heap_wf h" and rd: "r_ptr isT un r p h = Some (v, A)" and run: "new_copy isT un mk i p h = (q, h')"
  show "heap_wf h' \<and> extends h h' \<and> (\<exists>B. r_ptr isT un r q h' = Some (v, B) \<and> set B \<subseteq> {h_next h..<h_next h'})"
  proof (cases p)
    case None
    with rd run wf show ?thesis by (simp add: r_ptr_def new_copy_def)
  next
    case (Some a)
    obtain c w A1 where c: "h_cells h a = Some c" "isT c" "r (un c) h = Some (w, A1)" "v = Some w"
      using rd Some by (auto simp: r_ptr_def split: option.splits if_splits)
    obtain b h1 where al: "alloc h = (b, h1)" by (cases "alloc h")
    note h1 = heap_wf_alloc [OF wf al]
    obtain y h2 where i: "i (un c) h1 = (y, h2)" by (cases "i (un c) h1")
    have out: "q = Some b" "h' = store_cell b (mk y) h2"
      using run Some c al i by (simp_all add: new_copy_def)
    have "r (un c) h1 = Some (w, A1)" using deep_copy.read_extends [OF dc wf c(3)] h1 by blast
    from deep_copy.copy [OF dc _ this i] h1 obtain B where c2: "heap_wf h2" "extends h1 h2" "r y h2 = Some (w, B)"
      "set B \<subseteq> {h_next h1..<h_next h2}" by blast
    have b: "b = h_next h" "h_next h1 = Suc b" "b < h_next h2" using h1 c2(2) by (auto simp: extends_def)
    have notin: "b \<notin> set B" using c2(4) b(2) by auto
    have "r y h' = Some (w, B)"
      by (rule deep_copy.local [OF dc c2(3)]) (use notin in \<open>auto simp: out store_cell_def\<close>)
    then have "r_ptr isT un r q h' = Some (v, b # B)"
      by (simp add: r_ptr_def out store_cell_def mk c(4))
    moreover have "set (b # B) \<subseteq> {h_next h..<h_next h'}"
      using c2(4) b by (auto simp: out store_cell_def)
    moreover have "heap_wf h'" using c2(1) b(3) by (auto simp: heap_wf_def out store_cell_def)
    moreover have "extends h h'"
      using h1 c2(2) b by (auto simp: extends_def out store_cell_def)
    ultimately show ?thesis by blast
  qed
next
  fix p v A and h h' :: heap
  assume rd: "r_ptr isT un r p h = Some (v, A)" and same: "\<forall>a \<in> set A. h_cells h' a = h_cells h a"
  show "r_ptr isT un r p h' = Some (v, A)"
  proof (cases p)
    case (Some a)
    then obtain c w A1 where c: "h_cells h a = Some c" "isT c" "r (un c) h = Some (w, A1)" "v = Some w" "A = a # A1"
      using rd by (auto simp: r_ptr_def split: option.splits if_splits)
    have "r (un c) h' = Some (w, A1)" by (rule deep_copy.local [OF dc c(3)]) (use same c(5) in simp)
    with Some c same show ?thesis by (simp add: r_ptr_def)
  qed (use rd in \<open>simp add: r_ptr_def\<close>)
next
  fix p v A a and h :: heap
  assume "r_ptr isT un r p h = Some (v, A)" "a \<in> set A"
  then show "h_cells h a \<noteq> None"
    using deep_copy.allocated [OF dc] by (auto simp: r_ptr_def split: option.splits if_splits)
qed

end
