(* ===== verification/DeepCopy.thy ===== *)
theory DeepCopy
  imports DeepHeap
begin

text \<open>
  The generated file \<open>api/v1/zz_generated.deepcopy.go\<close>: one definition per method, under the name
  \<open><type>_<method>\<close>. \<open>DeepCopyInto\<close> takes the struct value it copies and returns the struct value
  it writes; \<open>DeepCopy\<close> takes and returns a pointer; \<open>DeepCopyObject\<close> returns an interface value,
  \<open>None\<close> being the nil interface. The copies of the embedded Kubernetes structs
  (\<open>metav1.ObjectMeta\<close>, \<open>metav1.ListMeta\<close>, \<open>metav1.Condition\<close>, \<open>metav1.Time\<close>,
  \<open>corev1.ResourceRequirements\<close>) are code of other modules: the parameter \<open>X\<close>, of which
  \<open>copies_ok\<close> asks that each is a deep copy.

  For every struct a reader says which value of \<open>ApiTypes\<close> it stands for, and a lemma or an
  interpretation shows that its copy meets the contract \<open>deep_copy\<close>.
\<close>

section \<open>Pointers, maps and slices of flat values\<close>

definition new_StringMap :: "ptr \<Rightarrow> heap \<Rightarrow> ptr \<times> heap" where
  "new_StringMap = new_copy is_StringMap un_StringMap CStringMap copy_map"

definition new_Strings :: "ptr \<Rightarrow> heap \<Rightarrow> ptr \<times> heap" where
  "new_Strings = new_copy is_Strings un_Strings CStrings assign"

definition or_empty :: "'a list option \<Rightarrow> 'a list" where
  "or_empty v = (case v of None \<Rightarrow> [] | Some xs \<Rightarrow> xs)"

definition r_StringMap :: "(ptr, (string, string) gomap option) reader" where
  "r_StringMap = r_ptr is_StringMap un_StringMap r_map"

definition r_Strings :: "(ptr, string list option) reader" where
  "r_Strings = r_ptr is_Strings un_Strings r_flat"

lemma deep_copy_StringMap: "deep_copy new_StringMap r_StringMap"
  unfolding new_StringMap_def r_StringMap_def by (rule deep_copy_new [OF deep_copy_map]) simp_all

lemma deep_copy_Strings: "deep_copy new_Strings r_Strings"
  unfolding new_Strings_def r_Strings_def by (rule deep_copy_new [OF deep_copy_assign]) simp_all

section \<open>The structs of Kubernetes\<close>

record copies =
  cp_ObjectMeta :: "hObjectMeta \<Rightarrow> heap \<Rightarrow> hObjectMeta \<times> heap"
  cp_ListMeta :: "hListMeta \<Rightarrow> heap \<Rightarrow> hListMeta \<times> heap"
  cp_ResourceRequirements :: "hResourceRequirements \<Rightarrow> heap \<Rightarrow> hResourceRequirements \<times> heap"
  cp_Condition :: "Condition \<Rightarrow> heap \<Rightarrow> Condition \<times> heap"
  cp_Time :: "ptr \<Rightarrow> heap \<Rightarrow> ptr \<times> heap"

definition r_Time :: "(ptr, Time option) reader" where
  "r_Time = r_ptr is_Time un_Time r_flat"

definition r_ObjectMeta :: "(hObjectMeta, ObjectMeta) reader" where
  "r_ObjectMeta =
     r_via
       (\<lambda>x. (hom_Labels x, hom_Annotations x, hom_Finalizers x, hom_OwnerReferences x,
             hom_DeletionTimestamp x, hom_ManagedFields x))
       (\<lambda>x (labels, annotations, finalizers, owners, deleted, managed).
          \<lparr>om_Name = hom_Name x, om_Namespace = hom_Namespace x, om_UID = hom_UID x,
           om_Labels = or_empty labels, om_Annotations = or_empty annotations,
           om_Finalizers = or_empty finalizers, om_OwnerReferences = or_empty owners,
           om_Generation = hom_Generation x, om_ResourceVersion = hom_ResourceVersion x,
           om_DeletionTimestamp = deleted, om_ManagedFields = or_empty managed\<rparr>)
       (r_pair r_StringMap (r_pair r_StringMap (r_pair r_Strings
          (r_pair (r_ptr is_OwnerRefs un_OwnerRefs r_flat) (r_pair r_Time r_Strings)))))"

record ListMeta =
  lm_ResourceVersion :: string
  lm_Continue :: string
  lm_RemainingItemCount :: "int64 option"

definition r_ListMeta :: "(hListMeta, ListMeta) reader" where
  "r_ListMeta =
     r_via hlm_RemainingItemCount
       (\<lambda>x n. \<lparr>lm_ResourceVersion = hlm_ResourceVersion x, lm_Continue = hlm_Continue x,
               lm_RemainingItemCount = n\<rparr>)
       (r_ptr is_Int64 un_Int64 r_flat)"

definition r_ResourceRequirements :: "(hResourceRequirements, ResourceRequirements) reader" where
  "r_ResourceRequirements =
     r_via (\<lambda>x. (hrr_Limits x, hrr_Requests x))
       (\<lambda>x (limits, requests). \<lparr>rr_Limits = or_empty limits, rr_Requests = or_empty requests\<rparr>)
       (r_pair r_StringMap r_StringMap)"

definition copies_ok :: "copies \<Rightarrow> bool" where
  "copies_ok X \<longleftrightarrow>
     deep_copy (cp_ObjectMeta X) r_ObjectMeta \<and> deep_copy (cp_ListMeta X) r_ListMeta
     \<and> deep_copy (cp_ResourceRequirements X) r_ResourceRequirements
     \<and> deep_copy (cp_Condition X) r_flat \<and> deep_copy (cp_Time X) r_Time"

section \<open>The structs without nested structs\<close>

definition CredentialsSecretRef_DeepCopyInto :: "CredentialsSecretRef \<Rightarrow> heap \<Rightarrow> CredentialsSecretRef \<times> heap" where
  "CredentialsSecretRef_DeepCopyInto = assign"

definition CredentialsSecretRef_DeepCopy :: "ptr \<Rightarrow> heap \<Rightarrow> ptr \<times> heap" where
  "CredentialsSecretRef_DeepCopy =
     new_copy is_Credentials un_Credentials CCredentials CredentialsSecretRef_DeepCopyInto"

definition DatabaseRef_DeepCopyInto :: "hDatabaseRef \<Rightarrow> heap \<Rightarrow> hDatabaseRef \<times> heap" where
  "DatabaseRef_DeepCopyInto x h =
     (let out = x;
          (p, h) = new_copy is_Credentials un_Credentials CCredentials assign (hdb_CredentialsSecret x) h;
          out = out\<lparr>hdb_CredentialsSecret := p\<rparr>;
          (p, h) = new_StringMap (hdb_CustomTags x) h;
          out = out\<lparr>hdb_CustomTags := p\<rparr>
      in (out, h))"

definition DatabaseRef_DeepCopy :: "ptr \<Rightarrow> heap \<Rightarrow> ptr \<times> heap" where
  "DatabaseRef_DeepCopy = new_copy is_Database un_Database CDatabase DatabaseRef_DeepCopyInto"

definition GRPCSink_DeepCopyInto :: "hGRPCSink \<Rightarrow> heap \<Rightarrow> hGRPCSink \<times> heap" where
  "GRPCSink_DeepCopyInto x h =
     (let out = x;
          (p, h) = new_copy is_GRPCTLS un_GRPCTLS CGRPCTLS assign (hgs_TLS x) h;
          out = out\<lparr>hgs_TLS := p\<rparr>
      in (out, h))"

definition GRPCSink_DeepCopy :: "ptr \<Rightarrow> heap \<Rightarrow> ptr \<times> heap" where
  "GRPCSink_DeepCopy = new_copy is_GRPC un_GRPC CGRPC GRPCSink_DeepCopyInto"

definition GRPCTLS_DeepCopyInto :: "GRPCTLS \<Rightarrow> heap \<Rightarrow> GRPCTLS \<times> heap" where
  "GRPCTLS_DeepCopyInto = assign"

definition GRPCTLS_DeepCopy :: "ptr \<Rightarrow> heap \<Rightarrow> ptr \<times> heap" where
  "GRPCTLS_DeepCopy = new_copy is_GRPCTLS un_GRPCTLS CGRPCTLS GRPCTLS_DeepCopyInto"

definition ImageSpec_DeepCopyInto :: "ImageSpec \<Rightarrow> heap \<Rightarrow> ImageSpec \<times> heap" where
  "ImageSpec_DeepCopyInto = assign"

definition ImageSpec_DeepCopy :: "ptr \<Rightarrow> heap \<Rightarrow> ptr \<times> heap" where
  "ImageSpec_DeepCopy = new_copy is_Image un_Image CImage ImageSpec_DeepCopyInto"

definition LibraryRef_DeepCopyInto :: "LibraryRef \<Rightarrow> heap \<Rightarrow> LibraryRef \<times> heap" where
  "LibraryRef_DeepCopyInto = assign"

definition LibraryRef_DeepCopy :: "ptr \<Rightarrow> heap \<Rightarrow> ptr \<times> heap" where
  "LibraryRef_DeepCopy = new_copy is_LibraryRef un_LibraryRef CLibraryRef LibraryRef_DeepCopyInto"

definition PrometheusSink_DeepCopyInto :: "PrometheusSink \<Rightarrow> heap \<Rightarrow> PrometheusSink \<times> heap" where
  "PrometheusSink_DeepCopyInto = assign"

definition PrometheusSink_DeepCopy :: "ptr \<Rightarrow> heap \<Rightarrow> ptr \<times> heap" where
  "PrometheusSink_DeepCopy = new_copy is_Prometheus un_Prometheus CPrometheus PrometheusSink_DeepCopyInto"

definition ObjectMetadataOverrides_DeepCopyInto ::
  "hObjectMetadataOverrides \<Rightarrow> heap \<Rightarrow> hObjectMetadataOverrides \<times> heap" where
  "ObjectMetadataOverrides_DeepCopyInto x h =
     (let out = x;
          (p, h) = new_StringMap (hmo_Labels x) h;
          out = out\<lparr>hmo_Labels := p\<rparr>;
          (p, h) = new_StringMap (hmo_Annotations x) h;
          out = out\<lparr>hmo_Annotations := p\<rparr>
      in (out, h))"

definition ObjectMetadataOverrides_DeepCopy :: "ptr \<Rightarrow> heap \<Rightarrow> ptr \<times> heap" where
  "ObjectMetadataOverrides_DeepCopy =
     new_copy is_Overrides un_Overrides COverrides ObjectMetadataOverrides_DeepCopyInto"

definition MetricDefinition_DeepCopyInto :: "hMetricDefinition \<Rightarrow> heap \<Rightarrow> hMetricDefinition \<times> heap" where
  "MetricDefinition_DeepCopyInto x h =
     (let out = x;
          (p, h) = new_copy is_Int64 un_Int64 CInt64 assign (hmd_Interval x) h;
          out = out\<lparr>hmd_Interval := p\<rparr>;
          (p, h) = new_StringMap (hmd_SQLs x) h;
          out = out\<lparr>hmd_SQLs := p\<rparr>;
          (p, h) = new_Strings (hmd_Gauges x) h;
          out = out\<lparr>hmd_Gauges := p\<rparr>
      in (out, h))"

definition MetricDefinition_DeepCopy :: "ptr \<Rightarrow> heap \<Rightarrow> ptr \<times> heap" where
  "MetricDefinition_DeepCopy = new_copy is_Metric un_Metric CMetric MetricDefinition_DeepCopyInto"

section \<open>The structs with nested structs\<close>

definition MetricsSpec_DeepCopyInto :: "hMetricsSpec \<Rightarrow> heap \<Rightarrow> hMetricsSpec \<times> heap" where
  "MetricsSpec_DeepCopyInto x h =
     (let out = x;
          (p, h) = new_copy is_LibraryRefs un_LibraryRefs CLibraryRefs assign (hms_FromLibraries x) h;
          out = out\<lparr>hms_FromLibraries := p\<rparr>;
          (p, h) = new_copy is_Metrics un_Metrics CMetrics (copy_each MetricDefinition_DeepCopyInto)
                     (hms_Custom x) h;
          out = out\<lparr>hms_Custom := p\<rparr>
      in (out, h))"

definition MetricsSpec_DeepCopy :: "ptr \<Rightarrow> heap \<Rightarrow> ptr \<times> heap" where
  "MetricsSpec_DeepCopy = new_copy is_MetricsSpec un_MetricsSpec CMetricsSpec MetricsSpec_DeepCopyInto"

definition SinksSpec_DeepCopyInto :: "hSinksSpec \<Rightarrow> heap \<Rightarrow> hSinksSpec \<times> heap" where
  "SinksSpec_DeepCopyInto x h =
     (let out = x;
          (p, h) = new_copy is_Prometheus un_Prometheus CPrometheus assign (hss_Prometheus x) h;
          out = out\<lparr>hss_Prometheus := p\<rparr>;
          (p, h) = new_copy is_GRPC un_GRPC CGRPC GRPCSink_DeepCopyInto (hss_GRPC x) h;
          out = out\<lparr>hss_GRPC := p\<rparr>
      in (out, h))"

definition SinksSpec_DeepCopy :: "ptr \<Rightarrow> heap \<Rightarrow> ptr \<times> heap" where
  "SinksSpec_DeepCopy = new_copy is_Sinks un_Sinks CSinks SinksSpec_DeepCopyInto"

definition PgpilotMonitorSpec_DeepCopyInto :: "copies \<Rightarrow> hMonitorSpec \<Rightarrow> heap \<Rightarrow> hMonitorSpec \<times> heap" where
  "PgpilotMonitorSpec_DeepCopyInto X x h =
     (let out = x;
          (database, h) = DatabaseRef_DeepCopyInto (hsp_Database x) h;
          out = out\<lparr>hsp_Database := database\<rparr>;
          (metrics, h) = MetricsSpec_DeepCopyInto (hsp_Metrics x) h;
          out = out\<lparr>hsp_Metrics := metrics\<rparr>;
          (sinks, h) = SinksSpec_DeepCopyInto (hsp_Sinks x) h;
          out = out\<lparr>hsp_Sinks := sinks\<rparr>;
          (resources, h) = cp_ResourceRequirements X (hsp_Resources x) h;
          out = out\<lparr>hsp_Resources := resources\<rparr>;
          out = out\<lparr>hsp_Image := hsp_Image x\<rparr>;
          (pod, h) = ObjectMetadataOverrides_DeepCopyInto (hsp_PodMetadata x) h;
          out = out\<lparr>hsp_PodMetadata := pod\<rparr>;
          (service, h) = ObjectMetadataOverrides_DeepCopyInto (hsp_ServiceMetadata x) h;
          out = out\<lparr>hsp_ServiceMetadata := service\<rparr>
      in (out, h))"

definition PgpilotMonitorSpec_DeepCopy :: "copies \<Rightarrow> ptr \<Rightarrow> heap \<Rightarrow> ptr \<times> heap" where
  "PgpilotMonitorSpec_DeepCopy X =
     new_copy is_MonitorSpec un_MonitorSpec CMonitorSpec (PgpilotMonitorSpec_DeepCopyInto X)"

definition new_Conditions :: "copies \<Rightarrow> ptr \<Rightarrow> heap \<Rightarrow> ptr \<times> heap" where
  "new_Conditions X = new_copy is_Conditions un_Conditions CConditions (copy_each (cp_Condition X))"

text \<open>\<open>LastReconciled\<close> is copied by the \<open>DeepCopy\<close> of \<open>metav1.Time\<close>, called on a pointer that is not nil.\<close>

definition PgpilotMonitorStatus_DeepCopyInto :: "copies \<Rightarrow> hMonitorStatus \<Rightarrow> heap \<Rightarrow> hMonitorStatus \<times> heap" where
  "PgpilotMonitorStatus_DeepCopyInto X x h =
     (let out = x;
          (out, h) =
            (if hst_LastReconciled x \<noteq> None
             then let (p, h) = cp_Time X (hst_LastReconciled x) h in (out\<lparr>hst_LastReconciled := p\<rparr>, h)
             else (out, h));
          (p, h) = new_Conditions X (hst_Conditions x) h;
          out = out\<lparr>hst_Conditions := p\<rparr>
      in (out, h))"

definition PgpilotMonitorStatus_DeepCopy :: "copies \<Rightarrow> ptr \<Rightarrow> heap \<Rightarrow> ptr \<times> heap" where
  "PgpilotMonitorStatus_DeepCopy X =
     new_copy is_MonitorStatus un_MonitorStatus CMonitorStatus (PgpilotMonitorStatus_DeepCopyInto X)"

definition PgpilotMetricLibrarySpec_DeepCopyInto :: "hLibrarySpec \<Rightarrow> heap \<Rightarrow> hLibrarySpec \<times> heap" where
  "PgpilotMetricLibrarySpec_DeepCopyInto x h =
     (let out = x;
          (p, h) = new_copy is_Metrics un_Metrics CMetrics (copy_each MetricDefinition_DeepCopyInto)
                     (hls_Metrics x) h;
          out = out\<lparr>hls_Metrics := p\<rparr>
      in (out, h))"

definition PgpilotMetricLibrarySpec_DeepCopy :: "ptr \<Rightarrow> heap \<Rightarrow> ptr \<times> heap" where
  "PgpilotMetricLibrarySpec_DeepCopy =
     new_copy is_LibrarySpec un_LibrarySpec CLibrarySpec PgpilotMetricLibrarySpec_DeepCopyInto"

definition PgpilotMetricLibraryStatus_DeepCopyInto ::
  "copies \<Rightarrow> hLibraryStatus \<Rightarrow> heap \<Rightarrow> hLibraryStatus \<times> heap" where
  "PgpilotMetricLibraryStatus_DeepCopyInto X x h =
     (let out = x;
          (p, h) = new_Conditions X (hlst_Conditions x) h;
          out = out\<lparr>hlst_Conditions := p\<rparr>
      in (out, h))"

definition PgpilotMetricLibraryStatus_DeepCopy :: "copies \<Rightarrow> ptr \<Rightarrow> heap \<Rightarrow> ptr \<times> heap" where
  "PgpilotMetricLibraryStatus_DeepCopy X =
     new_copy is_LibraryStatus un_LibraryStatus CLibraryStatus (PgpilotMetricLibraryStatus_DeepCopyInto X)"

section \<open>The resources and their lists\<close>

text \<open>What a \<open>runtime.Object\<close> interface holds: a pointer with its dynamic type.\<close>

datatype Object =
    ObjMonitor ptr
  | ObjMonitorList ptr
  | ObjLibrary ptr
  | ObjLibraryList ptr

definition PgpilotMonitor_DeepCopyInto :: "copies \<Rightarrow> hMonitor \<Rightarrow> heap \<Rightarrow> hMonitor \<times> heap" where
  "PgpilotMonitor_DeepCopyInto X x h =
     (let out = x;
          out = out\<lparr>hpm_TypeMeta := hpm_TypeMeta x\<rparr>;
          (meta, h) = cp_ObjectMeta X (hpm_Meta x) h;
          out = out\<lparr>hpm_Meta := meta\<rparr>;
          (spec, h) = PgpilotMonitorSpec_DeepCopyInto X (hpm_Spec x) h;
          out = out\<lparr>hpm_Spec := spec\<rparr>;
          (status, h) = PgpilotMonitorStatus_DeepCopyInto X (hpm_Status x) h;
          out = out\<lparr>hpm_Status := status\<rparr>
      in (out, h))"

definition PgpilotMonitor_DeepCopy :: "copies \<Rightarrow> ptr \<Rightarrow> heap \<Rightarrow> ptr \<times> heap" where
  "PgpilotMonitor_DeepCopy X = new_copy is_Monitor un_Monitor CMonitor (PgpilotMonitor_DeepCopyInto X)"

definition PgpilotMonitor_DeepCopyObject :: "copies \<Rightarrow> ptr \<Rightarrow> heap \<Rightarrow> Object option \<times> heap" where
  "PgpilotMonitor_DeepCopyObject X p h =
     (let (c, h) = PgpilotMonitor_DeepCopy X p h
      in if c \<noteq> None then (Some (ObjMonitor c), h) else (None, h))"

definition PgpilotMetricLibrary_DeepCopyInto :: "copies \<Rightarrow> hLibrary \<Rightarrow> heap \<Rightarrow> hLibrary \<times> heap" where
  "PgpilotMetricLibrary_DeepCopyInto X x h =
     (let out = x;
          out = out\<lparr>hlib_TypeMeta := hlib_TypeMeta x\<rparr>;
          (meta, h) = cp_ObjectMeta X (hlib_Meta x) h;
          out = out\<lparr>hlib_Meta := meta\<rparr>;
          (spec, h) = PgpilotMetricLibrarySpec_DeepCopyInto (hlib_Spec x) h;
          out = out\<lparr>hlib_Spec := spec\<rparr>;
          (status, h) = PgpilotMetricLibraryStatus_DeepCopyInto X (hlib_Status x) h;
          out = out\<lparr>hlib_Status := status\<rparr>
      in (out, h))"

definition PgpilotMetricLibrary_DeepCopy :: "copies \<Rightarrow> ptr \<Rightarrow> heap \<Rightarrow> ptr \<times> heap" where
  "PgpilotMetricLibrary_DeepCopy X =
     new_copy is_Library un_Library CLibrary (PgpilotMetricLibrary_DeepCopyInto X)"

definition PgpilotMetricLibrary_DeepCopyObject :: "copies \<Rightarrow> ptr \<Rightarrow> heap \<Rightarrow> Object option \<times> heap" where
  "PgpilotMetricLibrary_DeepCopyObject X p h =
     (let (c, h) = PgpilotMetricLibrary_DeepCopy X p h
      in if c \<noteq> None then (Some (ObjLibrary c), h) else (None, h))"

definition PgpilotMonitorList_DeepCopyInto :: "copies \<Rightarrow> hMonitorList \<Rightarrow> heap \<Rightarrow> hMonitorList \<times> heap" where
  "PgpilotMonitorList_DeepCopyInto X x h =
     (let out = x;
          out = out\<lparr>hml_TypeMeta := hml_TypeMeta x\<rparr>;
          (meta, h) = cp_ListMeta X (hml_ListMeta x) h;
          out = out\<lparr>hml_ListMeta := meta\<rparr>;
          (p, h) = new_copy is_Monitors un_Monitors CMonitors (copy_each (PgpilotMonitor_DeepCopyInto X))
                     (hml_Items x) h;
          out = out\<lparr>hml_Items := p\<rparr>
      in (out, h))"

definition PgpilotMonitorList_DeepCopy :: "copies \<Rightarrow> ptr \<Rightarrow> heap \<Rightarrow> ptr \<times> heap" where
  "PgpilotMonitorList_DeepCopy X =
     new_copy is_MonitorList un_MonitorList CMonitorList (PgpilotMonitorList_DeepCopyInto X)"

definition PgpilotMonitorList_DeepCopyObject :: "copies \<Rightarrow> ptr \<Rightarrow> heap \<Rightarrow> Object option \<times> heap" where
  "PgpilotMonitorList_DeepCopyObject X p h =
     (let (c, h) = PgpilotMonitorList_DeepCopy X p h
      in if c \<noteq> None then (Some (ObjMonitorList c), h) else (None, h))"

definition PgpilotMetricLibraryList_DeepCopyInto :: "copies \<Rightarrow> hLibraryList \<Rightarrow> heap \<Rightarrow> hLibraryList \<times> heap" where
  "PgpilotMetricLibraryList_DeepCopyInto X x h =
     (let out = x;
          out = out\<lparr>hll_TypeMeta := hll_TypeMeta x\<rparr>;
          (meta, h) = cp_ListMeta X (hll_ListMeta x) h;
          out = out\<lparr>hll_ListMeta := meta\<rparr>;
          (p, h) = new_copy is_Libraries un_Libraries CLibraries
                     (copy_each (PgpilotMetricLibrary_DeepCopyInto X)) (hll_Items x) h;
          out = out\<lparr>hll_Items := p\<rparr>
      in (out, h))"

definition PgpilotMetricLibraryList_DeepCopy :: "copies \<Rightarrow> ptr \<Rightarrow> heap \<Rightarrow> ptr \<times> heap" where
  "PgpilotMetricLibraryList_DeepCopy X =
     new_copy is_LibraryList un_LibraryList CLibraryList (PgpilotMetricLibraryList_DeepCopyInto X)"

definition PgpilotMetricLibraryList_DeepCopyObject :: "copies \<Rightarrow> ptr \<Rightarrow> heap \<Rightarrow> Object option \<times> heap" where
  "PgpilotMetricLibraryList_DeepCopyObject X p h =
     (let (c, h) = PgpilotMetricLibraryList_DeepCopy X p h
      in if c \<noteq> None then (Some (ObjLibraryList c), h) else (None, h))"

end
