(* ===== verification/DeepCopyFacts.thy ===== *)
theory DeepCopyFacts
  imports DeepCopy
begin

text \<open>
  Every generated copy is a deep copy: the readers of the structs, the contract proved for each
  struct from the contracts of its parts, and the interpretations of \<open>deep_copy\<close> for the structs
  the program declares. At the end the independence of original and copy for the four root types,
  and the reference implementation of the Kubernetes copies.
\<close>

section \<open>Readers of the structs\<close>

definition r_DatabaseRef :: "(hDatabaseRef, DatabaseRef) reader" where
  "r_DatabaseRef =
     r_via (\<lambda>x. (hdb_CredentialsSecret x, hdb_CustomTags x))
       (\<lambda>x (secret, tags).
          \<lparr>db_Host = hdb_Host x, db_Port = hdb_Port x, db_Database = hdb_Database x,
           db_SSLMode = hdb_SSLMode x, db_Username = hdb_Username x, db_Password = hdb_Password x,
           db_CredentialsSecret = secret, db_CustomTags = or_empty tags\<rparr>)
       (r_pair (r_ptr is_Credentials un_Credentials r_flat) r_StringMap)"

definition r_GRPCSink :: "(hGRPCSink, GRPCSink) reader" where
  "r_GRPCSink =
     r_via hgs_TLS (\<lambda>x tls. \<lparr>gs_Enabled = hgs_Enabled x, gs_Endpoint = hgs_Endpoint x, gs_TLS = tls\<rparr>)
       (r_ptr is_GRPCTLS un_GRPCTLS r_flat)"

definition r_SinksSpec :: "(hSinksSpec, SinksSpec) reader" where
  "r_SinksSpec =
     r_via (\<lambda>x. (hss_Prometheus x, hss_GRPC x))
       (\<lambda>x (prometheus, grpc). \<lparr>ss_Prometheus = prometheus, ss_GRPC = grpc\<rparr>)
       (r_pair (r_ptr is_Prometheus un_Prometheus r_flat) (r_ptr is_GRPC un_GRPC r_GRPCSink))"

definition r_MetricDefinition :: "(hMetricDefinition, MetricDefinition) reader" where
  "r_MetricDefinition =
     r_via (\<lambda>x. (hmd_Interval x, hmd_SQLs x, hmd_Gauges x))
       (\<lambda>x (interval, sqls, gauges).
          \<lparr>md_Name = hmd_Name x, md_Description = hmd_Description x, md_Interval = interval,
           md_SQLs = or_empty sqls, md_Gauges = or_empty gauges,
           md_StatementTimeoutSeconds = hmd_StatementTimeoutSeconds x, md_MasterOnly = hmd_MasterOnly x,
           md_StandbyOnly = hmd_StandbyOnly x, md_IsInstanceLevel = hmd_IsInstanceLevel x\<rparr>)
       (r_pair (r_ptr is_Int64 un_Int64 r_flat) (r_pair r_StringMap r_Strings))"

definition r_Metrics :: "(ptr, MetricDefinition list option) reader" where
  "r_Metrics = r_ptr is_Metrics un_Metrics (r_list r_MetricDefinition)"

definition r_MetricsSpec :: "(hMetricsSpec, MetricsSpec) reader" where
  "r_MetricsSpec =
     r_via (\<lambda>x. (hms_FromLibraries x, hms_Custom x))
       (\<lambda>x (libraries, custom).
          \<lparr>ms_Preset = hms_Preset x, ms_FromLibraries = or_empty libraries, ms_Custom = or_empty custom\<rparr>)
       (r_pair (r_ptr is_LibraryRefs un_LibraryRefs r_flat) r_Metrics)"

definition r_Overrides :: "(hObjectMetadataOverrides, ObjectMetadataOverrides) reader" where
  "r_Overrides =
     r_via (\<lambda>x. (hmo_Labels x, hmo_Annotations x))
       (\<lambda>x (labels, annotations). \<lparr>mo_Labels = or_empty labels, mo_Annotations = or_empty annotations\<rparr>)
       (r_pair r_StringMap r_StringMap)"

definition r_MonitorSpec :: "(hMonitorSpec, PgpilotMonitorSpec) reader" where
  "r_MonitorSpec =
     r_via (\<lambda>x. (hsp_Database x, hsp_Metrics x, hsp_Sinks x, hsp_Resources x, hsp_PodMetadata x, hsp_ServiceMetadata x))
       (\<lambda>x (database, metrics, sinks, resources, pod, service).
          \<lparr>sp_Database = database, sp_Metrics = metrics, sp_Sinks = sinks, sp_Resources = resources,
           sp_Image = hsp_Image x, sp_PodMetadata = pod, sp_ServiceMetadata = service\<rparr>)
       (r_pair r_DatabaseRef (r_pair r_MetricsSpec (r_pair r_SinksSpec
          (r_pair r_ResourceRequirements (r_pair r_Overrides r_Overrides)))))"

definition r_Conditions :: "(ptr, Condition list option) reader" where
  "r_Conditions = r_ptr is_Conditions un_Conditions (r_list r_flat)"

definition r_MonitorStatus :: "(hMonitorStatus, PgpilotMonitorStatus) reader" where
  "r_MonitorStatus =
     r_via (\<lambda>x. (hst_LastReconciled x, hst_Conditions x))
       (\<lambda>x (last, conditions).
          \<lparr>st_Ready = hst_Ready x, st_PodName = hst_PodName x, st_ObservedGeneration = hst_ObservedGeneration x,
           st_ConfigHash = hst_ConfigHash x, st_LastReconciled = last, st_Conditions = or_empty conditions\<rparr>)
       (r_pair r_Time r_Conditions)"

definition r_Monitor :: "(hMonitor, TypeMeta \<times> PgpilotMonitor) reader" where
  "r_Monitor =
     r_via (\<lambda>x. (hpm_Meta x, hpm_Spec x, hpm_Status x))
       (\<lambda>x (meta, spec, status). (hpm_TypeMeta x, \<lparr>pm_Meta = meta, pm_Spec = spec, pm_Status = status\<rparr>))
       (r_pair r_ObjectMeta (r_pair r_MonitorSpec r_MonitorStatus))"

definition r_LibrarySpec :: "(hLibrarySpec, PgpilotMetricLibrarySpec) reader" where
  "r_LibrarySpec = r_via hls_Metrics (\<lambda>x metrics. \<lparr>ls_Metrics = or_empty metrics\<rparr>) r_Metrics"

definition r_LibraryStatus :: "(hLibraryStatus, PgpilotMetricLibraryStatus) reader" where
  "r_LibraryStatus =
     r_via hlst_Conditions
       (\<lambda>x conditions. \<lparr>lst_ObservedGeneration = hlst_ObservedGeneration x, lst_Conditions = or_empty conditions\<rparr>)
       r_Conditions"

definition r_Library :: "(hLibrary, TypeMeta \<times> PgpilotMetricLibrary) reader" where
  "r_Library =
     r_via (\<lambda>x. (hlib_Meta x, hlib_Spec x, hlib_Status x))
       (\<lambda>x (meta, spec, status). (hlib_TypeMeta x, \<lparr>lib_Meta = meta, lib_Spec = spec, lib_Status = status\<rparr>))
       (r_pair r_ObjectMeta (r_pair r_LibrarySpec r_LibraryStatus))"

definition r_MonitorList :: "(hMonitorList, TypeMeta \<times> ListMeta \<times> (TypeMeta \<times> PgpilotMonitor) list) reader" where
  "r_MonitorList =
     r_via (\<lambda>x. (hml_ListMeta x, hml_Items x)) (\<lambda>x (meta, items). (hml_TypeMeta x, meta, or_empty items))
       (r_pair r_ListMeta (r_ptr is_Monitors un_Monitors (r_list r_Monitor)))"

definition r_LibraryList ::
  "(hLibraryList, TypeMeta \<times> ListMeta \<times> (TypeMeta \<times> PgpilotMetricLibrary) list) reader" where
  "r_LibraryList =
     r_via (\<lambda>x. (hll_ListMeta x, hll_Items x)) (\<lambda>x (meta, items). (hll_TypeMeta x, meta, or_empty items))
       (r_pair r_ListMeta (r_ptr is_Libraries un_Libraries (r_list r_Library)))"

section \<open>Each struct's copy meets the contract\<close>

lemma deep_copy_new_flat: "(\<And>x. isT (mk x)) \<Longrightarrow> (\<And>x. un (mk x) = x) \<Longrightarrow> deep_copy (new_copy isT un mk assign) (r_ptr isT un r_flat)"
  by (rule deep_copy_new [OF deep_copy_assign])

interpretation database_copy: deep_copy DatabaseRef_DeepCopyInto r_DatabaseRef
  unfolding r_DatabaseRef_def
  by (rule deep_copy_via [where mk = "\<lambda>x (p, q). x\<lparr>hdb_CredentialsSecret := p, hdb_CustomTags := q\<rparr>",
        OF deep_copy_pair [OF deep_copy_new_flat [where mk = CCredentials] deep_copy_StringMap]])
     (auto simp: DatabaseRef_DeepCopyInto_def copy_pair_def split: prod.splits)

interpretation grpc_copy: deep_copy GRPCSink_DeepCopyInto r_GRPCSink
  unfolding r_GRPCSink_def
  by (rule deep_copy_via [where mk = "\<lambda>x p. x\<lparr>hgs_TLS := p\<rparr>", OF deep_copy_new_flat [where mk = CGRPCTLS]])
     (auto simp: GRPCSink_DeepCopyInto_def split: prod.splits)

interpretation sinks_copy: deep_copy SinksSpec_DeepCopyInto r_SinksSpec
  unfolding r_SinksSpec_def
  by (rule deep_copy_via [where mk = "\<lambda>x (p, q). x\<lparr>hss_Prometheus := p, hss_GRPC := q\<rparr>",
        OF deep_copy_pair [OF deep_copy_new_flat [where mk = CPrometheus] deep_copy_new [where mk = CGRPC, OF grpc_copy.deep_copy_axioms]]])
     (auto simp: SinksSpec_DeepCopyInto_def copy_pair_def split: prod.splits)

interpretation metric_copy: deep_copy MetricDefinition_DeepCopyInto r_MetricDefinition
  unfolding r_MetricDefinition_def
  by (rule deep_copy_via [where mk = "\<lambda>x (p, q, s). x\<lparr>hmd_Interval := p, hmd_SQLs := q, hmd_Gauges := s\<rparr>",
        OF deep_copy_pair [OF deep_copy_new_flat [where mk = CInt64] deep_copy_pair [OF deep_copy_StringMap deep_copy_Strings]]])
     (auto simp: MetricDefinition_DeepCopyInto_def copy_pair_def split: prod.splits)

lemma deep_copy_Metrics:
  "deep_copy (new_copy is_Metrics un_Metrics CMetrics (copy_each MetricDefinition_DeepCopyInto)) r_Metrics"
  unfolding r_Metrics_def
  by (rule deep_copy_new [OF deep_copy_list [OF metric_copy.deep_copy_axioms]]) simp_all

interpretation metrics_copy: deep_copy MetricsSpec_DeepCopyInto r_MetricsSpec
  unfolding r_MetricsSpec_def
  by (rule deep_copy_via [where mk = "\<lambda>x (p, q). x\<lparr>hms_FromLibraries := p, hms_Custom := q\<rparr>",
        OF deep_copy_pair [OF deep_copy_new_flat [where mk = CLibraryRefs] deep_copy_Metrics]])
     (auto simp: MetricsSpec_DeepCopyInto_def copy_pair_def split: prod.splits)

interpretation overrides_copy: deep_copy ObjectMetadataOverrides_DeepCopyInto r_Overrides
  unfolding r_Overrides_def
  by (rule deep_copy_via [where mk = "\<lambda>x (p, q). x\<lparr>hmo_Labels := p, hmo_Annotations := q\<rparr>",
        OF deep_copy_pair [OF deep_copy_StringMap deep_copy_StringMap]])
     (auto simp: ObjectMetadataOverrides_DeepCopyInto_def copy_pair_def split: prod.splits)

lemma deep_copy_MonitorSpec:
  assumes "copies_ok X"
  shows "deep_copy (PgpilotMonitorSpec_DeepCopyInto X) r_MonitorSpec"
proof -
  have resources: "deep_copy (cp_ResourceRequirements X) r_ResourceRequirements"
    using assms by (simp add: copies_ok_def)
  show ?thesis
    unfolding r_MonitorSpec_def
    by (rule deep_copy_via [where mk = "\<lambda>x (d, m, s, r, p, v). x\<lparr>hsp_Database := d, hsp_Metrics := m,
            hsp_Sinks := s, hsp_Resources := r, hsp_PodMetadata := p, hsp_ServiceMetadata := v\<rparr>",
          OF deep_copy_pair [OF database_copy.deep_copy_axioms
            deep_copy_pair [OF metrics_copy.deep_copy_axioms deep_copy_pair [OF sinks_copy.deep_copy_axioms
            deep_copy_pair [OF resources
            deep_copy_pair [OF overrides_copy.deep_copy_axioms overrides_copy.deep_copy_axioms]]]]]])
       (auto simp: PgpilotMonitorSpec_DeepCopyInto_def copy_pair_def split: prod.splits)
qed

text \<open>The guard before a pointer's own copy only keeps nil from it.\<close>

lemma deep_copy_guard:
  assumes dc: "deep_copy i (r_ptr isT un r)"
  shows "deep_copy (\<lambda>p h. if p \<noteq> None then i p h else (p, h)) (r_ptr isT un r)"
proof unfold_locales
  fix h p v A q h'
  assume "heap_wf h" "r_ptr isT un r p h = Some (v, A)" "(if p \<noteq> None then i p h else (p, h)) = (q, h')"
  then show "heap_wf h' \<and> extends h h' \<and> (\<exists>B. r_ptr isT un r q h' = Some (v, B) \<and> set B \<subseteq> {h_next h..<h_next h'})"
    using deep_copy.copy [OF dc, of h p v A q h'] by (cases p) (auto simp: r_ptr_def)
qed (rule deep_copy.local [OF dc], assumption+, rule deep_copy.allocated [OF dc])

lemma deep_copy_Conditions: "copies_ok X \<Longrightarrow> deep_copy (new_Conditions X) r_Conditions"
  unfolding new_Conditions_def r_Conditions_def
  by (rule deep_copy_new [OF deep_copy_list]) (simp_all add: copies_ok_def)

lemma deep_copy_MonitorStatus:
  assumes "copies_ok X"
  shows "deep_copy (PgpilotMonitorStatus_DeepCopyInto X) r_MonitorStatus"
proof -
  have time: "deep_copy (\<lambda>p h. if p \<noteq> None then cp_Time X p h else (p, h)) r_Time"
    using assms unfolding r_Time_def copies_ok_def by (blast intro: deep_copy_guard)
  show ?thesis
    unfolding r_MonitorStatus_def
    by (rule deep_copy_via [where mk = "\<lambda>x (p, q). x\<lparr>hst_LastReconciled := p, hst_Conditions := q\<rparr>",
          OF deep_copy_pair [OF time deep_copy_Conditions [OF assms]]])
       (auto simp: PgpilotMonitorStatus_DeepCopyInto_def copy_pair_def split: prod.splits)
qed

lemma deep_copy_Monitor:
  assumes "copies_ok X"
  shows "deep_copy (PgpilotMonitor_DeepCopyInto X) r_Monitor"
proof -
  have meta: "deep_copy (cp_ObjectMeta X) r_ObjectMeta" using assms by (simp add: copies_ok_def)
  show ?thesis
    unfolding r_Monitor_def
    by (rule deep_copy_via [where mk = "\<lambda>x (m, s, t). x\<lparr>hpm_Meta := m, hpm_Spec := s, hpm_Status := t\<rparr>",
          OF deep_copy_pair [OF meta
            deep_copy_pair [OF deep_copy_MonitorSpec [OF assms] deep_copy_MonitorStatus [OF assms]]]])
       (auto simp: PgpilotMonitor_DeepCopyInto_def copy_pair_def split: prod.splits)
qed

interpretation library_spec_copy: deep_copy PgpilotMetricLibrarySpec_DeepCopyInto r_LibrarySpec
  unfolding r_LibrarySpec_def
  by (rule deep_copy_via [where mk = "\<lambda>x p. x\<lparr>hls_Metrics := p\<rparr>", OF deep_copy_Metrics])
     (auto simp: PgpilotMetricLibrarySpec_DeepCopyInto_def split: prod.splits)

lemma deep_copy_LibraryStatus:
  assumes "copies_ok X"
  shows "deep_copy (PgpilotMetricLibraryStatus_DeepCopyInto X) r_LibraryStatus"
  unfolding r_LibraryStatus_def
  by (rule deep_copy_via [where mk = "\<lambda>x p. x\<lparr>hlst_Conditions := p\<rparr>", OF deep_copy_Conditions [OF assms]])
     (auto simp: PgpilotMetricLibraryStatus_DeepCopyInto_def split: prod.splits)

lemma deep_copy_Library:
  assumes "copies_ok X"
  shows "deep_copy (PgpilotMetricLibrary_DeepCopyInto X) r_Library"
proof -
  have meta: "deep_copy (cp_ObjectMeta X) r_ObjectMeta" using assms by (simp add: copies_ok_def)
  show ?thesis
    unfolding r_Library_def
    by (rule deep_copy_via [where mk = "\<lambda>x (m, s, t). x\<lparr>hlib_Meta := m, hlib_Spec := s, hlib_Status := t\<rparr>",
          OF deep_copy_pair [OF meta
            deep_copy_pair [OF library_spec_copy.deep_copy_axioms deep_copy_LibraryStatus [OF assms]]]])
       (auto simp: PgpilotMetricLibrary_DeepCopyInto_def copy_pair_def split: prod.splits)
qed

lemma deep_copy_MonitorList:
  assumes "copies_ok X"
  shows "deep_copy (PgpilotMonitorList_DeepCopyInto X) r_MonitorList"
proof -
  have meta: "deep_copy (cp_ListMeta X) r_ListMeta" using assms by (simp add: copies_ok_def)
  show ?thesis
    unfolding r_MonitorList_def
    by (rule deep_copy_via [where mk = "\<lambda>x (m, p). x\<lparr>hml_ListMeta := m, hml_Items := p\<rparr>",
          OF deep_copy_pair [OF meta deep_copy_new [where mk = CMonitors, OF deep_copy_list [OF deep_copy_Monitor [OF assms]]]]])
       (auto simp: PgpilotMonitorList_DeepCopyInto_def copy_pair_def split: prod.splits)
qed

lemma deep_copy_LibraryList:
  assumes "copies_ok X"
  shows "deep_copy (PgpilotMetricLibraryList_DeepCopyInto X) r_LibraryList"
proof -
  have meta: "deep_copy (cp_ListMeta X) r_ListMeta" using assms by (simp add: copies_ok_def)
  show ?thesis
    unfolding r_LibraryList_def
    by (rule deep_copy_via [where mk = "\<lambda>x (m, p). x\<lparr>hll_ListMeta := m, hll_Items := p\<rparr>",
          OF deep_copy_pair [OF meta deep_copy_new [where mk = CLibraries, OF deep_copy_list [OF deep_copy_Library [OF assms]]]]])
       (auto simp: PgpilotMetricLibraryList_DeepCopyInto_def copy_pair_def split: prod.splits)
qed

text \<open>
  What a caller of \<open>DeepCopy\<close> relies on: a pointer that is not nil gives a new pointer, old cells
  keep their contents, and original and copy are independent.
\<close>

lemma new_copy_independent:
  assumes dc: "deep_copy i r" and mk: "\<And>x. isT (mk x)" "\<And>x. un (mk x) = x"
    and wf: "heap_wf h" and rd: "r_ptr isT un r (Some a) h = Some (v, A)"
  shows "\<exists>b h'. new_copy isT un mk i (Some a) h = (Some b, h') \<and> extends h h'
            \<and> independent (r_ptr isT un r) (Some a) (Some b) v h'"
proof -
  obtain b h' where run: "new_copy isT un mk i (Some a) h = (Some b, h')"
    using new_copy_Some [OF rd] by blast
  have ptr: "deep_copy (new_copy isT un mk i) (r_ptr isT un r)" by (rule deep_copy_new [OF dc]) (rule mk)+
  have "extends h h'" using deep_copy.copy [OF ptr wf rd run] by blast
  moreover have "independent (r_ptr isT un r) (Some a) (Some b) v h'"
    by (rule deep_copy.copy_independent [OF ptr wf rd run])
  ultimately show ?thesis using run by blast
qed

section \<open>A reference implementation of the Kubernetes copies\<close>

definition reference_copies :: copies where
  "reference_copies =
     \<lparr>cp_ObjectMeta = (\<lambda>x h.
        let (labels, h) = new_StringMap (hom_Labels x) h;
            (annotations, h) = new_StringMap (hom_Annotations x) h;
            (finalizers, h) = new_Strings (hom_Finalizers x) h;
            (owners, h) = new_copy is_OwnerRefs un_OwnerRefs COwnerRefs assign (hom_OwnerReferences x) h;
            (deleted, h) = new_copy is_Time un_Time CTime assign (hom_DeletionTimestamp x) h;
            (managed, h) = new_Strings (hom_ManagedFields x) h
        in (x\<lparr>hom_Labels := labels, hom_Annotations := annotations, hom_Finalizers := finalizers,
              hom_OwnerReferences := owners, hom_DeletionTimestamp := deleted, hom_ManagedFields := managed\<rparr>, h)),
      cp_ListMeta = (\<lambda>x h.
        let (n, h) = new_copy is_Int64 un_Int64 CInt64 assign (hlm_RemainingItemCount x) h
        in (x\<lparr>hlm_RemainingItemCount := n\<rparr>, h)),
      cp_ResourceRequirements = (\<lambda>x h.
        let (limits, h) = new_StringMap (hrr_Limits x) h;
            (requests, h) = new_StringMap (hrr_Requests x) h
        in (x\<lparr>hrr_Limits := limits, hrr_Requests := requests\<rparr>, h)),
      cp_Condition = assign,
      cp_Time = new_copy is_Time un_Time CTime assign\<rparr>"

lemma deep_copy_Time: "deep_copy (new_copy is_Time un_Time CTime assign) r_Time"
  unfolding r_Time_def by (rule deep_copy_new_flat) simp_all

interpretation meta_copy: deep_copy "cp_ObjectMeta reference_copies" r_ObjectMeta
  unfolding r_ObjectMeta_def
  by (rule deep_copy_via [where mk = "\<lambda>x (l, a, f, p, d, m). x\<lparr>hom_Labels := l, hom_Annotations := a,
          hom_Finalizers := f, hom_OwnerReferences := p, hom_DeletionTimestamp := d, hom_ManagedFields := m\<rparr>",
        OF deep_copy_pair [OF deep_copy_StringMap deep_copy_pair [OF deep_copy_StringMap
          deep_copy_pair [OF deep_copy_Strings deep_copy_pair [OF deep_copy_new_flat [where mk = COwnerRefs]
          deep_copy_pair [OF deep_copy_Time deep_copy_Strings]]]]]])
     (auto simp: reference_copies_def copy_pair_def split: prod.splits)

interpretation list_meta_copy: deep_copy "cp_ListMeta reference_copies" r_ListMeta
  unfolding r_ListMeta_def
  by (rule deep_copy_via [where mk = "\<lambda>x p. x\<lparr>hlm_RemainingItemCount := p\<rparr>",
        OF deep_copy_new_flat [where mk = CInt64]])
     (auto simp: reference_copies_def split: prod.splits)

interpretation resources_copy: deep_copy "cp_ResourceRequirements reference_copies" r_ResourceRequirements
  unfolding r_ResourceRequirements_def
  by (rule deep_copy_via [where mk = "\<lambda>x (p, q). x\<lparr>hrr_Limits := p, hrr_Requests := q\<rparr>",
        OF deep_copy_pair [OF deep_copy_StringMap deep_copy_StringMap]])
     (auto simp: reference_copies_def copy_pair_def split: prod.splits)

lemma copies_ok_reference: "copies_ok reference_copies"
  using meta_copy.deep_copy_axioms list_meta_copy.deep_copy_axioms resources_copy.deep_copy_axioms
    deep_copy_assign deep_copy_Time
  unfolding copies_ok_def by (simp add: reference_copies_def)

section \<open>Copies of the root types\<close>

lemmas monitor_new_copy = new_copy_independent [OF deep_copy_Monitor, of _ is_Monitor CMonitor un_Monitor,
  folded PgpilotMonitor_DeepCopy_def, simplified]

lemmas monitor_list_new_copy = new_copy_independent [OF deep_copy_MonitorList, of _ is_MonitorList CMonitorList
  un_MonitorList, folded PgpilotMonitorList_DeepCopy_def, simplified]

lemmas library_new_copy = new_copy_independent [OF deep_copy_Library, of _ is_Library CLibrary un_Library,
  folded PgpilotMetricLibrary_DeepCopy_def, simplified]

lemmas library_list_new_copy = new_copy_independent [OF deep_copy_LibraryList, of _ is_LibraryList CLibraryList
  un_LibraryList, folded PgpilotMetricLibraryList_DeepCopy_def, simplified]

text \<open>A store with one monitor (cell 1), whose custom tags are the map in cell 0, in a list (cell 3).\<close>

definition no_metadata :: hObjectMeta where
  "no_metadata = \<lparr>hom_Name = ''orders'', hom_Namespace = ''shop'', hom_UID = [], hom_Labels = None,
     hom_Annotations = None, hom_Finalizers = None, hom_OwnerReferences = None, hom_Generation = 1,
     hom_ResourceVersion = [], hom_DeletionTimestamp = None, hom_ManagedFields = None\<rparr>"

definition sample_monitor :: hMonitor where
  "sample_monitor =
     \<lparr>hpm_TypeMeta = \<lparr>tm_Kind = ''PgpilotMonitor'', tm_APIVersion = ''pgpilot.io/v1''\<rparr>,
      hpm_Meta = no_metadata,
      hpm_Spec =
        \<lparr>hsp_Database = \<lparr>hdb_Host = ''db'', hdb_Port = 5432, hdb_Database = ''orders'', hdb_SSLMode = SSLModePrefer,
           hdb_Username = [], hdb_Password = [], hdb_CredentialsSecret = None, hdb_CustomTags = Some 0\<rparr>,
         hsp_Metrics = \<lparr>hms_Preset = ''basic'', hms_FromLibraries = None, hms_Custom = None\<rparr>,
         hsp_Sinks = \<lparr>hss_Prometheus = None, hss_GRPC = None\<rparr>,
         hsp_Resources = \<lparr>hrr_Limits = None, hrr_Requests = None\<rparr>,
         hsp_Image = \<lparr>im_Repository = [], im_Tag = [], im_PullPolicy = []\<rparr>,
         hsp_PodMetadata = \<lparr>hmo_Labels = None, hmo_Annotations = None\<rparr>,
         hsp_ServiceMetadata = \<lparr>hmo_Labels = None, hmo_Annotations = None\<rparr>\<rparr>,
      hpm_Status = \<lparr>hst_Ready = False, hst_PodName = [], hst_ObservedGeneration = 0, hst_ConfigHash = [],
         hst_LastReconciled = None, hst_Conditions = None\<rparr>\<rparr>"

definition sample_heap :: heap where
  "sample_heap =
     \<lparr>h_cells = [0 \<mapsto> CStringMap [(''env'', ''prod'')], 1 \<mapsto> CMonitor sample_monitor, 2 \<mapsto> CMonitors [sample_monitor],
        3 \<mapsto> CMonitorList \<lparr>hml_TypeMeta = \<lparr>tm_Kind = ''PgpilotMonitorList'', tm_APIVersion = ''pgpilot.io/v1''\<rparr>,
               hml_ListMeta = \<lparr>hlm_ResourceVersion = ''7'', hlm_Continue = [], hlm_RemainingItemCount = None\<rparr>,
               hml_Items = Some 2\<rparr>,
        4 \<mapsto> CLibraryList \<lparr>hll_TypeMeta = \<lparr>tm_Kind = ''PgpilotMetricLibraryList'', tm_APIVersion = ''pgpilot.io/v1''\<rparr>,
               hll_ListMeta = \<lparr>hlm_ResourceVersion = ''7'', hlm_Continue = [], hlm_RemainingItemCount = None\<rparr>,
               hll_Items = None\<rparr>],
      h_next = 5\<rparr>"

lemmas reader_defs = r_ptr_def r_pair_def r_via_def r_flat_def r_map_def r_StringMap_def r_Strings_def r_Time_def
  r_ObjectMeta_def r_ListMeta_def r_ResourceRequirements_def r_DatabaseRef_def r_GRPCSink_def r_SinksSpec_def
  r_MetricDefinition_def r_Metrics_def r_MetricsSpec_def r_Overrides_def r_MonitorSpec_def r_Conditions_def
  r_MonitorStatus_def r_Monitor_def r_LibrarySpec_def r_LibraryStatus_def r_Library_def r_MonitorList_def
  r_LibraryList_def

lemma sample_heap_wf: "heap_wf sample_heap"
  by (auto simp: heap_wf_def sample_heap_def)

lemma sample_monitor_read:
  "\<exists>v. r_Monitor sample_monitor sample_heap = Some (v, [0])
     \<and> db_CustomTags (pm_Database (snd v)) = [(''env'', ''prod'')]"
  by (simp add: reader_defs sample_heap_def sample_monitor_def no_metadata_def or_empty_def)

text \<open>
  C38: the deep copy of a monitor is a new object that reads as the same value, and the two are
  independent: no cell is shared, so a write through one of them (a label, a custom tag, a
  condition, a metric, the status) never shows in the other; nothing allocated before changed.
  \<open>DeepCopyObject\<close> gives the same copy as an interface value.
\<close>

theorem monitor_copy_independent:
  assumes "copies_ok X" and "heap_wf h"
    and "r_ptr is_Monitor un_Monitor r_Monitor (Some a) h = Some (v, A)"
  shows "\<exists>b h'. PgpilotMonitor_DeepCopy X (Some a) h = (Some b, h')
           \<and> PgpilotMonitor_DeepCopyObject X (Some a) h = (Some (ObjMonitor (Some b)), h')
           \<and> extends h h' \<and> independent (r_ptr is_Monitor un_Monitor r_Monitor) (Some a) (Some b) v h'"
  using monitor_new_copy [OF assms] by (auto simp: PgpilotMonitor_DeepCopyObject_def)

lemma monitor_copy_independent_witness:
  "\<exists>v b h'. PgpilotMonitor_DeepCopy reference_copies (Some 1) sample_heap = (Some b, h')
     \<and> db_CustomTags (pm_Database (snd (the v))) = [(''env'', ''prod'')]
     \<and> independent (r_ptr is_Monitor un_Monitor r_Monitor) (Some 1) (Some b) v h'"
proof -
  obtain v where v: "r_Monitor sample_monitor sample_heap = Some (v, [0])"
    "db_CustomTags (pm_Database (snd v)) = [(''env'', ''prod'')]"
    using sample_monitor_read by blast
  have "r_ptr is_Monitor un_Monitor r_Monitor (Some 1) sample_heap = Some (Some v, [1, 0])"
    using v(1) by (simp add: r_ptr_def sample_heap_def)
  from monitor_copy_independent [OF copies_ok_reference sample_heap_wf this] v(2) show ?thesis by force
qed

text \<open>
  the copies of the two list types copy every item: the copied list reads as the same list and
  is independent of the original, down to the maps and slices inside the items.
\<close>

theorem list_copies_independent:
  assumes "copies_ok X" and "heap_wf h"
    and "r_ptr is_MonitorList un_MonitorList r_MonitorList (Some a) h = Some (v, A)"
    and "r_ptr is_LibraryList un_LibraryList r_LibraryList (Some d) h = Some (w, D)"
  shows "(\<exists>b h'. PgpilotMonitorList_DeepCopyObject X (Some a) h = (Some (ObjMonitorList (Some b)), h')
           \<and> extends h h' \<and> independent (r_ptr is_MonitorList un_MonitorList r_MonitorList) (Some a) (Some b) v h')
       \<and> (\<exists>e h'. PgpilotMetricLibraryList_DeepCopyObject X (Some d) h = (Some (ObjLibraryList (Some e)), h')
           \<and> extends h h' \<and> independent (r_ptr is_LibraryList un_LibraryList r_LibraryList) (Some d) (Some e) w h')"
  using monitor_list_new_copy [OF assms(1,2,3)] library_list_new_copy [OF assms(1,2,4)]
  by (auto simp: PgpilotMonitorList_DeepCopyObject_def PgpilotMetricLibraryList_DeepCopyObject_def)

lemma list_copies_independent_witness:
  "\<exists>v w b h' e h''. PgpilotMonitorList_DeepCopyObject reference_copies (Some 3) sample_heap
                      = (Some (ObjMonitorList (Some b)), h')
     \<and> independent (r_ptr is_MonitorList un_MonitorList r_MonitorList) (Some 3) (Some b) v h'
     \<and> length (snd (snd (the v))) = 1
     \<and> PgpilotMetricLibraryList_DeepCopyObject reference_copies (Some 4) sample_heap
         = (Some (ObjLibraryList (Some e)), h'')
     \<and> independent (r_ptr is_LibraryList un_LibraryList r_LibraryList) (Some 4) (Some e) w h''"
proof -
  obtain m where m: "r_Monitor sample_monitor sample_heap = Some (m, [0])"
    using sample_monitor_read by blast
  have monitors: "\<exists>v. r_ptr is_MonitorList un_MonitorList r_MonitorList (Some 3) sample_heap = Some (v, [3, 2, 0])
      \<and> length (snd (snd (the v))) = 1"
    using m by (simp add: r_ptr_def r_MonitorList_def r_ListMeta_def r_pair_def r_via_def or_empty_def sample_heap_def)
  have libraries: "\<exists>w D. r_ptr is_LibraryList un_LibraryList r_LibraryList (Some 4) sample_heap = Some (w, D)"
    by (simp add: r_ptr_def r_LibraryList_def r_ListMeta_def r_pair_def r_via_def or_empty_def sample_heap_def)
  from monitors obtain v where v: "length (snd (snd (the v))) = 1"
    "r_ptr is_MonitorList un_MonitorList r_MonitorList (Some 3) sample_heap = Some (v, [3, 2, 0])" by blast
  from libraries obtain w D where
    "r_ptr is_LibraryList un_LibraryList r_LibraryList (Some 4) sample_heap = Some (w, D)" by blast
  from list_copies_independent [OF copies_ok_reference sample_heap_wf v(2) this] v(1) show ?thesis by blast
qed

text \<open>
  \<open>DeepCopyObject\<close> of a nil pointer is the nil interface, with the store unchanged; no call of
  it returns an interface that holds a nil pointer, so a caller's test against nil is exact.
\<close>

theorem copy_objects_nil:
  "PgpilotMonitor_DeepCopyObject X None h = (None, h)
   \<and> PgpilotMonitorList_DeepCopyObject X None h = (None, h)
   \<and> PgpilotMetricLibrary_DeepCopyObject X None h = (None, h)
   \<and> PgpilotMetricLibraryList_DeepCopyObject X None h = (None, h)
   \<and> fst (PgpilotMonitor_DeepCopyObject X p h) \<noteq> Some (ObjMonitor None)
   \<and> fst (PgpilotMonitorList_DeepCopyObject X p h) \<noteq> Some (ObjMonitorList None)
   \<and> fst (PgpilotMetricLibrary_DeepCopyObject X p h) \<noteq> Some (ObjLibrary None)
   \<and> fst (PgpilotMetricLibraryList_DeepCopyObject X p h) \<noteq> Some (ObjLibraryList None)"
  by (simp add: PgpilotMonitor_DeepCopyObject_def PgpilotMonitorList_DeepCopyObject_def
      PgpilotMetricLibrary_DeepCopyObject_def PgpilotMetricLibraryList_DeepCopyObject_def
      PgpilotMonitor_DeepCopy_def PgpilotMonitorList_DeepCopy_def PgpilotMetricLibrary_DeepCopy_def
      PgpilotMetricLibraryList_DeepCopy_def case_prod_beta)

end
