(* ===== verification/Manager.thy ===== *)
theory Manager
  imports LibraryController Discovery
begin

text \<open>
  \<open>cmd/main.go\<close>: the program's entry point. The first part is Go's \<open>flag\<close> package as far as the
  program uses it (\<open>flag.Parse\<close> with \<open>ExitOnError\<close>), the second the options computed from the
  flags, the third the start-up itself, whose calls of controller-runtime and client-go are the
  parameter \<open>MainEnv\<close>: an answer for every call. The result is how the program ends and the
  sequence of the start-up steps it took. Log calls are left out.
\<close>

section \<open>Flags\<close>

record Flags =
  fl_metricsAddr :: string
  fl_probeAddr :: string
  fl_enableLeaderElection :: bool
  fl_secureMetrics :: bool
  fl_webhookCertPath :: string
  fl_webhookCertName :: string
  fl_webhookCertKey :: string
  fl_metricsCertPath :: string
  fl_metricsCertName :: string
  fl_metricsCertKey :: string
  fl_enableHTTP2 :: bool
  fl_library :: "(string \<times> string) list"

definition default_flags :: Flags where
  "default_flags =
     \<lparr>fl_metricsAddr = ''0'', fl_probeAddr = '':8081'', fl_enableLeaderElection = False,
      fl_secureMetrics = True, fl_webhookCertPath = [], fl_webhookCertName = ''tls.crt'',
      fl_webhookCertKey = ''tls.key'', fl_metricsCertPath = [], fl_metricsCertName = ''tls.crt'',
      fl_metricsCertKey = ''tls.key'', fl_enableHTTP2 = False, fl_library = []\<rparr>"

datatype flag_kind =
    StringVar "string \<Rightarrow> Flags \<Rightarrow> Flags"
  | BoolVar "bool \<Rightarrow> Flags \<Rightarrow> Flags"

definition program_flags :: "(string \<times> flag_kind) list" where
  "program_flags =
     [(''metrics-bind-address'', StringVar (\<lambda>v f. f\<lparr>fl_metricsAddr := v\<rparr>)),
      (''health-probe-bind-address'', StringVar (\<lambda>v f. f\<lparr>fl_probeAddr := v\<rparr>)),
      (''leader-elect'', BoolVar (\<lambda>v f. f\<lparr>fl_enableLeaderElection := v\<rparr>)),
      (''metrics-secure'', BoolVar (\<lambda>v f. f\<lparr>fl_secureMetrics := v\<rparr>)),
      (''webhook-cert-path'', StringVar (\<lambda>v f. f\<lparr>fl_webhookCertPath := v\<rparr>)),
      (''webhook-cert-name'', StringVar (\<lambda>v f. f\<lparr>fl_webhookCertName := v\<rparr>)),
      (''webhook-cert-key'', StringVar (\<lambda>v f. f\<lparr>fl_webhookCertKey := v\<rparr>)),
      (''metrics-cert-path'', StringVar (\<lambda>v f. f\<lparr>fl_metricsCertPath := v\<rparr>)),
      (''metrics-cert-name'', StringVar (\<lambda>v f. f\<lparr>fl_metricsCertName := v\<rparr>)),
      (''metrics-cert-key'', StringVar (\<lambda>v f. f\<lparr>fl_metricsCertKey := v\<rparr>)),
      (''enable-http2'', BoolVar (\<lambda>v f. f\<lparr>fl_enableHTTP2 := v\<rparr>))]"

text \<open>
  The flags other packages register (zap's \<open>BindFlags\<close>, the \<open>kubeconfig\<close> flag of
  controller-runtime): whether a name is one of them and boolean, and whether it accepts a value.
\<close>

record flag_lib =
  fb_IsBoolFlag :: "string \<Rightarrow> bool option"
  fb_Set :: "string \<Rightarrow> string \<Rightarrow> bool"

text \<open>\<open>strconv.ParseBool\<close>.\<close>

definition ParseBool :: "string \<Rightarrow> bool option" where
  "ParseBool s =
     (if s \<in> set [''1'', ''t'', ''T'', ''true'', ''TRUE'', ''True''] then Some True
      else if s \<in> set [''0'', ''f'', ''F'', ''false'', ''FALSE'', ''False''] then Some False
      else None)"

definition IsBoolFlag :: "flag_lib \<Rightarrow> string \<Rightarrow> bool option" where
  "IsBoolFlag L name =
     (case map_of program_flags name of
        Some (StringVar _) \<Rightarrow> Some False
      | Some (BoolVar _) \<Rightarrow> Some True
      | None \<Rightarrow> fb_IsBoolFlag L name)"

definition flag_Set :: "flag_lib \<Rightarrow> string \<Rightarrow> string \<Rightarrow> Flags \<Rightarrow> Flags option" where
  "flag_Set L name value f =
     (case map_of program_flags name of
        Some (StringVar upd) \<Rightarrow> Some (upd value f)
      | Some (BoolVar upd) \<Rightarrow> map_option (\<lambda>b. upd b f) (ParseBool value)
      | None \<Rightarrow> if fb_Set L name value then Some (f\<lparr>fl_library := fl_library f @ [(name, value)]\<rparr>) else None)"

datatype parse_result = Parsed Flags "string list" | ParseExit int

text \<open>\<open>name\<close> or \<open>name=value\<close>: the split at the first \<open>=\<close>.\<close>

definition cut_flag :: "string \<Rightarrow> string \<times> string option" where
  "cut_flag s =
     (let name = takeWhile (\<lambda>c. c \<noteq> CHR ''='') s
      in (name, case drop (length name) s of [] \<Rightarrow> None | _ # value \<Rightarrow> Some value))"

text \<open>
  \<open>flag.Parse\<close>: one flag after the other until the first argument that is not one; \<open>--\<close> ends the
  flags. A request for help exits with 0, every error with 2.
\<close>

fun flag_Parse :: "flag_lib \<Rightarrow> string list \<Rightarrow> Flags \<Rightarrow> parse_result" where
  "flag_Parse L [] f = Parsed f []"
| "flag_Parse L (s # args) f =
     (if length s < 2 \<or> hd s \<noteq> CHR ''-'' then Parsed f (s # args)
      else if s = ''--'' then Parsed f args
      else
        (let name = drop (if s ! 1 = CHR ''-'' then 2 else 1) s
         in if name = [] \<or> hd name = CHR ''-'' \<or> hd name = CHR ''='' then ParseExit 2
            else
              (case cut_flag name of (name, value) \<Rightarrow>
                 (case IsBoolFlag L name of
                    None \<Rightarrow> if name = ''help'' \<or> name = ''h'' then ParseExit 0 else ParseExit 2
                  | Some True \<Rightarrow>
                      (case flag_Set L name (case value of Some v \<Rightarrow> v | None \<Rightarrow> ''true'') f of
                         None \<Rightarrow> ParseExit 2
                       | Some f \<Rightarrow> flag_Parse L args f)
                  | Some False \<Rightarrow>
                      (case value of
                         Some v \<Rightarrow> (case flag_Set L name v f of
                                      None \<Rightarrow> ParseExit 2
                                    | Some f \<Rightarrow> flag_Parse L args f)
                       | None \<Rightarrow>
                           (case args of
                              [] \<Rightarrow> ParseExit 2
                            | v # args \<Rightarrow> (case flag_Set L name v f of
                                            None \<Rightarrow> ParseExit 2
                                          | Some f \<Rightarrow> flag_Parse L args f)))))))"

section \<open>Options\<close>

record TLSConfig =
  tc_NextProtos :: "string list"

type_synonym tls_opt = "TLSConfig \<Rightarrow> TLSConfig"

definition disableHTTP2 :: tls_opt where
  "disableHTTP2 c = c\<lparr>tc_NextProtos := [''http/1.1'']\<rparr>"

definition tlsOpts :: "Flags \<Rightarrow> tls_opt list" where
  "tlsOpts f = (if \<not> fl_enableHTTP2 f then [] @ [disableHTTP2] else [])"

text \<open>The servers apply the functions in order to the configuration they start from.\<close>

definition serving_config :: "tls_opt list \<Rightarrow> TLSConfig \<Rightarrow> TLSConfig" where
  "serving_config opts c = foldl (\<lambda>c opt. opt c) c opts"

record WebhookOptions =
  wo_TLSOpts :: "tls_opt list"
  wo_CertDir :: string
  wo_CertName :: string
  wo_KeyName :: string

definition webhookServerOptions :: "Flags \<Rightarrow> WebhookOptions" where
  "webhookServerOptions f =
     (let webhookTLSOpts = tlsOpts f;
          o' = \<lparr>wo_TLSOpts = webhookTLSOpts, wo_CertDir = [], wo_CertName = [], wo_KeyName = []\<rparr>
      in if 0 < length (fl_webhookCertPath f)
         then o'\<lparr>wo_CertDir := fl_webhookCertPath f, wo_CertName := fl_webhookCertName f,
                 wo_KeyName := fl_webhookCertKey f\<rparr>
         else o')"

datatype FilterProvider = WithAuthenticationAndAuthorization

record MetricsServerOptions =
  mso_BindAddress :: string
  mso_SecureServing :: bool
  mso_TLSOpts :: "tls_opt list"
  mso_FilterProvider :: "FilterProvider option"
  mso_CertDir :: string
  mso_CertName :: string
  mso_KeyName :: string

definition metricsServerOptions :: "Flags \<Rightarrow> MetricsServerOptions" where
  "metricsServerOptions f =
     (let o' = \<lparr>mso_BindAddress = fl_metricsAddr f, mso_SecureServing = fl_secureMetrics f,
                mso_TLSOpts = tlsOpts f, mso_FilterProvider = None, mso_CertDir = [], mso_CertName = [],
                mso_KeyName = []\<rparr>;
          o' = (if fl_secureMetrics f
                then o'\<lparr>mso_FilterProvider := Some WithAuthenticationAndAuthorization\<rparr> else o')
      in if 0 < length (fl_metricsCertPath f)
         then o'\<lparr>mso_CertDir := fl_metricsCertPath f, mso_CertName := fl_metricsCertName f,
                 mso_KeyName := fl_metricsCertKey f\<rparr>
         else o')"

record ManagerOptions =
  mg_Scheme :: "string list"
  mg_Metrics :: MetricsServerOptions
  mg_WebhookServer :: WebhookOptions
  mg_HealthProbeBindAddress :: string
  mg_LeaderElection :: bool
  mg_LeaderElectionID :: string

text \<open>\<open>init\<close> registers three API groups with the scheme; \<open>Must\<close> panics when one does not register.\<close>

definition scheme_groups :: "string list" where
  "scheme_groups = [''client-go'', ''pgpilot.io/v1'', ''monitoring.coreos.com/v1'']"

definition managerOptions :: "Flags \<Rightarrow> ManagerOptions" where
  "managerOptions f =
     \<lparr>mg_Scheme = scheme_groups, mg_Metrics = metricsServerOptions f,
      mg_WebhookServer = webhookServerOptions f, mg_HealthProbeBindAddress = fl_probeAddr f,
      mg_LeaderElection = fl_enableLeaderElection f, mg_LeaderElectionID = ''21051230.io''\<rparr>"

section \<open>Start-up\<close>

text \<open>\<open>SetupWithManager\<close> of the library controller.\<close>

definition LibrarySetupWithManager :: ControllerSetup where
  "LibrarySetupWithManager =
     \<lparr>ct_Name = ''pgpilotmetriclibrary'', ct_For = ''PgpilotMetricLibrary'', ct_Owns = [], ct_Watches = []\<rparr>"

datatype MainStep =
    NewManager ManagerOptions
  | Complete ControllerSetup
  | AddHealthzCheck string
  | AddReadyzCheck string
  | StartManager

datatype MainEnd = Returned | Exited int | Panicked

text \<open>
  \<open>en_Step\<close> answers each step with an error or none; \<open>en_GetConfig\<close> is false where
  \<open>GetConfigOrDie\<close> finds no configuration, and then exits with 1.
\<close>

record MainEnv =
  en_AddToScheme :: "string \<Rightarrow> bool"
  en_GetConfig :: bool
  en_Step :: "MainStep \<Rightarrow> goerror option"
  en_NewDiscoveryClient :: "goerror + (string \<Rightarrow> goerror + APIResource list)"

definition init_scheme :: "MainEnv \<Rightarrow> bool" where
  "init_scheme E = list_all (en_AddToScheme E) scheme_groups"

definition run_step :: "MainEnv \<Rightarrow> MainStep \<Rightarrow> (MainEnd \<times> MainStep list) \<Rightarrow> MainEnd \<times> MainStep list" where
  "run_step E step continue =
     (case en_Step E step of
        Some err \<Rightarrow> (Exited 1, [step])
      | None \<Rightarrow> (fst continue, step # snd continue))"

text \<open>The end of \<open>main\<close>: the health checks, then the manager.\<close>

definition start_checks :: "MainEnv \<Rightarrow> MainEnd \<times> MainStep list" where
  "start_checks E =
     run_step E (AddHealthzCheck ''healthz'')
       (run_step E (AddReadyzCheck ''readyz'')
          (run_step E StartManager (Returned, [])))"

definition main_program ::
  "flag_lib \<Rightarrow> MainEnv \<Rightarrow> 'w Reconciler \<Rightarrow> string list \<Rightarrow> MainEnd \<times> MainStep list" where
  "main_program L E mgr args =
     (if \<not> init_scheme E then (Panicked, [])
      else
        (case flag_Parse L args default_flags of
           ParseExit code \<Rightarrow> (Exited code, [])
         | Parsed f _ \<Rightarrow>
             if \<not> en_GetConfig E then (Exited 1, [])
             else
               run_step E (NewManager (managerOptions f))
                 (case en_NewDiscoveryClient E of
                    Inl err \<Rightarrow> (Exited 1, [])
                  | Inr dc \<Rightarrow>
                      (let serviceMonitorEnabled = HasServiceMonitorCRD dc
                       in run_step E
                            (Complete (SetupWithManager (mgr\<lparr>r_ServiceMonitorEnabled := serviceMonitorEnabled\<rparr>)))
                            (run_step E (Complete LibrarySetupWithManager)
                               (start_checks E))))))"

lemmas main_defs = main_program_def start_checks_def

end
