(* ===== verification/ManagerProperties.thy ===== *)
theory ManagerProperties
  imports Manager Scenario "HOL-Library.Sublist"
begin

text \<open>
  What the start-up guarantees: the order of the steps and the safe defaults of the two servers.
\<close>

section \<open>Flags that are not given keep their value\<close>

definition names_flag :: "string \<Rightarrow> string \<Rightarrow> bool" where
  "names_flag name arg \<longleftrightarrow> prefix (''-'' @ name) arg \<or> prefix (''--'' @ name) arg"

lemma cut_flag_prefix: "cut_flag s = (name, value) \<Longrightarrow> prefix name s"
  by (auto simp: cut_flag_def Let_def takeWhile_is_prefix)

lemma argument_names_flag:
  assumes "hd s = CHR ''-''" "2 \<le> length s" "cut_flag (drop (if s ! 1 = CHR ''-'' then 2 else 1) s) = (name, value)"
  shows "names_flag name s"
proof -
  obtain c r where s: "s = CHR ''-'' # c # r"
    using assms(1,2) by (cases s; cases "tl s") auto
  show ?thesis
    using cut_flag_prefix [OF assms(3)] by (auto simp: s names_flag_def split: if_splits)
qed

lemma parsed_not_exit: "(if b then ParseExit c else r) = Parsed f rest \<Longrightarrow> r = Parsed f rest"
  by (simp split: if_splits)

text \<open>One round of \<open>flag.Parse\<close>: it stops, or sets the flag an argument names and goes on with fewer.\<close>

lemma flag_Parse_round:
  assumes "flag_Parse L (s # args) f = Parsed f' rest"
  obtains (stop) "f' = f"
  | (flag) n v g args' where "names_flag n s" "flag_Set L n v f = Some g" "flag_Parse L args' g = Parsed f' rest"
      "set args' \<subseteq> set args" "length args' \<le> length args"
proof (cases "length s < 2 \<or> hd s \<noteq> CHR ''-'' \<or> s = ''--''")
  case True
  with assms that(1) show ?thesis by (auto split: if_splits)
next
  case False
  define t where "t = drop (if s ! 1 = CHR ''-'' then 2 else 1) s"
  obtain n w where cut: "cut_flag t = (n, w)" by (cases "cut_flag t")
  have named: "names_flag n s"
    by (rule argument_names_flag [of _ _ w]) (use False cut in \<open>auto simp: t_def\<close>)
  from False have not_stop: "(length s < 2 \<or> hd s \<noteq> CHR ''-'') = False" "(s = ''--'') = False" by simp_all
  have run: "(case IsBoolFlag L n of
         None \<Rightarrow> if n = ''help'' \<or> n = ''h'' then ParseExit 0 else ParseExit 2
       | Some True \<Rightarrow>
           (case flag_Set L n (case w of Some v \<Rightarrow> v | None \<Rightarrow> ''true'') f of
              None \<Rightarrow> ParseExit 2 | Some f \<Rightarrow> flag_Parse L args f)
       | Some False \<Rightarrow>
           (case w of
              Some v \<Rightarrow> (case flag_Set L n v f of None \<Rightarrow> ParseExit 2 | Some f \<Rightarrow> flag_Parse L args f)
            | None \<Rightarrow>
                (case args of
                   [] \<Rightarrow> ParseExit 2
                 | v # args \<Rightarrow> (case flag_Set L n v f of None \<Rightarrow> ParseExit 2 | Some f \<Rightarrow> flag_Parse L args f))))
      = Parsed f' rest"
    by (rule parsed_not_exit [OF assms [unfolded flag_Parse.simps Let_def t_def [symmetric] cut prod.case not_stop if_False]])
  have "\<exists>v args' g. flag_Set L n v f = Some g \<and> flag_Parse L args' g = Parsed f' rest
      \<and> set args' \<subseteq> set args \<and> length args' \<le> length args"
  proof (cases "IsBoolFlag L n")
    case None
    with run show ?thesis by (simp split: if_splits)
  next
    case (Some b)
    note run = run [unfolded Some]
    show ?thesis
    proof (cases b)
      case True
      let ?v = "case w of Some v \<Rightarrow> v | None \<Rightarrow> ''true''"
      obtain g where "flag_Set L n ?v f = Some g" "flag_Parse L args g = Parsed f' rest"
        using run True by (simp split: option.splits)
      then show ?thesis by blast
    next
      case bool: False
      show ?thesis
      proof (cases w)
        case None
        with run bool obtain v as g where "args = v # as" "flag_Set L n v f = Some g" "flag_Parse L as g = Parsed f' rest"
          by (simp split: option.splits list.splits)
        then show ?thesis by (intro exI [of _ v] exI [of _ as] exI [of _ g]) auto
      next
        case (Some v)
        with run bool obtain g where "flag_Set L n v f = Some g" "flag_Parse L args g = Parsed f' rest"
          by (simp split: option.splits)
        then show ?thesis by blast
      qed
    qed
  qed
  with named that(2) show ?thesis by blast
qed

lemma flag_Parse_keeps:
  assumes sets: "\<And>n v g g'. n \<noteq> name \<Longrightarrow> flag_Set L n v g = Some g' \<Longrightarrow> sel g' = sel g"
  shows "flag_Parse L args f = Parsed f' rest \<Longrightarrow> \<forall>a \<in> set args. \<not> names_flag name a \<Longrightarrow> sel f' = sel f"
proof (induction "length args" arbitrary: args f rule: less_induct)
  case less
  show ?case
  proof (cases args)
    case Nil
    with less.prems show ?thesis by simp
  next
    case (Cons s as)
    from less.prems(1) show ?thesis
      unfolding Cons
    proof (cases rule: flag_Parse_round)
      case stop
      then show ?thesis by simp
    next
      case (flag n v g args')
      have "n \<noteq> name" using flag(1) less.prems(2) Cons by auto
      then have "sel g = sel f" using sets flag(2) by blast
      moreover have "sel f' = sel g"
        by (rule less.hyps [OF _ flag(3)]) (use flag(4,5) less.prems(2) Cons in auto)
      ultimately show ?thesis by simp
    qed
  qed
qed

section \<open>Start-up\<close>

definition startup_plan :: "Flags \<Rightarrow> 'w Reconciler \<Rightarrow> bool \<Rightarrow> MainStep list" where
  "startup_plan f mgr enabled =
     [NewManager (managerOptions f), Complete (SetupWithManager (mgr\<lparr>r_ServiceMonitorEnabled := enabled\<rparr>)),
      Complete LibrarySetupWithManager, AddHealthzCheck ''healthz'', AddReadyzCheck ''readyz'', StartManager]"

lemma flag_Set_keeps_http2:
  "n \<noteq> ''enable-http2'' \<Longrightarrow> flag_Set L n v g = Some g' \<Longrightarrow> fl_enableHTTP2 g' = fl_enableHTTP2 g"
  by (auto simp: flag_Set_def program_flags_def split: if_splits)

lemma flag_Set_keeps_secure:
  "n \<noteq> ''metrics-secure'' \<Longrightarrow> flag_Set L n v g = Some g' \<Longrightarrow> fl_secureMetrics g' = fl_secureMetrics g"
  by (auto simp: flag_Set_def program_flags_def split: if_splits)

lemma run_step_in: "x \<in> set (snd (run_step E step k)) \<Longrightarrow> x = step \<or> en_Step E step = None \<and> x \<in> set (snd k)"
  by (auto simp: run_step_def split: option.splits)

lemma run_step_None: "en_Step E step = None \<Longrightarrow> run_step E step k = (fst k, step # snd k)"
  by (simp add: run_step_def)

text \<open>A run with a first step parsed the flags; only then is there a manager.\<close>

lemma main_program_steps:
  assumes "main_program L E mgr args = (e, steps)" "steps \<noteq> []"
  obtains f rest where "flag_Parse L args default_flags = Parsed f rest" "hd steps = NewManager (managerOptions f)"
  using assms
  by (auto simp: main_defs run_step_def split: if_splits parse_result.splits option.splits)

lemma main_program_NewManager:
  assumes "main_program L E mgr args = (e, steps)" "NewManager opts \<in> set steps"
  obtains f rest where "flag_Parse L args default_flags = Parsed f rest" "opts = managerOptions f"
proof -
  obtain f rest where f: "flag_Parse L args default_flags = Parsed f rest"
    using main_program_steps [OF assms(1)] assms(2) by (metis list.set(1) empty_iff)
  have "opts = managerOptions f"
    using assms f
    by (auto simp: main_defs Let_def split: if_splits sum.splits dest!: run_step_in
        arg_cong [where f = "\<lambda>p. set (snd p)"] )
  with f that show ?thesis by blast
qed

text \<open>A run that starts the manager took every step before it.\<close>

lemma started_plan:
  assumes "main_program L E mgr args = (e, steps)" and "StartManager \<in> set steps"
  obtains f rest dc where "flag_Parse L args default_flags = Parsed f rest" "en_NewDiscoveryClient E = Inr dc"
    "steps = startup_plan f mgr (HasServiceMonitorCRD dc)" "list_all (\<lambda>s. en_Step E s = None) (butlast steps)"
    "e = (if en_Step E StartManager = None then Returned else Exited 1)"
proof -
  obtain f rest where f: "flag_Parse L args default_flags = Parsed f rest"
    using main_program_steps [OF assms(1)] assms(2) by (metis list.set(1) empty_iff)
  obtain dc where dc: "en_NewDiscoveryClient E = Inr dc"
    using assms f by (auto simp: main_defs run_step_def split: if_splits option.splits sum.splits)
  define plan where "plan = startup_plan f mgr (HasServiceMonitorCRD dc)"
  note unfold = main_defs f dc startup_plan_def plan_def
  have none: "list_all (\<lambda>s. en_Step E s = None) (butlast plan)"
    using assms by (auto simp: unfold Let_def run_step_def split: if_splits option.splits)
  then have "steps = plan" "e = (if en_Step E StartManager = None then Returned else Exited 1)"
    using assms by (auto simp: unfold Let_def run_step_None run_step_def [of E StartManager] split: if_splits option.splits)
  with none f dc that show ?thesis by (simp add: plan_def)
qed

text \<open>
  C39: The manager is started last: by then it was created from the options of the parsed flags, both
  controllers and both health checks were added, in that order and without an error. The monitor
  controller reconciles monitors, watches libraries and owns ConfigMaps, Deployments and Services; it
  owns ServiceMonitors too exactly when the discovery client lists that kind for the monitoring API
  (an error of the client counts as not installed). The library controller owns nothing. The program
  returns normally only if the manager ended without an error, and exits with 1 otherwise.
\<close>

theorem manager_starts_last:
  assumes "main_program L E mgr args = (e, steps)" and "StartManager \<in> set steps"
  shows "\<exists>f rest dc monitors libraries.
     flag_Parse L args default_flags = Parsed f rest \<and> en_NewDiscoveryClient E = Inr dc
     \<and> steps = [NewManager (managerOptions f), Complete monitors, Complete libraries,
         AddHealthzCheck ''healthz'', AddReadyzCheck ''readyz'', StartManager]
     \<and> list_all (\<lambda>s. en_Step E s = None) (butlast steps)
     \<and> ct_For monitors = ''PgpilotMonitor'' \<and> ct_Watches monitors = [''PgpilotMetricLibrary'']
     \<and> set (ct_Owns monitors) - {KServiceMonitor} = {KConfigMap, KDeployment, KService}
     \<and> (KServiceMonitor \<in> set (ct_Owns monitors) \<longleftrightarrow>
          (case dc ''monitoring.coreos.com/v1'' of
             Inl _ \<Rightarrow> False | Inr rs \<Rightarrow> ''ServiceMonitor'' \<in> set (map ar_Kind rs)))
     \<and> ct_For libraries = ''PgpilotMetricLibrary'' \<and> ct_Owns libraries = []
     \<and> e = (if en_Step E StartManager = None then Returned else Exited 1)"
proof -
  obtain f rest dc where run: "flag_Parse L args default_flags = Parsed f rest" "en_NewDiscoveryClient E = Inr dc"
    "steps = startup_plan f mgr (HasServiceMonitorCRD dc)" "list_all (\<lambda>s. en_Step E s = None) (butlast steps)"
    "e = (if en_Step E StartManager = None then Returned else Exited 1)"
    by (rule started_plan [OF assms])
  let ?m = "SetupWithManager (mgr\<lparr>r_ServiceMonitorEnabled := HasServiceMonitorCRD dc\<rparr>)"
  have wiring: "ct_For ?m = ''PgpilotMonitor''" "ct_Watches ?m = [''PgpilotMetricLibrary'']"
    "set (ct_Owns ?m) - {KServiceMonitor} = {KConfigMap, KDeployment, KService}"
    "KServiceMonitor \<in> set (ct_Owns ?m) \<longleftrightarrow>
       (case dc ''monitoring.coreos.com/v1'' of Inl _ \<Rightarrow> False | Inr rs \<Rightarrow> ''ServiceMonitor'' \<in> set (map ar_Kind rs))"
    by (auto simp: SetupWithManager_def Let_def HasServiceMonitorCRD_iff split: sum.split)
  show ?thesis
    by (rule exI [of _ f], rule exI [of _ rest], rule exI [of _ dc], rule exI [of _ ?m], rule exI [of _ LibrarySetupWithManager])
      (use run wiring in \<open>simp add: startup_plan_def LibrarySetupWithManager_def\<close>)
qed

text \<open>An environment in which every step succeeds and the monitoring API is installed.\<close>

definition sample_flags :: flag_lib where
  "sample_flags = \<lparr>fb_IsBoolFlag = (\<lambda>name. if name = ''zap-devel'' then Some True else None), fb_Set = (\<lambda>_ _. True)\<rparr>"

definition sample_env :: MainEnv where
  "sample_env =
     \<lparr>en_AddToScheme = (\<lambda>_. True), en_GetConfig = True, en_Step = (\<lambda>_. None),
      en_NewDiscoveryClient = Inr (\<lambda>gv. if gv = ''monitoring.coreos.com/v1''
        then Inr [\<lparr>ar_Kind = ''PodMonitor''\<rparr>, \<lparr>ar_Kind = ''ServiceMonitor''\<rparr>] else Inl (ErrOther ''no group''))\<rparr>"

definition sample_args :: "string list" where
  "sample_args = [''--leader-elect'', ''-metrics-bind-address'', '':8443'', ''--zap-devel=false'']"

lemma sample_args_parse:
  "flag_Parse sample_flags sample_args default_flags =
     Parsed (default_flags\<lparr>fl_enableLeaderElection := True, fl_metricsAddr := '':8443'',
       fl_library := [(''zap-devel'', ''false'')]\<rparr>) []"
  by (simp add: sample_args_def sample_flags_def cut_flag_def IsBoolFlag_def flag_Set_def program_flags_def
      ParseBool_def default_flags_def)

lemma sample_run:
  "main_program sample_flags sample_env (cluster_reconciler False) sample_args =
     (Returned, startup_plan (default_flags\<lparr>fl_enableLeaderElection := True, fl_metricsAddr := '':8443'',
       fl_library := [(''zap-devel'', ''false'')]\<rparr>) (cluster_reconciler False) True)"
  by (simp add: main_defs init_scheme_def scheme_groups_def sample_args_parse sample_env_def run_step_def
      startup_plan_def HasServiceMonitorCRD_def)

lemma manager_starts_last_witness:
  "\<exists>e steps opts monitors rest. main_program sample_flags sample_env (cluster_reconciler False) sample_args = (e, steps)
     \<and> steps = NewManager opts # Complete monitors # rest \<and> last steps = StartManager
     \<and> KServiceMonitor \<in> set (ct_Owns monitors) \<and> e = Returned"
proof -
  obtain steps where run: "main_program sample_flags sample_env (cluster_reconciler False) sample_args = (Returned, steps)"
    "StartManager \<in> set steps"
    using sample_run by (simp add: startup_plan_def)
  from manager_starts_last [OF run] obtain f dc monitors libraries where steps:
    "en_NewDiscoveryClient sample_env = Inr dc"
    "steps = [NewManager (managerOptions f), Complete monitors, Complete libraries,
       AddHealthzCheck ''healthz'', AddReadyzCheck ''readyz'', StartManager]"
    "KServiceMonitor \<in> set (ct_Owns monitors) \<longleftrightarrow>
       (case dc ''monitoring.coreos.com/v1'' of Inl _ \<Rightarrow> False | Inr rs \<Rightarrow> ''ServiceMonitor'' \<in> set (map ar_Kind rs))"
    by blast
  have "KServiceMonitor \<in> set (ct_Owns monitors)"
    using steps(1,3) by (auto simp: sample_env_def)
  with run(1) steps(2) show ?thesis by auto
qed

text \<open>
  C40: The defaults are safe: unless an argument names the flag \<open>enable-http2\<close>, the metrics and the
  webhook server offer HTTP/1.1 only, whatever TLS configuration they start from; unless one names
  \<open>metrics-secure\<close>, the metrics endpoint is served over TLS behind authentication and authorization.
\<close>

theorem servers_secure_by_default:
  assumes "main_program L E mgr args = (e, steps)" and "NewManager opts \<in> set steps"
  shows "(list_all (\<lambda>a. \<not> names_flag ''enable-http2'' a) args \<longrightarrow>
            tc_NextProtos (serving_config (mso_TLSOpts (mg_Metrics opts)) c) = [''http/1.1'']
            \<and> tc_NextProtos (serving_config (wo_TLSOpts (mg_WebhookServer opts)) c) = [''http/1.1''])
       \<and> (list_all (\<lambda>a. \<not> names_flag ''metrics-secure'' a) args \<longrightarrow>
            mso_SecureServing (mg_Metrics opts)
            \<and> mso_FilterProvider (mg_Metrics opts) = Some WithAuthenticationAndAuthorization)"
proof -
  obtain f rest where f: "flag_Parse L args default_flags = Parsed f rest" "opts = managerOptions f"
    by (rule main_program_NewManager [OF assms])
  have "\<not> fl_enableHTTP2 f" if "list_all (\<lambda>a. \<not> names_flag ''enable-http2'' a) args"
    using flag_Parse_keeps [where sel = fl_enableHTTP2, OF flag_Set_keeps_http2 f(1)] that
    by (simp add: list_all_iff default_flags_def)
  moreover have "fl_secureMetrics f" if "list_all (\<lambda>a. \<not> names_flag ''metrics-secure'' a) args"
    using flag_Parse_keeps [where sel = fl_secureMetrics, OF flag_Set_keeps_secure f(1)] that
    by (simp add: list_all_iff default_flags_def)
  ultimately show ?thesis
    by (auto simp: f(2) managerOptions_def metricsServerOptions_def webhookServerOptions_def tlsOpts_def
        serving_config_def disableHTTP2_def Let_def)
qed

lemma servers_secure_by_default_witness:
  "\<exists>e steps opts. main_program sample_flags sample_env (cluster_reconciler False) sample_args = (e, steps)
     \<and> NewManager opts \<in> set steps
     \<and> tc_NextProtos (serving_config (mso_TLSOpts (mg_Metrics opts)) \<lparr>tc_NextProtos = [''h2'']\<rparr>) = [''http/1.1'']
     \<and> mso_FilterProvider (mg_Metrics opts) = Some WithAuthenticationAndAuthorization"
proof -
  have args: "list_all (\<lambda>a. \<not> names_flag ''enable-http2'' a) sample_args"
    "list_all (\<lambda>a. \<not> names_flag ''metrics-secure'' a) sample_args"
    by (simp_all add: sample_args_def names_flag_def)
  obtain opts steps where run: "main_program sample_flags sample_env (cluster_reconciler False) sample_args = (Returned, steps)"
    "NewManager opts \<in> set steps"
    using sample_run by (simp add: startup_plan_def)
  from servers_secure_by_default [OF run] args run show ?thesis by blast
qed

end
