(* ===== verification/ReconcileClosed.thy ===== *)
theory ReconcileClosed
  imports ReconcileFacts
begin

text \<open>
  One interface for everything that holds of a reconcile because it holds of each of its requests: a
  relation between states that is reflexive and transitive and contains every primitive of the loop
  contains the whole reconcile, on every branch.
\<close>

text \<open>A child as the builders make it for a monitor: not owned yet, under the monitor's name.\<close>

definition child_suffix :: "ChildKind \<Rightarrow> string" where
  "child_suffix k = (if k = KConfigMap then ''-config'' else [])"

definition built_for :: "PgpilotMonitor \<Rightarrow> Child \<Rightarrow> bool" where
  "built_for m c \<longleftrightarrow>
     om_OwnerReferences (child_meta c) = []
     \<and> om_Namespace (child_meta c) = pm_Namespace m
     \<and> om_Name (child_meta c) = ResourceName (pm_Name m) @ child_suffix (child_kind c)"

lemma built_for_children:
  "BuildConfigMap y m merged = Inr (cm, h) \<Longrightarrow> built_for m (ChildConfigMap cm)"
  "BuildDeployment m merged h = Some dep \<Longrightarrow> built_for m (ChildDeployment dep)"
  "built_for m (ChildService (BuildService m))"
  "built_for m (ChildServiceMonitor (BuildServiceMonitor m))"
proof -
  show "BuildConfigMap y m merged = Inr (cm, h) \<Longrightarrow> built_for m (ChildConfigMap cm)"
    using BuildConfigMap_shape [of y m merged cm h] by (simp add: built_for_def child_suffix_def)
  show "BuildDeployment m merged h = Some dep \<Longrightarrow> built_for m (ChildDeployment dep)"
    by (auto simp: built_for_def child_suffix_def BuildDeployment_def Let_def emptyMeta_def split: option.splits)
  show "built_for m (ChildService (BuildService m))" "built_for m (ChildServiceMonitor (BuildServiceMonitor m))"
    by (simp_all add: built_for_def child_suffix_def service_meta, simp_all add: BuildService_def
        BuildServiceMonitor_def Let_def emptyMeta_def)
qed

locale spec_closed =
  fixes r :: "'w Reconciler"
    and R :: "'w rstate \<Rightarrow> 'w rstate \<Rightarrow> bool"
  assumes R_refl: "R s s"
    and R_trans: "R s s' \<Longrightarrow> R s' s'' \<Longrightarrow> R s s''"
    and R_GetSecret: "R s (snd (on_world (api_GetSecret (r_Client r) k) s))"
    and R_GetLibrary: "R s (snd (on_world (api_GetLibrary (r_Client r) k) s))"
    and R_GetDeployment: "R s (snd (on_world (api_GetDeployment (r_Client r) k) s))"
    and R_ListPods: "R s (snd (on_world (api_ListPods (r_Client r) ns sel) s))"
    and R_Now: "R s (snd (on_world (api_Now (r_Client r)) s))"
    and R_event: "R s (recordEvent ty reason message s)"
    and R_status: "R s (snd (patchStatus r m s))"
    and R_apply: "built_for m c \<Longrightarrow> R s (snd (apply_owned r m what c s))"
begin

lemma setCondition_R: "R s (snd (setCondition r m ty st reason message s))"
  using R_Now [of s] by (simp add: setCondition_def Let_def case_prod_beta)

lemma setCondition_R': "setCondition r m ty st reason message s = (m', s') \<Longrightarrow> R s s'"
  using setCondition_R [of s m ty st reason message] by simp

lemma status_R': "patchStatus r m s = (x, s') \<Longrightarrow> R s s'"
  using R_status [of s m] by simp

lemma validateCredentials_R:
  assumes "validateCredentials r m s = (out, m', s')"
  shows "R s s'"
proof (cases "db_Username (pm_Database m) \<noteq> [] \<and> db_Password (pm_Database m) \<noteq> []")
  case True
  with assms show ?thesis
    by (auto simp: validateCredentials_def Let_def split: prod.splits dest: setCondition_R')
next
  case False
  note inline = False
  show ?thesis
  proof (cases "db_CredentialsSecret (pm_Database m)")
    case None
    with assms inline show ?thesis
      by (auto simp: validateCredentials_def Let_def split: prod.splits
          dest!: setCondition_R' status_R' intro: R_trans)
  next
    case (Some ref)
    let ?get = "on_world (api_GetSecret (r_Client r) \<lparr>nn_Namespace = pm_Namespace m, nn_Name = cs_Name ref\<rparr>) s"
    obtain err s1 where get: "?get = (err, s1)" by (cases ?get)
    have read: "R s s1" using R_GetSecret [of s "\<lparr>nn_Namespace = pm_Namespace m, nn_Name = cs_Name ref\<rparr>"] get by simp
    show ?thesis
    proof (cases err)
      case None
      with assms inline Some get read show ?thesis
        by (auto simp: validateCredentials_def Let_def split: prod.splits dest!: setCondition_R' intro: R_trans)
    next
      case err: (Some e)
      obtain m1 s2 where set1: "setCondition r m ''Ready'' ConditionFalse ''SecretNotFound''
          (''Secret '' @ go_quote (cs_Name ref) @ '' not found: '' @ err_Error e) s1 = (m1, s2)"
        by (meson surj_pair)
      obtain m2 s3 where set2: "setCondition r m1 ''DatabaseReachable'' ConditionFalse ''SecretNotFound''
          (''Credentials secret '' @ go_quote (cs_Name ref) @ '' not found'') s2 = (m2, s3)"
        by (meson surj_pair)
      have out: "s' = snd (patchStatus r m2 (recordEvent EventTypeWarning ''SecretNotFound''
          (''Credentials secret '' @ go_quote (cs_Name ref) @ '' not found in namespace ''
             @ go_quote (pm_Namespace m2)) s3))"
        using assms inline Some get err set1 set2
        by (simp add: validateCredentials_def Let_def split: prod.splits)
      show ?thesis
        unfolding out
        by (rule R_trans [OF read R_trans [OF setCondition_R' [OF set1] R_trans [OF setCondition_R' [OF set2]
              R_trans [OF R_event R_status]]]])
    qed
  qed
qed

lemma resolve_loop_R: "R s (snd (resolve_loop r ns refs libs s))"
proof (induction refs arbitrary: libs s)
  case (Cons ref refs)
  let ?get = "on_world (api_GetLibrary (r_Client r) \<lparr>nn_Namespace = ns, nn_Name = lr_Name ref\<rparr>) s"
  obtain res s1 where get: "?get = (res, s1)" by (cases ?get)
  have "R s s1" using R_GetLibrary [of s "\<lparr>nn_Namespace = ns, nn_Name = lr_Name ref\<rparr>"] get by simp
  with get Cons.IH R_trans show ?case by (fastforce split: sum.split)
qed (simp add: R_refl)

lemma resolveLibraries_R: "R s (snd (resolveLibraries r m s))"
  by (simp add: resolveLibraries_def Let_def R_refl resolve_loop_R)

lemma reconcile_config_R: "R s (snd (reconcile_config r m merged s))"
proof (cases "BuildConfigMap (r_Yaml r) m merged")
  case (Inl err)
  then show ?thesis by (simp add: reconcile_config_def R_refl)
next
  case (Inr p)
  obtain cm h where cm: "BuildConfigMap (r_Yaml r) m merged = Inr (cm, h)" using Inr by (cases p) auto
  let ?apply = "apply_owned r m ''reconcile configmap'' (ChildConfigMap cm) s"
  obtain res s1 where ap: "?apply = (res, s1)" by (cases ?apply)
  have r1: "R s s1" using R_apply [OF built_for_children(1) [OF cm], of s] ap by (metis snd_conv)
  show ?thesis
    using cm ap r1
    by (auto simp: reconcile_config_def Let_def case_prod_beta R_refl
        split: option.splits
        intro: R_trans [OF r1 R_trans [OF setCondition_R R_event]] R_trans [OF r1 setCondition_R])
qed

lemma reconcile_workloads_R: "R s (snd (reconcile_workloads r m merged h s))"
proof (cases "BuildDeployment m merged h")
  case None
  then show ?thesis by (simp add: reconcile_workloads_def R_refl)
next
  case (Some dep)
  let ?a1 = "apply_owned r m ''reconcile deployment'' (ChildDeployment dep) s"
  obtain x1 s1 where a1: "?a1 = (x1, s1)" by (cases ?a1)
  let ?a2 = "apply_owned r m ''reconcile service'' (ChildService (BuildService m)) s1"
  obtain x2 s2 where a2: "?a2 = (x2, s2)" by (cases ?a2)
  let ?a3 = "apply_owned r m ''reconcile servicemonitor'' (ChildServiceMonitor (BuildServiceMonitor m)) s2"
  obtain x3 s3 where a3: "?a3 = (x3, s3)" by (cases ?a3)
  have r1: "R s s1" using R_apply [OF built_for_children(2) [OF Some], of s] a1 by (metis snd_conv)
  have r2: "R s s2" using R_trans [OF r1] R_apply [OF built_for_children(3), of s1 m] a2 by (metis snd_conv)
  have r3: "R s s3" using R_trans [OF r2] R_apply [OF built_for_children(4), of s2 m] a3 by (metis snd_conv)
  show ?thesis
    using r1 r2 r3 by (simp add: reconcile_workloads_def Some a1 a2 a3 split: option.split)
qed

lemma ready_transition_R: "R s (snd (ready_transition r m was ready s))"
  by (auto simp: ready_transition_def Let_def case_prod_beta intro: R_trans setCondition_R R_event)

lemma find_pod_R: "R s (snd (find_pod r m s))"
  using R_ListPods [of s "pm_Namespace m" "[(LabelAppInstance, pm_Name m), (LabelAppName, AppName)]"]
  by (auto simp: find_pod_def split: prod.split sum.split list.split)

lemma reconcile_status_R: "R s (snd (reconcile_status r m s))"
proof -
  let ?k = "\<lparr>nn_Namespace = pm_Namespace m, nn_Name = ResourceName (pm_Name m)\<rparr>"
  obtain res s1 where get: "on_world (api_GetDeployment (r_Client r) ?k) s = (res, s1)" by (meson surj_pair)
  have r1: "R s s1" using R_GetDeployment [of s ?k] get by simp
  show ?thesis
  proof (cases res)
    case (Inl err)
    with get r1 show ?thesis by (simp add: reconcile_status_def)
  next
    case (Inr dep)
    let ?ready = "0 < sint (dep_ReadyReplicas dep)"
    obtain now s2 where now: "on_world (api_Now (r_Client r)) s1 = (now, s2)" by (meson surj_pair)
    define m1 where "m1 = m\<lparr>pm_Status := (pm_Status m)\<lparr>st_Ready := ?ready,
        st_ObservedGeneration := om_Generation (pm_Meta m), st_LastReconciled := Some now\<rparr>\<rparr>"
    obtain m2 s3 where tr: "ready_transition r m1 (st_Ready (pm_Status m)) ?ready s2 = (m2, s3)" by (meson surj_pair)
    obtain m3 s4 where pod: "find_pod r m2 s3 = (m3, s4)" by (meson surj_pair)
    obtain x s5 where patch: "patchStatus r m3 s4 = (x, s5)" by (meson surj_pair)
    have "R s s5"
      using R_trans [OF r1 R_trans [OF R_Now R_trans [OF ready_transition_R R_trans [OF find_pod_R R_status]]]]
        now tr pod patch by (metis snd_conv)
    moreover have "snd (reconcile_status r m s) = s5"
      unfolding reconcile_status_def get prod.case Inr sum.case Let_def now m1_def [symmetric] tr pod patch
      by (simp split: option.split)
    ultimately show ?thesis by simp
  qed
qed

lemma reconcile_merged_R: "R s (snd (reconcile_merged r m libs s))"
proof -
  obtain res s1 where conf: "reconcile_config r m (merged_of m libs) s = (res, s1)" by (meson surj_pair)
  have r1: "R s s1" using reconcile_config_R [of s m "merged_of m libs"] conf by simp
  show ?thesis
  proof (cases res)
    case (Inl out)
    with conf r1 show ?thesis by (simp add: reconcile_merged_def)
  next
    case (Inr p)
    obtain m1 h where p: "p = (m1, h)" by (cases p)
    obtain x s2 where work: "reconcile_workloads r m1 (merged_of m libs) h s1 = (x, s2)" by (meson surj_pair)
    have r2: "R s s2" using R_trans [OF r1 reconcile_workloads_R] work by (metis snd_conv)
    show ?thesis
      using r2 R_trans [OF r2 reconcile_status_R]
      by (simp add: reconcile_merged_def conf Inr p work split: option.split)
  qed
qed

lemma reconcile_spec_R: "R s (snd (reconcile_spec r m s))"
proof -
  obtain result ok m1 s1 where val: "validateCredentials r m s = ((result, ok), m1, s1)"
    by (metis surj_pair)
  have r1: "R s s1" by (rule validateCredentials_R [OF val])
  show ?thesis
  proof (cases ok)
    case False
    with val r1 show ?thesis by (simp add: reconcile_spec_def)
  next
    case True
    obtain res s2 where lib: "resolveLibraries r m1 s1 = (res, s2)" by (meson surj_pair)
    have r2: "R s s2" using R_trans [OF r1 resolveLibraries_R] lib by (metis snd_conv)
    show ?thesis
    proof (cases res)
      case (Inl err)
      obtain m2 s3 where set: "setCondition r m1 ''Ready'' ConditionFalse ''LibraryResolveFailed'' (err_Error err) s2 = (m2, s3)"
        by (meson surj_pair)
      have "snd (reconcile_spec r m s) = snd (patchStatus r m2 (recordEvent EventTypeWarning ''LibraryResolveFailed''
          (''Failed to resolve metric libraries: '' @ err_Error err) s3))"
        using val True lib Inl set by (simp add: reconcile_spec_def Let_def split: prod.split)
      then show ?thesis
        using R_trans [OF r2 R_trans [OF setCondition_R' [OF set] R_trans [OF R_event R_status]]] by simp
    next
      case (Inr libs)
      with val True lib R_trans [OF r2 reconcile_merged_R] show ?thesis by (simp add: reconcile_spec_def)
    qed
  qed
qed

end

text \<open>The whole loop also reads the monitor and adds or removes its finalizer.\<close>

locale step_closed = spec_closed r R
  for r :: "'w Reconciler" and R :: "'w rstate \<Rightarrow> 'w rstate \<Rightarrow> bool" +
  assumes R_GetMonitor: "R s (snd (on_world (api_GetMonitor (r_Client r) k) s))"
    and R_acquire: "timestamp_IsZero (om_DeletionTimestamp (pm_Meta m)) \<Longrightarrow>
      R s (snd (update_monitor r (set_meta m (cl_AddFinalizer (r_Lib r) (pm_Meta m) finalizerName)) s))"
    and R_release: "\<not> timestamp_IsZero (om_DeletionTimestamp (pm_Meta m)) \<Longrightarrow>
      R s (snd (update_monitor r (set_meta m (cl_RemoveFinalizer (r_Lib r) (pm_Meta m) finalizerName)) s))"
begin

lemma reconcile_deletion_R:
  "\<not> timestamp_IsZero (om_DeletionTimestamp (pm_Meta m)) \<Longrightarrow> R s (snd (reconcile_deletion r m s))"
  using R_release [of m s]
  by (auto simp: reconcile_deletion_def Let_def R_refl case_prod_beta split: sum.split)

lemma ensure_finalizer_R:
  "timestamp_IsZero (om_DeletionTimestamp (pm_Meta m)) \<Longrightarrow> R s (snd (ensure_finalizer r m s))"
  by (simp add: ensure_finalizer_def R_refl R_acquire)

lemma Reconcile_R: "R s (snd (Reconcile r req s))"
proof -
  obtain res s1 where get: "on_world (api_GetMonitor (r_Client r) req) s = (res, s1)" by (meson surj_pair)
  have r1: "R s s1" using R_GetMonitor [of s req] get by simp
  show ?thesis
  proof (cases res)
    case (Inl err)
    with get r1 show ?thesis by (simp add: Reconcile_def)
  next
    case (Inr m)
    show ?thesis
    proof (cases "timestamp_IsZero (om_DeletionTimestamp (pm_Meta m))")
      case True
      obtain x s2 where fin: "ensure_finalizer r m s1 = (x, s2)" by (meson surj_pair)
      have r2: "R s s2" using R_trans [OF r1 ensure_finalizer_R [OF True]] fin by (metis snd_conv)
      show ?thesis
        using get Inr True fin r2 R_trans [OF r2 reconcile_spec_R]
        by (simp add: Reconcile_def split: sum.split)
    next
      case False
      then show ?thesis
        using get Inr R_trans [OF r1 reconcile_deletion_R] by (simp add: Reconcile_def)
    qed
  qed
qed

end

section \<open>Relations between worlds\<close>

text \<open>
  Often the relation only concerns the world behind the client. Then it is enough that it contains the
  effect of every request on that world: the retry and the journal are dealt with here, once.
\<close>

locale spec_requests =
  fixes r :: "'w Reconciler"
    and W :: "'w \<Rightarrow> 'w \<Rightarrow> bool"
  assumes W_refl: "W w w"
    and W_trans: "W w w' \<Longrightarrow> W w' w'' \<Longrightarrow> W w w''"
    and W_GetMonitor: "W w (snd (api_GetMonitor (r_Client r) k w))"
    and W_GetSecret: "W w (snd (api_GetSecret (r_Client r) k w))"
    and W_GetLibrary: "W w (snd (api_GetLibrary (r_Client r) k w))"
    and W_GetDeployment: "W w (snd (api_GetDeployment (r_Client r) k w))"
    and W_ListPods: "W w (snd (api_ListPods (r_Client r) ns sel w))"
    and W_Now: "W w (snd (api_Now (r_Client r) w))"
    and W_status: "W w (snd (api_UpdateMonitorStatus (r_Client r) m w))"
    and W_patch: "built_for m c \<Longrightarrow> cl_SetControllerReference (r_Lib r) m (child_meta c) = Inr meta \<Longrightarrow>
      W w (snd (api_Patch (r_Client r) (set_child_meta (meta\<lparr>om_ManagedFields := [], om_ResourceVersion := []\<rparr>) c) w))"
    and W_retry: "retry_contract (api_RetryOnConflict (r_Client r) DefaultRetry)"
begin

lemma on_world_W: "(\<And>w. W w (snd (f w))) \<Longrightarrow> W (world s) (world (snd (on_world f s)))"
  by (simp add: on_world_def case_prod_beta)

lemma patchStatus_W: "W (world s) (world (snd (patchStatus r m s)))"
  unfolding patchStatus_def
proof (rule retry_contract.retry_invariant [OF W_retry, where P = "\<lambda>s'. W (world s) (world s')"])
  fix s' :: "'w rstate"
  assume before: "W (world s) (world s')"
  obtain res s1 where get: "on_world (api_GetMonitor (r_Client r) (monitor_key m)) s' = (res, s1)" by (meson surj_pair)
  have "W (world s') (world s1)"
    using on_world_W [where f = "api_GetMonitor (r_Client r) (monitor_key m)" and s = s', OF W_GetMonitor] by (simp add: get)
  note here = W_trans [OF before this]
  have "W (world s1) (world (snd (on_world (api_UpdateMonitorStatus (r_Client r) x) (emit e s1))))" for x e
    using on_world_W [OF W_status, where s = "emit e s1"] by simp
  then show "W (world s) (world (snd (patchStatus_attempt r m s')))"
    using here by (auto simp: patchStatus_attempt_def get Let_def split: sum.split intro: W_trans)
qed (rule W_refl)

lemma apply_owned_W:
  assumes "built_for m c"
  shows "W (world s) (world (snd (apply_owned r m what c s)))"
proof (cases "cl_SetControllerReference (r_Lib r) m (child_meta c)")
  case (Inl err)
  then show ?thesis by (simp add: apply_owned_def W_refl)
next
  case (Inr meta)
  have "W (world s) (world (snd (on_world (api_Patch (r_Client r)
      (set_child_meta (meta\<lparr>om_ManagedFields := [], om_ResourceVersion := []\<rparr>) c)) (emit e s))))" for e
    using on_world_W [OF W_patch [OF assms Inr], where s = "emit e s"] by simp
  then show ?thesis
    using Inr by (simp add: apply_owned_def serverSideApply_def Let_def case_prod_beta split: option.split)
qed

end

sublocale spec_requests \<subseteq> spec_closed r "\<lambda>s s'. W (world s) (world s')"
  by unfold_locales
    (simp_all add: W_refl on_world_W W_GetSecret W_GetLibrary W_GetDeployment W_ListPods W_Now
      patchStatus_W apply_owned_W recordEvent_def, rule W_trans)

locale request_closed = spec_requests r W
  for r :: "'w Reconciler" and W :: "'w \<Rightarrow> 'w \<Rightarrow> bool" +
  assumes W_acquire: "timestamp_IsZero (om_DeletionTimestamp (pm_Meta m)) \<Longrightarrow>
      W w (snd (api_UpdateMonitor (r_Client r) (set_meta m (cl_AddFinalizer (r_Lib r) (pm_Meta m) finalizerName)) w))"
    and W_release: "\<not> timestamp_IsZero (om_DeletionTimestamp (pm_Meta m)) \<Longrightarrow>
      W w (snd (api_UpdateMonitor (r_Client r) (set_meta m (cl_RemoveFinalizer (r_Lib r) (pm_Meta m) finalizerName)) w))"

sublocale request_closed \<subseteq> step_closed r "\<lambda>s s'. W (world s) (world s')"
proof unfold_locales
  fix m and s :: "'w rstate"
  have emitted: "W (world s) (world (snd (on_world f (emit e s))))" if "\<And>w. W w (snd (f w))" for f e
    using on_world_W [OF that, where s = "emit e s"] by simp
  show "W (world s) (world (snd (update_monitor r (set_meta m (cl_AddFinalizer (r_Lib r) (pm_Meta m) finalizerName)) s)))"
    if "timestamp_IsZero (om_DeletionTimestamp (pm_Meta m))"
    unfolding update_monitor_def by (rule emitted) (rule W_acquire [OF that])
  show "W (world s) (world (snd (update_monitor r (set_meta m (cl_RemoveFinalizer (r_Lib r) (pm_Meta m) finalizerName)) s)))"
    if "\<not> timestamp_IsZero (om_DeletionTimestamp (pm_Meta m))"
    unfolding update_monitor_def by (rule emitted) (rule W_release [OF that])
qed (simp add: on_world_W W_GetMonitor)

end
