(* ===== verification/Reread.thy ===== *)
theory Reread
  imports Scenario "HOL-Library.Multiset"
begin

text \<open>
  Reading the same objects again. A Go map has no order: every decoding and every \<open>range\<close> may visit
  its entries in another one, and two maps of a specification are visited on the way to the rendered
  text, \<open>sqls\<close> of a metric and \<open>customTags\<close> of the database. \<open>reread_cluster\<close> relates the contents of
  a server to the same contents with the entries of those maps in any other order. Shown here: with
  one key per version, the children of a monitor do not depend on that order.
\<close>

section \<open>The same objects, in another map order\<close>

definition reread_metric :: "MetricDefinition \<Rightarrow> MetricDefinition \<Rightarrow> bool" where
  "reread_metric md md' \<longleftrightarrow> mset (md_SQLs md') = mset (md_SQLs md) \<and> md\<lparr>md_SQLs := md_SQLs md'\<rparr> = md'"

definition with_maps ::
  "MetricDefinition list \<Rightarrow> (string, string) gomap \<Rightarrow> PgpilotMonitor \<Rightarrow> PgpilotMonitor" where
  "with_maps custom tags m =
     m\<lparr>pm_Spec := (pm_Spec m)\<lparr>sp_Database := (pm_Database m)\<lparr>db_CustomTags := tags\<rparr>,
         sp_Metrics := (sp_Metrics (pm_Spec m))\<lparr>ms_Custom := custom\<rparr>\<rparr>\<rparr>"

definition reread_monitor :: "PgpilotMonitor \<Rightarrow> PgpilotMonitor \<Rightarrow> bool" where
  "reread_monitor m m' \<longleftrightarrow>
     list_all2 reread_metric (ms_Custom (sp_Metrics (pm_Spec m))) (ms_Custom (sp_Metrics (pm_Spec m')))
     \<and> mset (db_CustomTags (pm_Database m')) = mset (db_CustomTags (pm_Database m))
     \<and> with_maps (ms_Custom (sp_Metrics (pm_Spec m'))) (db_CustomTags (pm_Database m')) m = m'"

definition reread_library :: "PgpilotMetricLibrary \<Rightarrow> PgpilotMetricLibrary \<Rightarrow> bool" where
  "reread_library l l' \<longleftrightarrow>
     list_all2 reread_metric (ls_Metrics (lib_Spec l)) (ls_Metrics (lib_Spec l'))
     \<and> l\<lparr>lib_Spec := \<lparr>ls_Metrics = ls_Metrics (lib_Spec l')\<rparr>\<rparr> = l'"

definition reread_cluster :: "cluster \<Rightarrow> cluster \<Rightarrow> bool" where
  "reread_cluster c c' \<longleftrightarrow>
     list_all2 reread_monitor (kc_Monitors c) (kc_Monitors c')
     \<and> list_all2 reread_library (kc_Libraries c) (kc_Libraries c')
     \<and> c\<lparr>kc_Monitors := kc_Monitors c', kc_Libraries := kc_Libraries c'\<rparr> = c'"

text \<open>The order does not choose a statement: the keys are distinct and denote distinct versions.\<close>

definition one_key_per_version :: "MetricDefinition \<Rightarrow> bool" where
  "one_key_per_version md \<longleftrightarrow> metric_wf md \<and> versions_distinct (md_SQLs md)"

lemma reread_metric_refl [simp]: "reread_metric md md"
  by (simp add: reread_metric_def)

lemma reread_monitor_refl [simp]: "reread_monitor m m"
  by (simp add: reread_monitor_def with_maps_def list_all2_same)

lemma reread_library_refl [simp]: "reread_library l l"
  by (simp add: reread_library_def list_all2_same)

lemma reread_cluster_refl [simp]: "reread_cluster c c"
  by (simp add: reread_cluster_def list_all2_same)

lemma with_maps_simps [simp]:
  "pm_Meta (with_maps ms tags m) = pm_Meta m" "pm_Status (with_maps ms tags m) = pm_Status m"
  "ms_Custom (sp_Metrics (pm_Spec (with_maps ms tags m))) = ms"
  "ms_Preset (sp_Metrics (pm_Spec (with_maps ms tags m))) = ms_Preset (sp_Metrics (pm_Spec m))"
  "ms_FromLibraries (sp_Metrics (pm_Spec (with_maps ms tags m))) = ms_FromLibraries (sp_Metrics (pm_Spec m))"
  "sp_Sinks (pm_Spec (with_maps ms tags m)) = sp_Sinks (pm_Spec m)"
  "sp_Resources (pm_Spec (with_maps ms tags m)) = sp_Resources (pm_Spec m)"
  "sp_Image (pm_Spec (with_maps ms tags m)) = sp_Image (pm_Spec m)"
  "sp_PodMetadata (pm_Spec (with_maps ms tags m)) = sp_PodMetadata (pm_Spec m)"
  "sp_ServiceMetadata (pm_Spec (with_maps ms tags m)) = sp_ServiceMetadata (pm_Spec m)"
  "pm_Database (with_maps ms tags m) = (pm_Database m)\<lparr>db_CustomTags := tags\<rparr>"
  by (simp_all add: with_maps_def)

lemma reread_monitorE:
  assumes "reread_monitor m m'"
  obtains ms tags where "m' = with_maps ms tags m" "list_all2 reread_metric (ms_Custom (sp_Metrics (pm_Spec m))) ms"
    "mset tags = mset (db_CustomTags (pm_Database m))"
  using assms unfolding reread_monitor_def by (metis that)

lemma reread_monitor_key: "reread_monitor m m' \<Longrightarrow> monitor_key m' = monitor_key m"
  by (erule reread_monitorE) (simp add: monitor_key_def)

lemma reread_library_name:
  assumes "reread_library l l'"
  shows "library_name l' = library_name l"
proof -
  have eq: "l\<lparr>lib_Spec := \<lparr>ls_Metrics = ls_Metrics (lib_Spec l')\<rparr>\<rparr> = l'" using assms by (simp add: reread_library_def)
  have "lib_Meta l' = lib_Meta l" by (subst eq [symmetric]) simp
  then show ?thesis by (simp add: library_name_def)
qed

lemma reread_cluster_fields:
  assumes "reread_cluster c c'"
  shows "kc_Secrets c' = kc_Secrets c" "kc_Children c' = kc_Children c" "kc_Pods c' = kc_Pods c"
    "kc_replicas k c' = kc_replicas k c"
proof -
  have eq: "c\<lparr>kc_Monitors := kc_Monitors c', kc_Libraries := kc_Libraries c'\<rparr> = c'"
    using assms by (simp add: reread_cluster_def)
  show "kc_Secrets c' = kc_Secrets c" "kc_Pods c' = kc_Pods c" by (subst eq [symmetric], simp)+
  show "kc_Children c' = kc_Children c" by (subst eq [symmetric]) simp
  then show "kc_replicas k c' = kc_replicas k c" by (simp add: kc_replicas_def kc_GetDeployment_def)
qed

section \<open>A map read in two orders\<close>

lemma gm_get_reordered:
  assumes "gomap_wf m" "mset m' = mset m"
  shows "gomap_wf m'" "gm_get m' = gm_get m"
proof -
  have "mset (gm_keys m') = mset (gm_keys m)" using assms(2) by simp
  then have "distinct (gm_keys m') \<longleftrightarrow> distinct (gm_keys m)" by (rule mset_eq_imp_distinct_iff)
  then show wf: "gomap_wf m'" using assms(1) by (simp add: gomap_wf_def)
  have "set m' = set m" by (rule mset_eq_setD [OF assms(2)])
  with wf assms(1) show "gm_get m' = gm_get m" by (simp add: gomap_wf_def map_of_inject_set)
qed

lemma reread_metric_equiv:
  assumes "reread_metric md md'" "one_key_per_version md"
  shows "metric_equiv md md'"
proof -
  have wf: "gomap_wf (md_SQLs md)" using assms(2) by (simp add: one_key_per_version_def metric_wf_def)
  have order: "mset (md_SQLs md') = mset (md_SQLs md)" and rest: "md\<lparr>md_SQLs := md_SQLs md'\<rparr> = md'"
    using assms(1) by (simp_all add: reread_metric_def)
  have "md\<lparr>md_SQLs := []\<rparr> = md'\<lparr>md_SQLs := []\<rparr>" by (subst rest [symmetric]) simp
  then show ?thesis
    using wf gm_get_reordered [OF wf order] assms(2)
    by (simp add: metric_equiv_def gm_eq_iff one_key_per_version_def)
qed

lemma reread_metrics_equiv:
  "list_all2 reread_metric mds mds' \<Longrightarrow> list_all one_key_per_version mds \<Longrightarrow> list_all2 metric_equiv mds mds'"
  by (induction rule: list_all2_induct) (auto intro: reread_metric_equiv)

lemma reread_all_metrics:
  assumes "list_all2 reread_metric (ms_Custom spec) (ms_Custom spec')" "list_all2 reread_library libs libs'"
  shows "list_all2 reread_metric (all_metrics spec libs) (all_metrics spec' libs')"
proof -
  have "list_all2 reread_metric (concat (map (\<lambda>lib. ls_Metrics (lib_Spec lib)) libs))
      (concat (map (\<lambda>lib. ls_Metrics (lib_Spec lib)) libs'))"
    using assms(2) by (induction rule: list_all2_induct) (auto simp: reread_library_def intro: list_all2_appendI)
  with assms(1) show ?thesis by (simp add: all_metrics_def list_all2_appendI)
qed

section \<open>The children do not depend on it\<close>

lemma source_entry_maps:
  "source_entry y (with_maps ms tags m) merged = map_sum id (\<lambda>s. s\<lparr>src_CustomTags := tags\<rparr>) (source_entry y m merged)"
  by (simp add: source_entry_def Let_def buildConnStr_def with_maps_simps(1) split: sum.split)

lemma source_entry_tags: "source_entry y m merged = Inr src \<Longrightarrow> src_CustomTags src = db_CustomTags (pm_Database m)"
  by (rule source_entry_cases)

context yaml_contract begin

lemma BuildConfigMap_maps:
  assumes "gomap_wf (db_CustomTags (pm_Database m))" "mset tags = mset (db_CustomTags (pm_Database m))"
  shows "BuildConfigMap y (with_maps ms tags m) merged = BuildConfigMap y m merged"
proof -
  have "yaml_Marshal y [src\<lparr>src_CustomTags := tags\<rparr>] = yaml_Marshal y [src]"
    if src: "source_entry y m merged = Inr src" for src
  proof (rule marshal_source)
    show "source_equiv (src\<lparr>src_CustomTags := tags\<rparr>) src"
      using gm_get_reordered(2) [OF assms] source_entry_tags [OF src] by (simp add: source_equiv_def gm_eq_iff)
  qed
  then have "renderSources y (with_maps ms tags m) merged = renderSources y m merged"
    by (auto simp: renderSources_def source_entry_maps split: sum.split)
  then show ?thesis by (simp only: BuildConfigMap_def config_data_def with_maps_simps)
qed

end

lemma BuildDeployment_maps:
  assumes "needs_metrics_file merged' \<longleftrightarrow> needs_metrics_file merged"
  shows "BuildDeployment (with_maps ms tags m) merged' h = BuildDeployment m merged h"
  by (simp add: BuildDeployment_def buildEnvVars_def pgwatch_container_def prometheusPort_def containerImage_def
      buildArgs_def assms Let_def cong: option.case_cong)

lemma BuildService_maps:
  "BuildService (with_maps ms tags m) = BuildService m"
  "BuildServiceMonitor (with_maps ms tags m) = BuildServiceMonitor m"
  by (simp_all only: BuildService_def BuildServiceMonitor_def prometheusPort_def with_maps_simps)

lemma reread_children:
  assumes m: "reread_monitor m m'" and libs: "list_all2 reread_library libs libs'"
    and one: "list_all one_key_per_version (all_metrics (sp_Metrics (pm_Spec m)) libs)"
    and tags: "gomap_wf (db_CustomTags (pm_Database m))"
  shows "BuildConfigMap canon_yaml m' (merged_of m' libs') = BuildConfigMap canon_yaml m (merged_of m libs)"
    and "desired_children b canon_yaml m' libs' = desired_children b canon_yaml m libs"
proof -
  obtain ms ts where m': "m' = with_maps ms ts m"
    and maps: "list_all2 reread_metric (ms_Custom (sp_Metrics (pm_Spec m))) ms" "mset ts = mset (db_CustomTags (pm_Database m))"
    by (rule reread_monitorE [OF m])
  have "list_all2 metric_equiv (all_metrics (sp_Metrics (pm_Spec m)) libs) (all_metrics (sp_Metrics (pm_Spec m')) libs')"
    by (rule reread_metrics_equiv [OF reread_all_metrics [OF _ libs] one]) (simp add: m' maps(1))
  then have equiv: "merged_equiv (merged_of m libs) (merged_of m' libs')"
    by (intro MergeMetrics_equiv) (simp_all add: m')
  have needs: "needs_metrics_file (merged_of m' libs') \<longleftrightarrow> needs_metrics_file (merged_of m libs)"
    using equiv gm_rel_Nil_iff [of _ "mm_Definitions (merged_of m libs)" "mm_Definitions (merged_of m' libs')"]
    by (auto simp: needs_metrics_file_def merged_equiv_def)
  have "BuildConfigMap canon_yaml m (merged_of m' libs') = BuildConfigMap canon_yaml m (merged_of m libs)"
    by (rule canon.BuildConfigMap_order [OF equiv MergeMetrics_wf MergeMetrics_wf, symmetric])
  moreover have "BuildConfigMap canon_yaml m' (merged_of m' libs') = BuildConfigMap canon_yaml m (merged_of m' libs')"
    unfolding m' by (rule canon.BuildConfigMap_maps [OF tags maps(2)])
  ultimately show cm: "BuildConfigMap canon_yaml m' (merged_of m' libs') = BuildConfigMap canon_yaml m (merged_of m libs)"
    by simp
  have dep: "BuildDeployment m' (merged_of m' libs') h = BuildDeployment m (merged_of m libs) h" for h
    unfolding m' by (rule BuildDeployment_maps [OF needs [unfolded m']])
  show "desired_children b canon_yaml m' libs' = desired_children b canon_yaml m libs"
    unfolding desired_children_def Let_def cm dep by (simp only: m' BuildService_maps)
qed

section \<open>What the server answers\<close>

lemma list_all2_find:
  assumes "list_all2 R xs ys" "\<And>x y. R x y \<Longrightarrow> P y = P x"
  shows "rel_option R (find P xs) (find P ys)"
  using assms(1) by (induction rule: list_all2_induct) (auto simp: assms(2))

lemma reread_GetMonitor:
  assumes "reread_cluster c c'" "fst (kc_GetMonitor k c) = Inr m"
  obtains m' where "fst (kc_GetMonitor k c') = Inr m'" "reread_monitor m m'"
proof -
  have "rel_option reread_monitor (find (\<lambda>x. monitor_key x = k) (kc_Monitors c)) (find (\<lambda>x. monitor_key x = k) (kc_Monitors c'))"
    using assms(1) by (intro list_all2_find) (auto simp: reread_cluster_def reread_monitor_key)
  with assms(2) that show ?thesis by (auto simp: kc_GetMonitor_iff option_rel_Some1)
qed

lemma reread_GetLibrary:
  assumes "reread_cluster c c'" "fst (kc_GetLibrary k c) = Inr l"
  obtains l' where "fst (kc_GetLibrary k c') = Inr l'" "reread_library l l'"
proof -
  have "rel_option reread_library (find (\<lambda>x. library_name x = k) (kc_Libraries c)) (find (\<lambda>x. library_name x = k) (kc_Libraries c'))"
    using assms(1) by (intro list_all2_find) (auto simp: reread_cluster_def reread_library_name)
  with assms(2) that show ?thesis
    by (auto simp: kc_GetLibrary_def kc_find_def option_rel_Some1 split: option.splits)
qed

lemma reread_libraries:
  assumes "reread_cluster c c'" "libraries_available m c libs" "reread_monitor m m'"
  obtains libs' where "libraries_available m' c' libs'" "list_all2 reread_library libs libs'"
proof -
  have "\<exists>libs'. list_all2 (\<lambda>ref lib. fst (kc_GetLibrary (library_key ns ref) c') = Inr lib) refs libs'
      \<and> list_all2 reread_library libs libs'"
    if "list_all2 (\<lambda>ref lib. fst (kc_GetLibrary (library_key ns ref) c) = Inr lib) refs libs" for ns refs
    using that
  proof (induction rule: list_all2_induct)
    case (Cons ref refs lib libs)
    obtain lib' where "fst (kc_GetLibrary (library_key ns ref) c') = Inr lib'" "reread_library lib lib'"
      by (rule reread_GetLibrary [OF assms(1) Cons(1)])
    moreover from Cons(3) obtain libs' where
      "list_all2 (\<lambda>ref lib. fst (kc_GetLibrary (library_key ns ref) c') = Inr lib) refs libs'"
      "list_all2 reread_library libs libs'"
      by blast
    ultimately show ?case by (intro exI [of _ "lib' # libs'"]) simp
  qed simp
  from this [OF assms(2) [unfolded libraries_available_def]] obtain libs' where
    "list_all2 (\<lambda>ref lib. fst (kc_GetLibrary (library_key (pm_Namespace m) ref) c') = Inr lib)
      (ms_FromLibraries (sp_Metrics (pm_Spec m))) libs'"
    "list_all2 reread_library libs libs'"
    by blast
  moreover have "pm_Namespace m' = pm_Namespace m"
      "ms_FromLibraries (sp_Metrics (pm_Spec m')) = ms_FromLibraries (sp_Metrics (pm_Spec m))"
    using assms(3) by (auto elim!: reread_monitorE)
  ultimately show ?thesis by (intro that) (simp_all only: libraries_available_def)
qed

lemma reread_reconcilable:
  assumes "reread_cluster c c'" "reconcilable req m libs c"
  obtains m' libs' where "reconcilable req m' libs' c'" "reread_monitor m m'" "list_all2 reread_library libs libs'"
proof -
  have rec: "fst (kc_GetMonitor req c) = Inr m" "libraries_available m c libs" "credentials_available m c"
    "om_DeletionTimestamp (pm_Meta m) = None" "finalizerName \<in> set (om_Finalizers (pm_Meta m))"
    using assms(2) by (simp_all add: reconcilable_def)
  obtain m' where m': "fst (kc_GetMonitor req c') = Inr m'" "reread_monitor m m'"
    by (rule reread_GetMonitor [OF assms(1) rec(1)])
  obtain libs' where libs': "libraries_available m' c' libs'" "list_all2 reread_library libs libs'"
    by (rule reread_libraries [OF assms(1) rec(2) m'(2)])
  note secrets = reread_cluster_fields(1) [OF assms(1)]
  from secrets m'(2) rec(3-5) have "credentials_available m' c'" "om_DeletionTimestamp (pm_Meta m') = None"
    "finalizerName \<in> set (om_Finalizers (pm_Meta m'))"
    by (auto simp: credentials_available_def elim!: reread_monitorE split: option.splits)
  with m' libs' that show ?thesis by (simp add: reconcilable_def)
qed

end
