(* ===== verification/SteadyState.thy ===== *)
theory SteadyState
  imports Reread
begin

text \<open>
  Reconciling again: server-side apply of the same requests is idempotent on the children of the
  cluster, so that a second reconcile of an unchanged monitor changes no child and records no event,
  in whatever order it visits the maps of the monitor and its libraries.
\<close>

section \<open>Applying the same requests twice\<close>

definition child_id :: "Child \<Rightarrow> ChildKind \<times> NamespacedName" where
  "child_id c = (child_kind c, child_name c)"

lemma same_child_id: "same_child a b \<longleftrightarrow> child_id a = child_id b"
  by (simp add: same_child_def child_id_def)

text \<open>What the server stores for a request.\<close>

definition stored_as :: "Child list \<Rightarrow> Child \<Rightarrow> Child" where
  "stored_as children obj =
     (case find (same_child obj) children of None \<Rightarrow> obj | Some old \<Rightarrow> keep_status old obj)"

lemma child_id_stored [simp]: "child_id (stored_as children obj) = child_id obj"
proof -
  have "child_id (keep_status old obj) = child_id obj" for old
    by (cases "(old, obj)" rule: keep_status.cases) (simp_all add: child_id_def child_name_def)
  then show ?thesis by (simp add: stored_as_def split: option.split)
qed

lemma keep_status_again: "keep_status (stored_as children obj) obj = stored_as children obj"
proof -
  have "keep_status (keep_status old obj) obj = keep_status old obj" for old
    by (cases old rule: Child.exhaust; cases obj rule: Child.exhaust) simp_all
  moreover have "keep_status obj obj = obj"
    by (cases obj rule: Child.exhaust) simp_all
  ultimately show ?thesis by (simp add: stored_as_def split: option.split)
qed

lemma find_append_none: "(\<And>x. x \<in> set xs \<Longrightarrow> \<not> P x) \<Longrightarrow> find P (xs @ ys) = find P ys"
  by (induction xs) auto

lemma find_filter_imp: "(\<And>x. P x \<Longrightarrow> Q x) \<Longrightarrow> find P (filter Q xs) = find P xs"
  by (induction xs) auto

lemma apply_all:
  assumes "distinct (map child_id objs)"
  shows "foldl patch_child L objs =
    rev (map (stored_as L) objs) @ filter (\<lambda>x. child_id x \<notin> child_id ` set objs) L"
  using assms
proof (induction objs rule: rev_induct)
  case (snoc obj objs)
  let ?R = "rev (map (stored_as L) objs)" and ?F = "filter (\<lambda>x. child_id x \<notin> child_id ` set objs) L"
  have new: "child_id obj \<notin> child_id ` set objs" using snoc.prems by simp
  have others: "\<not> same_child obj x" if "x \<in> set ?R" for x
    using that new by (auto simp: same_child_id)
  have "find (same_child obj) (?R @ ?F) = find (same_child obj) ?F"
    by (rule find_append_none) (rule others)
  also have "\<dots> = find (same_child obj) L"
    by (rule find_filter_imp) (use new in \<open>auto simp: same_child_id\<close>)
  finally have stored: "stored_as (?R @ ?F) obj = stored_as L obj" by (simp add: stored_as_def)
  have "filter (\<lambda>x. \<not> same_child obj x) (?R @ ?F) =
      ?R @ filter (\<lambda>x. child_id x \<notin> child_id ` set (objs @ [obj])) L"
    using others by (auto simp: filter_id_conv same_child_id intro!: filter_cong)
  moreover have "patch_child (?R @ ?F) obj = stored_as (?R @ ?F) obj # filter (\<lambda>x. \<not> same_child obj x) (?R @ ?F)"
    by (simp add: patch_child_def stored_as_def Let_def)
  ultimately show ?case using snoc stored by simp
qed simp

lemma find_unique:
  assumes "distinct (map f xs)" "x \<in> set xs" "f x = k"
  shows "find (\<lambda>y. k = f y) xs = Some x"
  using assms
proof (induction xs)
  case (Cons a xs)
  show ?case
  proof (cases "x = a")
    case False
    with Cons.prems have "x \<in> set xs" by simp
    then have "f a \<noteq> k" using Cons.prems(1,3) by auto
    with Cons \<open>x \<in> set xs\<close> show ?thesis by simp
  qed (use Cons.prems in simp)
qed simp

lemma apply_all_again:
  assumes ids: "distinct (map child_id objs)"
  shows "foldl patch_child (foldl patch_child L objs) objs = foldl patch_child L objs"
proof -
  let ?R = "rev (map (stored_as L) objs)" and ?F = "filter (\<lambda>x. child_id x \<notin> child_id ` set objs) L"
  have ids_R: "distinct (map child_id ?R)" using ids by (simp add: rev_map [symmetric] comp_def)
  have "stored_as (?R @ ?F) obj = stored_as L obj" if obj: "obj \<in> set objs" for obj
  proof -
    have "find (same_child obj) (?R @ ?F) = Some (stored_as L obj)"
    proof -
      have "find (same_child obj) ?R = Some (stored_as L obj)"
        unfolding same_child_id [abs_def] by (rule find_unique [OF ids_R]) (use obj in simp_all)
      moreover have "find P (xs @ ys) = (case find P xs of None \<Rightarrow> find P ys | Some x \<Rightarrow> Some x)"
        for P :: "Child \<Rightarrow> bool" and xs ys by (induction xs) auto
      ultimately show ?thesis by simp
    qed
    then have "stored_as (?R @ ?F) obj = keep_status (stored_as L obj) obj" by (simp add: stored_as_def)
    then show ?thesis by (simp add: keep_status_again)
  qed
  then have "map (stored_as (?R @ ?F)) objs = map (stored_as L) objs" by simp
  moreover have "filter (\<lambda>x. child_id x \<notin> child_id ` set objs) (?R @ ?F) = ?F"
    by (auto simp: filter_empty_conv)
  ultimately show ?thesis unfolding apply_all [OF ids] by simp
qed

section \<open>Reconciling again\<close>

lemma reconcilable_again:
  assumes rec: "reconcilable req m libs c" and same: "rewritten m m'"
    and get: "fst (kc_GetMonitor req c') = Inr m'"
    and around: "kc_Libraries c' = kc_Libraries c" "kc_Secrets c' = kc_Secrets c"
  shows "reconcilable req m' libs c'"
  using rec
  by (simp add: reconcilable_def get rewritten_fields [OF same] credentials_available_def
      libraries_available_def kc_GetLibrary_def around split: option.splits)

lemma reconcilable_live:
  assumes "reconcilable req m libs (world s)"
  shows "live_read (cluster_reconciler b) req s m"
  using assms
  by (simp add: live_read_def reconcilable_def cluster_simps timestamp_IsZero_def)
     (simp add: cluster_reconciler_def kube_lib_def)

lemma rewritten_same: "rewritten m m' \<Longrightarrow> same_monitor m m'"
  by (simp add: same_monitor_def rewritten_fields)

lemma cluster_requests_distinct:
  assumes "desired_children b y m libs = Some cs"
  shows "distinct (map child_id (map (cluster_request m) cs))"
proof -
  have kind: "child_kind (cluster_request m c) = child_kind c" for c by (simp add: cluster_request_def)
  have "distinct (map fst (map child_id (map (cluster_request m) cs)))"
    using desired_children_sorted [OF assms] by (simp add: child_id_def comp_def kind strict_sorted_iff)
  then show ?thesis by (rule distinct_map [THEN iffD1, THEN conjunct1])
qed

lemma status_written_unique: "status_written s st \<Longrightarrow> status_written s st' \<Longrightarrow> st = st'"
  by (auto simp: status_written_def)

text \<open>A completed reconcile that writes the hash and the readiness it read records no event.\<close>

lemma reconcile_quiet:
  assumes live: "live_read (cluster_reconciler b) req s m"
    and run: "Reconcile (cluster_reconciler b) req s = (Done (if ready then emptyResult else requeue_seconds 15) None, s')"
    and st: "status_written s' st" "st_ConfigHash (pm_Status m) = st_ConfigHash st"
      "st_Ready (pm_Status m) = st_Ready st"
  shows "reports s s' []"
  using cluster.controller_contract_axioms live run
proof (cases rule: live_reconcile_cases)
  case (reported cs cm h now st' libs)
  have "st' = st" by (rule status_written_unique [OF reported(7) st(1)])
  then have "st_ConfigHash st = h" "st_Ready st = now" using reported(8) by (simp_all add: status_final_def)
  then show ?thesis using reported(6) st(2,3) by (simp add: config_events_def transition_events_def)
qed (auto simp: early_exit_def split: if_splits)


text \<open>
  The same run with a library whose metric has a statement for two versions; the second reconcile
  finds them in the other order.
\<close>

definition orders_lib2 :: PgpilotMetricLibrary where
  "orders_lib2 = orders_lib\<lparr>lib_Spec :=
     \<lparr>ls_Metrics = map (\<lambda>md. md\<lparr>md_SQLs := [(''13'', ''select 1''), (''14'', ''select 2'')]\<rparr>) (ls_Metrics (lib_Spec orders_lib))\<rparr>\<rparr>"

definition swap_versions :: "cluster \<Rightarrow> cluster" where
  "swap_versions c = c\<lparr>kc_Libraries := map (\<lambda>lib. lib\<lparr>lib_Spec :=
     \<lparr>ls_Metrics = map (\<lambda>md. md\<lparr>md_SQLs := rev (md_SQLs md)\<rparr>) (ls_Metrics (lib_Spec lib))\<rparr>\<rparr>) (kc_Libraries c)\<rparr>"

lemma swap_versions_reread: "reread_cluster c (swap_versions c)"
  by (simp add: swap_versions_def reread_cluster_def list_all2_same list.rel_map reread_library_def reread_metric_def)

lemma orders_lib2_metrics:
  "list_all one_key_per_version (all_metrics (sp_Metrics (pm_Spec orders)) [orders_lib2])"
  by (auto simp: all_metrics_def orders_lib2_def orders_lib_def one_key_per_version_def metric_wf_def
      versions_distinct_def inj_on_def Atoi_examples)

lemma orders_lib2_reconcilable:
  "reconcilable orders_key orders [orders_lib2] (orders_cluster\<lparr>kc_Libraries := [orders_lib2]\<rparr>)"
  using orders_reconcilable
  by (simp add: reconcilable_def kc_GetMonitor_def kc_find_def orders_cluster_def
      credentials_available_def libraries_available_def kc_GetLibrary_def
      library_name_def orders_lib2_def orders_lib_def)

lemma orders_lib2_config:
  obtains cm h where "BuildConfigMap canon_yaml orders (merged_of orders [orders_lib2]) = Inr (cm, h)"
proof -
  let ?merged = "merged_of orders [orders_lib2]"
  obtain t where t: "renderSources canon_yaml orders ?merged = Inr t"
    using canon_sources [of ?merged orders] by (auto simp: MergeMetrics_preset)
  obtain u where u: "renderMetrics canon_yaml ?merged = Inr u"
    using canon_metrics by blast
  have "\<exists>data. config_data canon_yaml orders ?merged = Inr data"
    unfolding config_data_def t u Let_def sum.case by auto
  then show ?thesis using that by (auto simp: BuildConfigMap_def)
qed


end
