(* ===== verification/System.thy ===== *)
theory System
  imports ReconcileClosed SteadyState
begin

text \<open>
  The operator and everything around it as a state machine over the API server of \<open>Cluster\<close>:
  users create, edit and delete monitors (what they submit is defaulted and validated by \<open>admit_spec\<close>), the kubelet and the garbage collector act on the children,
  libraries, secrets and pods come and go, and the two controllers reconcile, in any order. What
  holds in every reachable state is proved by rule induction, the controllers' steps through
  \<open>request_closed\<close> and \<open>library_requests\<close>: each request of theirs is a safe step.
\<close>

section \<open>Steps\<close>

definition empty_cluster :: cluster where
  "empty_cluster = \<lparr>kc_Monitors = [], kc_Libraries = [], kc_Secrets = [], kc_Children = [], kc_Pods = [],
     kc_Revision = 0, kc_Clock = 1\<rparr>"

definition start :: "cluster \<Rightarrow> cluster rstate" where
  "start c = \<lparr>world = c, journal = []\<rparr>"

definition cluster_library_reconciler :: "cluster LibraryReconciler" where
  "cluster_library_reconciler = \<lparr>lrc_Client = cluster_client, lrc_Lib = kube_lib\<rparr>"

text \<open>The status the kubelet reports for a Deployment.\<close>

fun set_replicas :: "NamespacedName \<Rightarrow> int32 \<Rightarrow> Child \<Rightarrow> Child" where
  "set_replicas k n (ChildDeployment d) =
     ChildDeployment (if deployment_name d = k then d\<lparr>dep_ReadyReplicas := n\<rparr> else d)"
| "set_replicas k n c = c"

text \<open>The monitor an owner reference names is still there.\<close>

definition owner_present :: "cluster \<Rightarrow> Child \<Rightarrow> bool" where
  "owner_present c x \<longleftrightarrow>
     list_ex (\<lambda>m. pm_Namespace m = om_Namespace (child_meta x) \<and> owned_by m (child_meta x)) (kc_Monitors c)"

inductive system_step :: "bool \<Rightarrow> cluster \<Rightarrow> cluster \<Rightarrow> bool" for b :: bool where
  reconcile: "system_step b c (world (snd (Reconcile (cluster_reconciler b) req (start c))))"
| reconcile_library: "system_step b c (world (snd (LibraryReconcile cluster_library_reconciler req (start c))))"
| create: "monitor_key m \<notin> monitor_key ` set (kc_Monitors c) \<Longrightarrow> om_DeletionTimestamp (pm_Meta m) = None \<Longrightarrow>
    admit_spec submitted = Some (pm_Spec m) \<Longrightarrow> system_step b c (snd (kc_put_monitor m c))"
| edit: "m \<in> set (kc_Monitors c) \<Longrightarrow> admit_spec submitted = Some spec \<Longrightarrow>
    system_step b c (snd (kc_WriteMonitor (m\<lparr>pm_Spec := spec\<rparr>) c))"
| delete: "m \<in> set (kc_Monitors c) \<Longrightarrow>
    system_step b c (snd (kc_put_monitor
      (set_meta m ((pm_Meta m)\<lparr>om_DeletionTimestamp := Some (kc_Clock c)\<rparr>)) c))"
| kubelet: "system_step b c (c\<lparr>kc_Children := map (set_replicas k n) (kc_Children c), kc_Clock := kc_Clock c + 1\<rparr>)"
| collect: "system_step b c (c\<lparr>kc_Children := filter (owner_present c) (kc_Children c)\<rparr>)"
| surroundings: "system_step b c (c\<lparr>kc_Libraries := libs, kc_Secrets := secrets, kc_Pods := pods\<rparr>)"

inductive reachable :: "bool \<Rightarrow> cluster \<Rightarrow> bool" for b :: bool where
  reach_empty: "reachable b empty_cluster"
| reach_step: "reachable b c \<Longrightarrow> system_step b c c' \<Longrightarrow> reachable b c'"

section \<open>What every reachable state satisfies\<close>

text \<open>
  A child has exactly one owner, a monitor as its controller, and is named after it.
\<close>

definition owned_child :: "Child \<Rightarrow> bool" where
  "owned_child x \<longleftrightarrow>
     (case om_OwnerReferences (child_meta x) of
        [ref] \<Rightarrow> or_Controller ref \<and> or_Kind ref = ''PgpilotMonitor''
          \<and> om_Name (child_meta x) = ResourceName (or_Name ref) @ child_suffix (child_kind x)
      | _ \<Rightarrow> False)"

definition monitors_typed :: "cluster \<Rightarrow> bool" where
  "monitors_typed c \<longleftrightarrow> list_all (\<lambda>m. spec_valid (pm_Spec m)) (kc_Monitors c)"

definition system_ok :: "cluster \<Rightarrow> bool" where
  "system_ok c \<longleftrightarrow> kc_wf c \<and> distinct (map child_id (kc_Children c)) \<and> list_all owned_child (kc_Children c)
     \<and> monitors_typed c"

text \<open>No monitor that is not being deleted gets lost.\<close>

definition survives :: "cluster \<Rightarrow> cluster \<Rightarrow> bool" where
  "survives c c' \<longleftrightarrow>
     (\<forall>m \<in> set (kc_Monitors c). om_DeletionTimestamp (pm_Meta m) = None \<longrightarrow>
        (\<exists>m' \<in> set (kc_Monitors c'). monitor_key m' = monitor_key m \<and> om_DeletionTimestamp (pm_Meta m') = None))"

definition safe_step :: "cluster \<Rightarrow> cluster \<Rightarrow> bool" where
  "safe_step c c' \<longleftrightarrow> (system_ok c \<longrightarrow> system_ok c' \<and> survives c c')"

lemma survives_refl [simp]: "survives c c"
  by (auto simp: survives_def)

lemma survives_trans: "survives c c' \<Longrightarrow> survives c' c'' \<Longrightarrow> survives c c''"
  unfolding survives_def by metis

lemma safe_step_refl [simp]: "safe_step c c"
  by (simp add: safe_step_def)

lemma safe_step_trans: "safe_step c c' \<Longrightarrow> safe_step c' c'' \<Longrightarrow> safe_step c c''"
  unfolding safe_step_def using survives_trans by blast

lemma safe_step_clock [simp]: "safe_step c (c\<lparr>kc_Clock := t\<rparr>)"
  by (auto simp: safe_step_def system_ok_def survives_def kc_wf_def monitors_typed_def)

subsection \<open>Writes of monitors\<close>

lemma put_monitor_ok:
  assumes "system_ok c" "spec_valid (pm_Spec m)"
  shows "system_ok (snd (kc_put_monitor m c))"
proof -
  have "distinct (map monitor_key (filter P (kc_Monitors c)))" for P
    using assms by (simp add: system_ok_def kc_wf_def distinct_map_filter)
  with assms show ?thesis
    by (auto simp: system_ok_def kc_wf_def kc_put_monitor_def Let_def set_meta_def monitor_key_def
        monitors_typed_def list_all_iff)
qed

lemma stored_typed: "system_ok c \<Longrightarrow> m \<in> set (kc_Monitors c) \<Longrightarrow> spec_valid (pm_Spec m)"
  by (simp add: system_ok_def monitors_typed_def list_all_iff)

lemma put_monitor_survives:
  assumes ok: "system_ok c" and cur: "cur \<in> set (kc_Monitors c)" "monitor_key m = monitor_key cur"
    and del: "om_DeletionTimestamp (pm_Meta m) = om_DeletionTimestamp (pm_Meta cur)"
  shows "survives c (snd (kc_put_monitor m c))"
  unfolding survives_def
proof (intro ballI impI)
  fix x
  assume x: "x \<in> set (kc_Monitors c)" "om_DeletionTimestamp (pm_Meta x) = None"
  let ?m = "set_meta m ((pm_Meta m)\<lparr>om_ResourceVersion := utoa (Suc (kc_Revision c))\<rparr>)"
  show "\<exists>m' \<in> set (kc_Monitors (snd (kc_put_monitor m c))). monitor_key m' = monitor_key x
      \<and> om_DeletionTimestamp (pm_Meta m') = None"
  proof (cases "monitor_key x = monitor_key m")
    case True
    then have "x = cur"
      using ok x(1) cur by (auto simp: system_ok_def kc_wf_def distinct_map inj_on_def)
    then show ?thesis
      using x(2) del True
      by (intro bexI [of _ ?m]) (simp_all add: kc_put_monitor_def Let_def set_meta_def monitor_key_def)
  next
    case False
    then show ?thesis
      using x by (intro bexI [of _ x]) (auto simp: kc_put_monitor_def Let_def)
  qed
qed

lemma GetMonitor_in:
  assumes "fst (kc_GetMonitor k c) = Inr m"
  shows "m \<in> set (kc_Monitors c)" "monitor_key m = k"
  using assms by (auto simp: kc_GetMonitor_iff find_Some_iff)

lemma WriteMonitor_safe:
  assumes "spec_valid (pm_Spec m)"
  shows "safe_step c (snd (kc_WriteMonitor m c))"
proof (cases "fst (kc_GetMonitor (monitor_key m) c)")
  case (Inr cur)
  note cur = GetMonitor_in [OF Inr]
  show ?thesis
  proof (cases "om_ResourceVersion (pm_Meta m) = om_ResourceVersion (pm_Meta cur)")
    case True
    define m' where "m' = m\<lparr>pm_Status := pm_Status cur, pm_Meta := (pm_Meta m)
      \<lparr>om_Generation := om_Generation (pm_Meta cur) + (if pm_Spec m = pm_Spec cur then 0 else 1),
       om_DeletionTimestamp := om_DeletionTimestamp (pm_Meta cur)\<rparr>\<rparr>"
    have "snd (kc_WriteMonitor m c) = snd (kc_put_monitor m' c)"
      by (simp add: kc_WriteMonitor_def Inr True m'_def Let_def case_prod_beta)
    moreover have "monitor_key m' = monitor_key cur" "om_DeletionTimestamp (pm_Meta m') = om_DeletionTimestamp (pm_Meta cur)"
      using cur(2) by (simp_all add: m'_def monitor_key_def)
    ultimately show ?thesis
      using put_monitor_ok put_monitor_survives [OF _ cur(1)] assms by (simp add: safe_step_def m'_def)
  qed (simp add: kc_WriteMonitor_def Inr)
qed (simp add: kc_WriteMonitor_def)

lemma UpdateMonitor_safe: "safe_step c (snd (kc_UpdateMonitor m c))"
  by (auto simp: kc_UpdateMonitor_def resubmit_def intro!: WriteMonitor_safe dest: admit_spec_valid split: option.split)

lemma UpdateMonitorStatus_safe: "safe_step c (snd (kc_UpdateMonitorStatus m c))"
proof (cases "fst (kc_GetMonitor (monitor_key m) c)")
  case (Inr cur)
  note cur = GetMonitor_in [OF Inr]
  have "monitor_key (cur\<lparr>pm_Status := pm_Status m\<rparr>) = monitor_key cur" by (simp add: monitor_key_def)
  then show ?thesis
    using put_monitor_ok put_monitor_survives [OF _ cur(1), where m = "cur\<lparr>pm_Status := pm_Status m\<rparr>"]
      stored_typed [OF _ cur(1)]
    by (simp add: kc_UpdateMonitorStatus_def Inr safe_step_def)
qed (simp add: kc_UpdateMonitorStatus_def)

subsection \<open>Writes of children\<close>

lemma patch_child_ids:
  assumes "distinct (map child_id cs)"
  shows "distinct (map child_id (patch_child cs obj))"
proof -
  have "patch_child cs obj = stored_as cs obj # filter (\<lambda>x. child_id obj \<noteq> child_id x) cs"
    by (simp add: patch_child_def stored_as_def Let_def same_child_id)
  with assms show ?thesis by (auto simp: distinct_map_filter)
qed

lemma owned_keep_status [simp]: "owned_child (keep_status old obj) = owned_child obj"
proof -
  have "child_meta (keep_status old obj) = child_meta obj" "child_kind (keep_status old obj) = child_kind obj"
    by (cases old rule: Child.exhaust; cases obj rule: Child.exhaust; simp)+
  then show ?thesis unfolding owned_child_def by (simp only:)
qed

lemma patch_child_owned: "list_all owned_child cs \<Longrightarrow> owned_child obj \<Longrightarrow> list_all owned_child (patch_child cs obj)"
  by (auto simp: patch_child_def Let_def list_all_iff split: option.split)

lemma Patch_safe:
  assumes "owned_child obj"
  shows "safe_step c (snd (kc_Patch obj c))"
  using assms patch_child_ids patch_child_owned
  by (auto simp: safe_step_def system_ok_def survives_def kc_Patch_def kc_wf_def monitors_typed_def)

lemma owned_request:
  assumes "built_for m c"
  shows "owned_child (cluster_request m c)"
  using assms
  by (simp add: owned_child_def cluster_request_def built_for_def controller_ref_def)

text \<open>The object a reconcile patches for a child it has built.\<close>

lemma patched_request:
  assumes "built_for m c" "cl_SetControllerReference kube_lib m (child_meta c) = Inr meta"
  shows "set_child_meta (meta\<lparr>om_ManagedFields := [], om_ResourceVersion := []\<rparr>) c = cluster_request m c"
  using assms by (auto simp: kube_lib_def set_controller_ref_def built_for_def cluster_request_def)

section \<open>The controllers' steps\<close>

lemma clock_safe [simp]: "safe_step c (snd (kc_Now c))"
  by (simp add: kc_Now_def)

lemmas kc_reads = kc_GetMonitor_def kc_GetSecret_def kc_GetLibrary_def kc_GetDeployment_def kc_ListPods_def
  kc_ListMonitors_def

lemmas kc_fields = cluster_reconciler_def cluster_client_def

interpretation reconciling: request_closed "cluster_reconciler b" safe_step for b
proof unfold_locales
  show "safe_step w w'' " if "safe_step w w'" "safe_step w' w''" for w w' w''
    using that by (rule safe_step_trans)
  show "safe_step w (snd (api_Patch (r_Client (cluster_reconciler b))
      (set_child_meta (meta\<lparr>om_ManagedFields := [], om_ResourceVersion := []\<rparr>) c) w))"
    if "built_for m c" "cl_SetControllerReference (r_Lib (cluster_reconciler b)) m (child_meta c) = Inr meta"
    for m c meta w
  proof -
    have "set_child_meta (meta\<lparr>om_ManagedFields := [], om_ResourceVersion := []\<rparr>) c = cluster_request m c"
      using that by (intro patched_request) (simp_all add: cluster_reconciler_def)
    then show ?thesis by (simp add: kc_fields Patch_safe [OF owned_request [OF that(1)]])
  qed
  show "\<exists>n. api_RetryOnConflict (r_Client (cluster_reconciler b)) DefaultRetry f s = attempts n f s" for f s
    by (rule retry_contract.retry_attempts [OF cluster.retry_ok])
qed (simp_all add: kc_fields kc_reads UpdateMonitor_safe UpdateMonitorStatus_safe)

lemma UpdateLibraryStatus_safe: "safe_step c (snd (kc_UpdateLibraryStatus lib c))"
  by (auto simp: kc_UpdateLibraryStatus_def Let_def safe_step_def system_ok_def survives_def kc_wf_def monitors_typed_def
      split: sum.split)

interpretation library_reconciling: library_requests cluster_library_reconciler safe_step
proof unfold_locales
  show "safe_step w w''" if "safe_step w w'" "safe_step w' w''" for w w' w''
    using that by (rule safe_step_trans)
qed (simp_all add: cluster_library_reconciler_def cluster_client_def kc_reads UpdateLibraryStatus_safe)

section \<open>The other steps\<close>

lemma set_replicas_id [simp]: "child_id (set_replicas k n x) = child_id x"
  by (cases x rule: Child.exhaust) (simp_all add: child_id_def child_name_def)

lemma set_replicas_owned [simp]: "owned_child (set_replicas k n x) = owned_child x"
proof -
  have "child_meta (set_replicas k n x) = child_meta x" "child_kind (set_replicas k n x) = child_kind x"
    by (cases x rule: Child.exhaust; simp)+
  then show ?thesis unfolding owned_child_def by (simp only:)
qed

lemma kubelet_safe:
  "safe_step c (c\<lparr>kc_Children := map (set_replicas k n) (kc_Children c), kc_Clock := t\<rparr>)"
  by (auto simp: safe_step_def system_ok_def survives_def kc_wf_def monitors_typed_def comp_def list_all_iff)

lemma collect_safe: "safe_step c (c\<lparr>kc_Children := filter P (kc_Children c)\<rparr>)"
  by (auto simp: safe_step_def system_ok_def survives_def kc_wf_def monitors_typed_def list_all_iff distinct_map_filter)

lemma surroundings_safe: "safe_step c (c\<lparr>kc_Libraries := libs, kc_Secrets := secrets, kc_Pods := pods\<rparr>)"
  by (auto simp: safe_step_def system_ok_def survives_def kc_wf_def monitors_typed_def)

lemma create_safe:
  assumes "monitor_key m \<notin> monitor_key ` set (kc_Monitors c)" "om_DeletionTimestamp (pm_Meta m) = None"
    "spec_valid (pm_Spec m)"
  shows "safe_step c (snd (kc_put_monitor m c))"
proof -
  have "x \<in> set (kc_Monitors (snd (kc_put_monitor m c)))" if x: "x \<in> set (kc_Monitors c)" for x
  proof -
    have "monitor_key x \<noteq> monitor_key m" using assms(1) x by (metis imageI)
    with x assms(2) show ?thesis by (simp add: kc_put_monitor_def Let_def)
  qed
  then have "survives c (snd (kc_put_monitor m c))" unfolding survives_def by blast
  with put_monitor_ok assms(3) show ?thesis by (simp add: safe_step_def)
qed

lemma world_start [simp]: "world (start c) = c"
  by (simp add: start_def)

text \<open>Every step but the request to delete is safe; that one keeps the invariant.\<close>

lemma system_step_safe:
  assumes "system_step b c c'"
  obtains (safe) "safe_step c c'"
  | (delete) m where "m \<in> set (kc_Monitors c)"
      "c' = snd (kc_put_monitor (set_meta m ((pm_Meta m)\<lparr>om_DeletionTimestamp := Some (kc_Clock c)\<rparr>)) c)"
  using assms
proof (cases rule: system_step.cases)
  case (reconcile req)
  then show ?thesis using reconciling.Reconcile_R [of "start c" b req] by (intro safe) simp
next
  case (reconcile_library req)
  then show ?thesis using library_reconciling.LibraryReconcile_W [of "start c" req] by (intro safe) simp
next
  case (create m submitted)
  then show ?thesis by (intro safe) (simp add: create_safe admit_spec_valid)
next
  case (edit m submitted spec)
  then show ?thesis by (intro safe) (simp add: WriteMonitor_safe admit_spec_valid)
qed (auto intro: safe delete simp: kubelet_safe collect_safe surroundings_safe)

lemma system_step_ok: "system_step b c c' \<Longrightarrow> system_ok c \<Longrightarrow> system_ok c'"
  by (erule system_step_safe) (simp_all add: safe_step_def put_monitor_ok stored_typed set_meta_def)

lemma system_ok_empty: "system_ok empty_cluster"
  by (simp add: system_ok_def empty_cluster_def kc_wf_def monitors_typed_def)

lemma reachable_ok: "reachable b c \<Longrightarrow> system_ok c"
  by (induction rule: reachable.induct)
    (simp_all add: system_ok_empty system_step_ok)

text \<open>A monitor under deletion that still has a finalizer stays on the server.\<close>

lemma step_keeps_monitor:
  assumes ok: "system_ok c" and step: "system_step b c c'" and m: "m \<in> set (kc_Monitors c)"
    and live: "om_DeletionTimestamp (pm_Meta m) = None" and fin: "om_Finalizers (pm_Meta m) \<noteq> []"
  shows "\<exists>m' \<in> set (kc_Monitors c'). monitor_key m' = monitor_key m"
  using step
proof (cases rule: system_step_safe)
  case safe
  with ok m live show ?thesis unfolding safe_step_def survives_def by blast
next
  case (delete x)
  show ?thesis
  proof (cases "monitor_key m = monitor_key x")
    case True
    then have "m = x" using ok m delete(1) by (auto simp: system_ok_def kc_wf_def distinct_map inj_on_def)
    then show ?thesis
      using delete(2) fin by (auto simp: kc_put_monitor_def Let_def set_meta_def monitor_key_def)
  next
    case False
    then have "m \<in> set (kc_Monitors c')"
      using m delete(2) by (auto simp: kc_put_monitor_def Let_def set_meta_def monitor_key_def)
    then show ?thesis by blast
  qed
qed

section \<open>A run\<close>

text \<open>The libraries, the Secret and the monitor of \<open>Scenario\<close> arrive, then the monitor is reconciled.\<close>

definition orders_created :: cluster where
  "orders_created = snd (kc_put_monitor orders
     (empty_cluster\<lparr>kc_Libraries := kc_Libraries orders_cluster, kc_Secrets := kc_Secrets orders_cluster,
        kc_Pods := kc_Pods orders_cluster\<rparr>))"

definition orders_stored :: PgpilotMonitor where
  "orders_stored = set_meta orders ((pm_Meta orders)\<lparr>om_ResourceVersion := utoa 1\<rparr>)"

lemma orders_created_reachable: "reachable b orders_created"
proof -
  have "reachable b (empty_cluster\<lparr>kc_Libraries := kc_Libraries orders_cluster,
      kc_Secrets := kc_Secrets orders_cluster, kc_Pods := kc_Pods orders_cluster\<rparr>)"
    by (rule reach_step [OF reach_empty system_step.surroundings])
  then show ?thesis
    unfolding orders_created_def
    by (rule reach_step) (rule system_step.create [OF _ _ orders_admitted], simp_all add: empty_cluster_def emptyMeta_def)
qed

lemma orders_created_reconcilable: "reconcilable orders_key orders_stored [orders_lib] orders_created"
  by (simp add: reconcilable_def kc_GetMonitor_def kc_find_def orders_created_def orders_stored_def orders_cluster_def
      empty_cluster_def kc_put_monitor_def Let_def set_meta_def monitor_key_def orders_key_def emptyMeta_def
      credentials_available_def libraries_available_def kc_GetLibrary_def library_name_def orders_lib_def)

definition orders_deployed :: cluster where
  "orders_deployed = world (snd (Reconcile (cluster_reconciler True) orders_key (start orders_created)))"

lemma orders_deployed_reachable: "reachable True orders_deployed"
  unfolding orders_deployed_def by (rule reach_step [OF orders_created_reachable system_step.reconcile])

lemma orders_deployed_children: "\<exists>x \<in> set (kc_Children orders_deployed). child_kind x = KDeployment"
proof -
  obtain cm h where cm: "BuildConfigMap canon_yaml orders (merged_of orders [orders_lib]) = Inr (cm, h)"
    by (rule orders_config)
  have same: "same_monitor orders orders_stored"
    by (simp add: same_monitor_def orders_stored_def set_meta_def)
  have cm': "BuildConfigMap canon_yaml orders_stored (merged_of orders_stored [orders_lib]) = Inr (cm, h)"
    using cm by (simp only: BuildConfigMap_same [OF same] same_monitor_fields [OF same])
  have rec: "reconcilable orders_key orders_stored [orders_lib] (world (start orders_created))"
    using orders_created_reconcilable by (simp add: start_def)
  obtain result s' cs where run: "Reconcile (cluster_reconciler True) orders_key (start orders_created) = (result, s')"
    and cs: "desired_children True canon_yaml orders_stored [orders_lib] = Some cs"
    and all: "\<forall>c \<in> set cs. delivered orders_stored s' c"
    by (rule cluster_reconcile [OF rec cm', of True]) blast
  have "KDeployment \<in> set (map child_kind cs)" using desired_children_kinds [OF cs] by simp
  then obtain c where "c \<in> set cs" "child_kind c = KDeployment" by auto
  moreover obtain sent where "child_request orders_stored c sent" "kc_holds s' sent"
    using all calculation(1) by (auto simp: delivered_def)
  ultimately show ?thesis
    using child_request_kind run
    by (fastforce simp: orders_deployed_def kc_holds_def same_child_def)
qed

section \<open>Invariants of the system\<close>

text \<open>
  C7: Every monitor that is ever stored, whatever users submit and whatever the operator writes back,
  has the type its CRD declares (host and database given, ports from 1 to 65535, a known SSL mode and
  pull policy, exactly one kind of credentials, well-formed metrics). The builders need no more: the
  Deployment is built without a nil credentials reference, and the port it exposes is a real port.
\<close>

theorem stored_monitors_typed:
  assumes "reachable b c" "m \<in> set (kc_Monitors c)"
  shows "spec_valid (pm_Spec m) \<and> BuildDeployment m merged h \<noteq> None
     \<and> 1 \<le> sint (prometheusPort m) \<and> sint (prometheusPort m) \<le> 65535"
proof -
  have typed: "spec_valid (pm_Spec m)" by (rule stored_typed [OF reachable_ok [OF assms(1)] assms(2)])
  then have "buildEnvVars m \<noteq> None"
    by (simp add: spec_valid_def database_valid_def credentials_valid_env)
  moreover have "port_valid (ps_Port p)" if "ss_Prometheus (sp_Sinks (pm_Spec m)) = Some p" for p
    using typed that by (simp add: spec_valid_def sinks_valid_def port_valid_def valid_port_def)
  from prometheusPort_range [of m, OF this] have "1 \<le> sint (prometheusPort m) \<and> sint (prometheusPort m) \<le> 65535" by simp
  ultimately show ?thesis using typed by (auto simp: BuildDeployment_def Let_def)
qed

theorem stored_monitors_typed_witness:
  "BuildDeployment orders_stored (merged_of orders [orders_lib]) ''hash'' \<noteq> None \<and> sint (prometheusPort orders_stored) \<le> 65535"
proof -
  have "orders_stored \<in> set (kc_Monitors orders_created)"
    using orders_created_reconcilable GetMonitor_in(1) by (auto simp: reconcilable_def)
  from stored_monitors_typed [OF orders_created_reachable this] show ?thesis by simp
qed

text \<open>
  In every state that users, the kubelet, the garbage collector and the two controllers can bring
  about, acting in any order, there is one monitor per key and one child per kind and name, and every
  child has exactly one owner reference: the controller reference to the monitor it is named after.
\<close>

theorem system_invariant:
  assumes "reachable b c"
  shows "distinct (map monitor_key (kc_Monitors c)) \<and> distinct (map child_id (kc_Children c))
     \<and> list_all owned_child (kc_Children c)"
  using reachable_ok [OF assms] by (simp add: system_ok_def kc_wf_def)

lemma system_invariant_witness:
  "reachable True orders_deployed \<and> list_ex (\<lambda>x. child_kind x = KDeployment \<and> owned_child x) (kc_Children orders_deployed)"
  using system_invariant [OF orders_deployed_reachable] orders_deployed_reachable orders_deployed_children
  by (auto simp: list_ex_iff list_all_iff)

text \<open>
  No step of the system removes a monitor that holds a finalizer and is not being deleted; a
  request to delete it only marks it, so that the operator sees the deletion. In particular no
  reconcile, of whatever monitor or library, loses a monitor.
\<close>

theorem finalizer_holds_monitor:
  assumes "reachable b c" and "system_step b c c'" and "m \<in> set (kc_Monitors c)"
    and "om_DeletionTimestamp (pm_Meta m) = None" and "finalizerName \<in> set (om_Finalizers (pm_Meta m))"
  shows "\<exists>m' \<in> set (kc_Monitors c'). monitor_key m' = monitor_key m"
  by (rule step_keeps_monitor [OF reachable_ok [OF assms(1)] assms(2-4)]) (use assms(5) in auto)

lemma finalizer_holds_monitor_witness:
  "\<exists>c' m'. system_step True orders_created c' \<and> orders_stored \<in> set (kc_Monitors orders_created)
     \<and> om_DeletionTimestamp (pm_Meta orders_stored) = None
     \<and> m' \<in> set (kc_Monitors c') \<and> monitor_key m' = orders_key"
proof -
  have m: "orders_stored \<in> set (kc_Monitors orders_created)" "monitor_key orders_stored = orders_key"
    "om_DeletionTimestamp (pm_Meta orders_stored) = None"
    "finalizerName \<in> set (om_Finalizers (pm_Meta orders_stored))"
    using orders_created_reconcilable GetMonitor_in [of orders_key orders_created orders_stored]
    by (simp_all add: reconcilable_def)
  note step = system_step.delete [OF m(1), of True]
  from finalizer_holds_monitor [OF orders_created_reachable step m(1,3,4)] show ?thesis
    using m step by metis
qed

end
