(* ===== verification/RequeueLoop.thy ===== *)
theory RequeueLoop
  imports System
begin

text \<open>
  The work queue around the monitor controller: while \<open>Reconcile\<close> asks to be run again, or fails, it
  is run again. The loop need not end, so it is a partial function; \<open>queue_loop\<close> says when it does,
  and its interpretation on the reconciler and the API server model shows that the 15 second requeue
  of \<open>Reconcile\<close> stops once, and only once, the Deployment has a ready replica.
\<close>

section \<open>The queue\<close>

text \<open>\<open>pause n\<close> is what happens around the controller before its \<open>n\<close>-th run; the first is run 0.\<close>

partial_function (option) work_queue ::
  "('w rstate \<Rightarrow> Outcome \<times> 'w rstate) \<Rightarrow> (nat \<Rightarrow> 'w \<Rightarrow> 'w) \<Rightarrow> nat \<Rightarrow> 'w rstate \<Rightarrow> (nat \<times> 'w rstate) option" where
  "work_queue run pause n s =
     (case run s of (out, s') \<Rightarrow>
        if out = Done emptyResult None then Some (n, s')
        else work_queue run pause (Suc n) (s'\<lparr>world := pause (Suc n) (world s')\<rparr>))"

locale queue_loop =
  fixes run :: "'w rstate \<Rightarrow> Outcome \<times> 'w rstate"
    and pause :: "nat \<Rightarrow> 'w \<Rightarrow> 'w"
    and inv :: "nat \<Rightarrow> 'w rstate \<Rightarrow> bool"
    and stop :: "nat \<Rightarrow> bool"
  assumes stops_iff: "inv n s \<Longrightarrow> fst (run s) = Done emptyResult None \<longleftrightarrow> stop n"
    and goes_on: "inv n s \<Longrightarrow> \<not> stop n \<Longrightarrow>
      inv (Suc n) ((snd (run s))\<lparr>world := pause (Suc n) (world (snd (run s)))\<rparr>)"
begin

text \<open>It returns at the first run that stops \<dots>\<close>

lemma returns:
  assumes "inv n s" "stop (n + d)" "\<And>i. i < d \<Longrightarrow> \<not> stop (n + i)"
  shows "\<exists>last. inv (n + d) last \<and> work_queue run pause n s = Some (n + d, snd (run last))"
  using assms
proof (induction d arbitrary: n s)
  case 0
  then have "fst (run s) = Done emptyResult None" by (simp add: stops_iff)
  with 0 show ?case by (auto simp: work_queue.simps [of run pause n] split: prod.split)
next
  case (Suc d)
  have "\<not> stop n" using Suc.prems(3) [of 0] by simp
  let ?s = "(snd (run s))\<lparr>world := pause (Suc n) (world (snd (run s)))\<rparr>"
  have "\<exists>last. inv (Suc n + d) last \<and> work_queue run pause (Suc n) ?s = Some (Suc n + d, snd (run last))"
    using Suc.prems(2,3) goes_on [OF Suc.prems(1) \<open>\<not> stop n\<close>] by (intro Suc.IH) force+
  moreover have "work_queue run pause n s = work_queue run pause (Suc n) ?s"
    using stops_iff [OF Suc.prems(1)] \<open>\<not> stop n\<close> by (auto simp: work_queue.simps [of run pause n] split: prod.split)
  ultimately show ?case by simp
qed

text \<open>\<dots> and at no other.\<close>

lemma returned:
  assumes "inv n s" "work_queue run pause n s = Some r"
  shows "n \<le> fst r \<and> stop (fst r) \<and> (\<forall>i. n \<le> i \<and> i < fst r \<longrightarrow> \<not> stop i)"
proof -
  let ?P = "\<lambda>f p n s r. f = run \<longrightarrow> p = pause \<longrightarrow> inv n s \<longrightarrow>
      n \<le> fst r \<and> stop (fst r) \<and> (\<forall>i. n \<le> i \<and> i < fst r \<longrightarrow> \<not> stop i)"
  have "?P run pause n s r"
  proof (rule work_queue.raw_induct [where P = ?P, OF _ assms(2)], intro impI)
    fix wq f p n s r
    assume IH: "\<And>f p n s r. wq f p n s = Some r \<Longrightarrow> ?P f p n s r" and f: "f = run" and p: "p = pause"
      and inv: "inv n s"
      and ret: "(case f s of (out, s') \<Rightarrow> if out = Done emptyResult None then Some (n, s')
        else wq f p (Suc n) (s'\<lparr>world := p (Suc n) (world s')\<rparr>)) = Some r"
    show "n \<le> fst r \<and> stop (fst r) \<and> (\<forall>i. n \<le> i \<and> i < fst r \<longrightarrow> \<not> stop i)"
    proof (cases "stop n")
      case True
      then have "r = (n, snd (run s))" using ret stops_iff [OF inv] f by (auto split: prod.splits)
      with True show ?thesis by auto
    next
      case False
      then have "wq run pause (Suc n) ((snd (run s))\<lparr>world := pause (Suc n) (world (snd (run s)))\<rparr>) = Some r"
        using ret stops_iff [OF inv] f p by (auto split: prod.splits)
      from IH [OF this] goes_on [OF inv False] have "Suc n \<le> fst r \<and> stop (fst r)
          \<and> (\<forall>i. Suc n \<le> i \<and> i < fst r \<longrightarrow> \<not> stop i)" by blast
      moreover have "i = n \<or> Suc n \<le> i" if "n \<le> i" for i using that by auto
      ultimately show ?thesis using False by (metis Suc_leD)
    qed
  qed
  with assms(1) show ?thesis by simp
qed

lemma terminates_iff:
  assumes "inv 0 s"
  shows "work_queue run pause 0 s \<noteq> None \<longleftrightarrow> (\<exists>i. stop i)"
proof
  assume "\<exists>i. stop i"
  then have "stop (0 + (LEAST i. stop i))" by (simp add: LeastI_ex)
  moreover have "\<not> stop (0 + i)" if "i < (LEAST i. stop i)" for i using that not_less_Least by simp
  ultimately show "work_queue run pause 0 s \<noteq> None" using returns [OF assms] by blast
qed (use returned [OF assms] in blast)

end

section \<open>The kubelet between two runs\<close>

definition deployment_key :: "NamespacedName \<Rightarrow> NamespacedName" where
  "deployment_key req = \<lparr>nn_Namespace = nn_Namespace req, nn_Name = ResourceName (nn_Name req)\<rparr>"

text \<open>The ready replicas of the Deployment are reported: the \<open>kubelet\<close> step of the system.\<close>

definition kubelet_reports :: "NamespacedName \<Rightarrow> (nat \<Rightarrow> int32) \<Rightarrow> nat \<Rightarrow> cluster \<Rightarrow> cluster" where
  "kubelet_reports k pods i c =
     c\<lparr>kc_Children := map (set_replicas k (pods i)) (kc_Children c), kc_Clock := kc_Clock c + 1\<rparr>"

lemma report_deployments:
  "kc_deployments (map (set_replicas k n) cs) =
     map (\<lambda>d. if deployment_name d = k then d\<lparr>dep_ReadyReplicas := n\<rparr> else d) (kc_deployments cs)"
  by (induction cs rule: kc_deployments.induct) simp_all

lemma find_map_same:
  "(\<And>x. P (f x) = P x) \<Longrightarrow> find P (map f xs) = map_option f (find P xs)"
  by (induction xs) auto

lemma kubelet_replicas:
  assumes "fst (kc_GetDeployment k c) = Inr dep"
  shows "kc_replicas k (kubelet_reports k pods i c) = pods i"
proof -
  have "find (\<lambda>d. deployment_name d = k) (kc_deployments (kc_Children c)) = Some dep"
    using assms by (auto simp: kc_GetDeployment_def kc_find_def split: option.splits)
  moreover from this have "deployment_name dep = k" by (auto simp: find_Some_iff)
  moreover have name: "deployment_name (if P then d\<lparr>dep_ReadyReplicas := n\<rparr> else d) = deployment_name d" for P n d
    by (simp add: deployment_name_def)
  ultimately show ?thesis
    by (simp add: kc_replicas_def kc_GetDeployment_def kc_find_def kubelet_reports_def report_deployments
        find_map_same name)
qed

text \<open>A reconcile that delivered its children left a Deployment.\<close>

lemma delivered_deployment:
  assumes "desired_children b y m libs = Some cs" "\<forall>c \<in> set cs. delivered m s c"
  obtains dep where "fst (kc_GetDeployment (deployment_key (monitor_key m)) (world s)) = Inr dep"
proof -
  have "KDeployment \<in> set (map child_kind cs)" using desired_children_kinds [OF assms(1)] by simp
  then obtain c where c: "c \<in> set cs" "child_kind c = KDeployment" by auto
  then obtain sent where sent: "child_request m c sent" "kc_holds s sent" using assms(2) by (auto simp: delivered_def)
  then obtain d where d: "sent = ChildDeployment d"
    using child_request_kind [OF sent(1)] c(2) by (cases sent) simp_all
  have "deployment_name d = deployment_key (monitor_key m)"
    using sent(1) desired_children_names [OF assms(1) c(1)] c(2)
    by (simp add: child_request_def d deployment_name_def deployment_key_def monitor_key_def)
  then show ?thesis using cluster_deployment sent(2) that unfolding d by metis
qed

section \<open>The requeue of a monitor\<close>

text \<open>The monitor can be reconciled, and \<open>pods n\<close> is what the Deployment shows at run \<open>n\<close>.\<close>

definition progressing :: "NamespacedName \<Rightarrow> (nat \<Rightarrow> int32) \<Rightarrow> nat \<Rightarrow> cluster rstate \<Rightarrow> bool" where
  "progressing req pods n s \<longleftrightarrow>
     (\<exists>m libs cm h. reconcilable req m libs (world s)
        \<and> BuildConfigMap canon_yaml m (merged_of m libs) = Inr (cm, h)
        \<and> kc_replicas (deployment_key req) (world s) = pods n)"

lemma progressing_run:
  assumes "progressing req pods n s"
  obtains s' stored where
    "Reconcile (cluster_reconciler b) req s =
       (Done (if 0 < sint (pods n) then emptyResult else requeue_seconds 15) None, s')"
    "fst (kc_GetMonitor req (world s')) = Inr stored" "st_Ready (pm_Status stored) = (0 < sint (pods n))"
    "progressing req pods (Suc n) (s'\<lparr>world := kubelet_reports (deployment_key req) pods (Suc n) (world s')\<rparr>)"
proof -
  obtain m libs cm h where rec: "reconcilable req m libs (world s)"
    and cm: "BuildConfigMap canon_yaml m (merged_of m libs) = Inr (cm, h)"
    and pods: "kc_replicas (deployment_key req) (world s) = pods n"
    using assms by (auto simp: progressing_def)
  have req: "req = monitor_key m" using rec kc_GetMonitor_key by (auto simp: reconcilable_def)
  have key: "\<lparr>nn_Namespace = pm_Namespace m, nn_Name = ResourceName (pm_Name m)\<rparr> = deployment_key req"
    by (simp add: req deployment_key_def monitor_key_def)
  obtain s' stored cs where run: "Reconcile (cluster_reconciler b) req s =
      (Done (if 0 < sint (pods n) then emptyResult else requeue_seconds 15) None, s')"
    and get: "fst (kc_GetMonitor req (world s')) = Inr stored" and final: "status_final m h (0 < sint (pods n)) (pm_Status stored)"
    and cs: "desired_children b canon_yaml m libs = Some cs" "\<forall>c \<in> set cs. delivered m s' c"
    and same: "rewritten m stored" and around: "kc_surroundings s s'"
    by (rule cluster_reconcile [OF rec cm, of b]) (simp only: key pods)
  let ?c = "kubelet_reports (deployment_key req) pods (Suc n) (world s')"
  obtain dep where "fst (kc_GetDeployment (deployment_key req) (world s')) = Inr dep"
    using delivered_deployment [OF cs] unfolding req .
  note shown = kubelet_replicas [OF this, of pods "Suc n"]
  have "fst (kc_GetMonitor req ?c) = Inr stored"
    using get by (simp add: kc_GetMonitor_def kubelet_reports_def)
  moreover have "kc_Libraries ?c = kc_Libraries (world s)" "kc_Secrets ?c = kc_Secrets (world s)"
    using around by (simp_all add: kc_surroundings_def kubelet_reports_def)
  ultimately have "reconcilable req stored libs ?c" by (rule reconcilable_again [OF rec same])
  moreover note sm = rewritten_same [OF same]
  have "BuildConfigMap canon_yaml stored (merged_of stored libs) = Inr (cm, h)"
    using cm by (simp only: BuildConfigMap_same [OF sm] same_monitor_fields [OF sm])
  ultimately have "progressing req pods (Suc n) (s'\<lparr>world := ?c\<rparr>)"
    using shown by (auto simp: progressing_def)
  then show ?thesis using that run get final by (simp add: status_final_def)
qed

interpretation requeue: queue_loop "Reconcile (cluster_reconciler b) req"
    "kubelet_reports (deployment_key req) pods" "progressing req pods" "\<lambda>n. 0 < sint (pods n)" for b req pods
proof unfold_locales
  fix n s
  assume inv: "progressing req pods n s"
  show "fst (Reconcile (cluster_reconciler b) req s) = Done emptyResult None \<longleftrightarrow> 0 < sint (pods n)"
    by (rule progressing_run [OF inv, of b]) simp
  show "progressing req pods (Suc n) ((snd (Reconcile (cluster_reconciler b) req s))
      \<lparr>world := kubelet_reports (deployment_key req) pods (Suc n) (world (snd (Reconcile (cluster_reconciler b) req s)))\<rparr>)"
    by (rule progressing_run [OF inv, of b]) simp
qed

text \<open>
  C6: The 15 second requeue ends exactly when it should. Starting from a monitor that can be reconciled,
  with the ready replicas of its Deployment reported as \<open>pods i\<close> at run \<open>i\<close>, the queue stops if and only
  if some run sees a ready replica; it stops at the first such run, and the monitor it leaves is
  reported ready.
\<close>

theorem requeue_until_ready:
  assumes "reconcilable req m libs (world s)"
    and "BuildConfigMap canon_yaml m (merged_of m libs) = Inr (cm, h)"
    and "kc_replicas (deployment_key req) (world s) = pods 0"
  shows "(work_queue (Reconcile (cluster_reconciler b) req) (kubelet_reports (deployment_key req) pods) 0 s \<noteq> None
        \<longleftrightarrow> (\<exists>i. 0 < sint (pods i)))
     \<and> (\<forall>n. 0 < sint (pods n) \<longrightarrow> (\<forall>i < n. \<not> 0 < sint (pods i)) \<longrightarrow>
          (\<exists>s' stored. work_queue (Reconcile (cluster_reconciler b) req)
               (kubelet_reports (deployment_key req) pods) 0 s = Some (n, s')
             \<and> fst (kc_GetMonitor req (world s')) = Inr stored \<and> st_Ready (pm_Status stored)))"
proof (intro conjI allI impI)
  have inv: "progressing req pods 0 s" using assms by (auto simp: progressing_def)
  show "work_queue (Reconcile (cluster_reconciler b) req) (kubelet_reports (deployment_key req) pods) 0 s \<noteq> None
      \<longleftrightarrow> (\<exists>i. 0 < sint (pods i))"
    by (rule requeue.terminates_iff [OF inv])
  fix n assume n: "0 < sint (pods n)" "\<forall>i < n. \<not> 0 < sint (pods i)"
  obtain last where last: "progressing req pods n last"
    and loop: "work_queue (Reconcile (cluster_reconciler b) req) (kubelet_reports (deployment_key req) pods) 0 s =
      Some (n, snd (Reconcile (cluster_reconciler b) req last))"
    using requeue.returns [OF inv, of n b] n by auto
  obtain s' stored where run: "Reconcile (cluster_reconciler b) req last =
        (Done (if 0 < sint (pods n) then emptyResult else requeue_seconds 15) None, s')"
      and get: "fst (kc_GetMonitor req (world s')) = Inr stored" and ready: "st_Ready (pm_Status stored) = (0 < sint (pods n))"
    using progressing_run [OF last, of b] by metis
  show "\<exists>s' stored. work_queue (Reconcile (cluster_reconciler b) req)
        (kubelet_reports (deployment_key req) pods) 0 s = Some (n, s')
      \<and> fst (kc_GetMonitor req (world s')) = Inr stored \<and> st_Ready (pm_Status stored)"
    using loop run get ready n(1) by auto
qed

text \<open>The pod of \<open>orders\<close> becomes ready before the third run.\<close>

definition orders_pods :: "nat \<Rightarrow> int32" where
  "orders_pods i = (if i < 2 then 0 else 1)"

theorem requeue_until_ready_witness:
  "\<exists>s' stored. work_queue (Reconcile (cluster_reconciler True) orders_key)
       (kubelet_reports (deployment_key orders_key) orders_pods) 0 orders_state = Some (2, s')
     \<and> fst (kc_GetMonitor orders_key (world s')) = Inr stored \<and> st_Ready (pm_Status stored)"
proof -
  obtain cm h where cm: "BuildConfigMap canon_yaml orders (merged_of orders [orders_lib]) = Inr (cm, h)"
    by (rule orders_config)
  have rec: "reconcilable orders_key orders [orders_lib] (world orders_state)"
    using orders_reconcilable by (simp add: orders_state_def)
  have none: "kc_replicas (deployment_key orders_key) (world orders_state) = orders_pods 0"
    by (simp add: orders_pods_def kc_replicas_def kc_GetDeployment_def kc_find_def orders_state_def orders_cluster_def)
  show ?thesis using requeue_until_ready [where pods = orders_pods, OF rec cm none, of True]
    by (auto simp: orders_pods_def)
qed

end
