(* ===== verification/AdmissionProperties.thy ===== *)
theory AdmissionProperties
  imports System
begin

text \<open>
  The defaults of the CRD against the defaults of the builders, what becomes of a specification that
  the operator writes back when it adds its finalizer, and the first reconcile of a new monitor.
\<close>

section \<open>Builders and defaults\<close>

lemma fill_database_simps [simp]:
  "db_Username (sp_Database (fill_spec sp)) = db_Username (sp_Database sp)"
  "db_Password (sp_Database (fill_spec sp)) = db_Password (sp_Database sp)"
  "db_CustomTags (sp_Database (fill_spec sp)) = db_CustomTags (sp_Database sp)"
  "buildConnStr (sp_Database (fill_spec sp)) = buildConnStr (sp_Database sp)"
  "db_CredentialsSecret (sp_Database (fill_spec sp)) =
     map_option fill_credentials (db_CredentialsSecret (sp_Database sp))"
  by (simp_all add: fill_spec_def buildConnStr_def)

lemma fill_spec_simps [simp]:
  "sp_Metrics (fill_spec sp) = sp_Metrics sp" "sp_Sinks (fill_spec sp) = sp_Sinks sp"
  "sp_Resources (fill_spec sp) = sp_Resources sp" "sp_Image (fill_spec sp) = fill_image (sp_Image sp)"
  "sp_PodMetadata (fill_spec sp) = sp_PodMetadata sp" "sp_ServiceMetadata (fill_spec sp) = sp_ServiceMetadata sp"
  by (simp_all add: fill_spec_def)

text \<open>The same monitor with the defaults filled in.\<close>

definition filled :: "PgpilotMonitor \<Rightarrow> PgpilotMonitor" where
  "filled m = m\<lparr>pm_Spec := fill_spec (pm_Spec m)\<rparr>"

lemma filled_simps [simp]:
  "pm_Meta (filled m) = pm_Meta m" "pm_Spec (filled m) = fill_spec (pm_Spec m)" "pm_Status (filled m) = pm_Status m"
  by (simp_all add: filled_def)

lemma filled_image: "containerImage (filled m) = containerImage m"
  by (simp add: containerImage_def fill_image_def fill_string_def Let_def)

lemma filled_env: "buildEnvVars (filled m) = buildEnvVars m"
  by (cases "db_CredentialsSecret (sp_Database (pm_Spec m))")
    (auto simp: buildEnvVars_def fill_credentials_def fill_string_def Let_def)

lemma filled_container: "pgwatch_container (filled m) merged envs = pgwatch_container m merged envs"
  by (simp only: pgwatch_container_def filled_image prometheusPort_def buildArgs_def filled_simps fill_spec_simps)

lemma filled_deployment: "BuildDeployment (filled m) merged h = BuildDeployment m merged h"
  by (simp only: BuildDeployment_def filled_env filled_container filled_simps fill_spec_simps)

lemma filled_configmap: "BuildConfigMap y (filled m) merged = BuildConfigMap y m merged"
proof -
  have "source_entry y (filled m) merged = source_entry y m merged"
    by (simp only: source_entry_def Let_def filled_simps fill_database_simps)
  then show ?thesis by (simp only: BuildConfigMap_def config_data_def renderSources_def filled_simps)
qed

lemma filled_service: "BuildService (filled m) = BuildService m" "BuildServiceMonitor (filled m) = BuildServiceMonitor m"
  by (simp_all only: BuildService_def BuildServiceMonitor_def prometheusPort_def filled_simps fill_spec_simps)

lemma filled_children: "desired_children b y (filled m) libs = desired_children b y m libs"
  by (simp only: desired_children_def filled_configmap filled_deployment filled_service filled_simps fill_spec_simps)

text \<open>Behind the schema, the library controller never reports a library as empty.\<close>

lemma admitted_library_valid:
  "library_spec_valid (lib_Spec lib) \<Longrightarrow> cd_Status (valid_condition lib) = ConditionTrue"
  by (auto simp: library_spec_valid_def valid_condition_content)

section \<open>Writing a monitor back\<close>

text \<open>
  C16: A monitor of the declared type survives being written back by a Go client: the server accepts
  it, keeps the stored value on every further write, and every child the operator builds from it is
  the same as before, because the defaults of the builders (image, tag, keys of the credentials
  Secret) are those of the CRD. It is stored unchanged exactly when no field with a default is empty.
\<close>

theorem writing_back_changes_no_child:
  assumes "spec_valid (pm_Spec m)"
  shows "\<exists>spec. resubmit (pm_Spec m) = Some spec \<and> resubmit spec = Some spec \<and> spec_valid spec
     \<and> desired_children b y (m\<lparr>pm_Spec := spec\<rparr>) libs = desired_children b y m libs
     \<and> (spec = pm_Spec m \<longleftrightarrow>
          [] \<notin> {im_Repository (sp_Image (pm_Spec m)), im_Tag (sp_Image (pm_Spec m)), im_PullPolicy (sp_Image (pm_Spec m))}
          \<and> pred_option (\<lambda>cs. cs_UsernameKey cs \<noteq> [] \<and> cs_PasswordKey cs \<noteq> []) (db_CredentialsSecret (pm_Database m)))"
proof -
  let ?sp = "pm_Spec m"
  have "fill_image im = im \<longleftrightarrow> [] \<notin> {im_Repository im, im_Tag im, im_PullPolicy im}" for im
    by (cases im) (auto simp: fill_image_def fill_string_def)
  moreover have "fill_credentials cs = cs \<longleftrightarrow> cs_UsernameKey cs \<noteq> [] \<and> cs_PasswordKey cs \<noteq> []" for cs
    by (cases cs) (auto simp: fill_credentials_def fill_string_def)
  then have "map_option fill_credentials v = v \<longleftrightarrow> pred_option (\<lambda>cs. cs_UsernameKey cs \<noteq> [] \<and> cs_PasswordKey cs \<noteq> []) v" for v
    by (cases v) simp_all
  moreover have "fill_spec ?sp = ?sp \<longleftrightarrow> fill_image (sp_Image ?sp) = sp_Image ?sp
      \<and> map_option fill_credentials (db_CredentialsSecret (sp_Database ?sp)) = db_CredentialsSecret (sp_Database ?sp)"
    by (cases ?sp; cases "sp_Database ?sp") (auto simp: fill_spec_def)
  ultimately have same: "fill_spec ?sp = ?sp \<longleftrightarrow>
      [] \<notin> {im_Repository (sp_Image ?sp), im_Tag (sp_Image ?sp), im_PullPolicy (sp_Image ?sp)}
      \<and> pred_option (\<lambda>cs. cs_UsernameKey cs \<noteq> [] \<and> cs_PasswordKey cs \<noteq> []) (db_CredentialsSecret (sp_Database ?sp))"
    by simp
  have children: "desired_children b y (m\<lparr>pm_Spec := fill_spec ?sp\<rparr>) libs = desired_children b y m libs"
    using filled_children [of b y m libs] by (simp add: filled_def)
  note again = resubmit_valid [OF fill_spec_valid [OF assms], unfolded fill_spec_idem]
  show ?thesis
    by (rule exI [of _ "fill_spec ?sp"], intro conjI)
      (fact resubmit_valid [OF assms] again fill_spec_valid [OF assms] children same)+
qed

theorem writing_back_changes_no_child_witness:
  "\<exists>spec. resubmit orders_spec = Some spec \<and> spec \<noteq> orders_spec
     \<and> desired_children True canon_yaml (orders\<lparr>pm_Spec := spec\<rparr>) [orders_lib] = desired_children True canon_yaml orders [orders_lib]"
proof -
  have "spec_valid (pm_Spec orders)" by (rule admit_spec_valid [OF orders_admitted])
  from writing_back_changes_no_child [OF this, of True canon_yaml "[orders_lib]"] show ?thesis
    by (auto simp: orders_spec_def)
qed

text \<open>What the server stores for a write of a monitor it holds, by a client that read its current version.\<close>

lemma UpdateMonitor_stores:
  assumes get: "fst (kc_GetMonitor req c) = Inr m" and typed: "spec_valid (pm_Spec m)"
    and x: "monitor_key x = req" "pm_Spec x = pm_Spec m"
      "om_ResourceVersion (pm_Meta x) = om_ResourceVersion (pm_Meta m)"
  obtains stored c' where "kc_UpdateMonitor x c = (Inr stored, c')"
    "pm_Spec stored = fill_spec (pm_Spec m)" "monitor_key stored = req"
    "om_UID (pm_Meta stored) = om_UID (pm_Meta x)" "om_Finalizers (pm_Meta stored) = om_Finalizers (pm_Meta x)"
    "om_Generation (pm_Meta stored) = om_Generation (pm_Meta m) + (if fill_spec (pm_Spec m) = pm_Spec m then 0 else 1)"
    "om_DeletionTimestamp (pm_Meta stored) = om_DeletionTimestamp (pm_Meta m)"
    "om_DeletionTimestamp (pm_Meta m) = None \<Longrightarrow> fst (kc_GetMonitor req c') = Inr stored"
    "kc_Secrets c' = kc_Secrets c" "kc_Libraries c' = kc_Libraries c" "kc_Children c' = kc_Children c"
proof -
  define y where "y = x\<lparr>pm_Spec := fill_spec (pm_Spec m), pm_Status := pm_Status m, pm_Meta := (pm_Meta x)
    \<lparr>om_Generation := om_Generation (pm_Meta m) + (if fill_spec (pm_Spec m) = pm_Spec m then 0 else 1),
     om_DeletionTimestamp := om_DeletionTimestamp (pm_Meta m)\<rparr>\<rparr>"
  have key: "monitor_key (x\<lparr>pm_Spec := spec\<rparr>) = req" for spec using x(1) by (simp add: monitor_key_def)
  have "kc_UpdateMonitor x c = kc_WriteMonitor (x\<lparr>pm_Spec := fill_spec (pm_Spec m)\<rparr>) c"
    by (simp only: kc_UpdateMonitor_def x(2) resubmit_valid [OF typed] option.case)
  also have "\<dots> = (Inr (fst (kc_put_monitor y c)), snd (kc_put_monitor y c))"
    unfolding kc_WriteMonitor_def key get by (simp add: x(3) y_def Let_def case_prod_beta)
  finally have run: "kc_UpdateMonitor x c = (Inr (fst (kc_put_monitor y c)), snd (kc_put_monitor y c))" .
  have y: "monitor_key y = req" "pm_Spec y = fill_spec (pm_Spec m)" using x(1) by (simp_all add: y_def monitor_key_def)
  have stored: "monitor_key (fst (kc_put_monitor y c)) = req"
    using y(1) by (simp add: kc_put_monitor_def Let_def set_meta_def monitor_key_def)
  show ?thesis
    by (rule that [OF run _ stored])
      (use y(1) in \<open>simp_all add: kc_put_monitor_def Let_def set_meta_def monitor_key_def y_def kc_GetMonitor_def
        kc_find_def\<close>)
qed

lemma monitor_key_fields: "monitor_key m' = monitor_key m \<longleftrightarrow> pm_Name m' = pm_Name m \<and> pm_Namespace m' = pm_Namespace m"
  by (auto simp: monitor_key_def)

text \<open>
  The update that stores the finalizer also fills in the defaults of fields the user left out: Go
  sends the nested image struct even when it is empty. For such a monitor the stored specification
  changes and the generation grows by one, although the controller changed its metadata only; what it
  builds stays the same.
\<close>

theorem finalizer_update_bumps_generation:
  assumes "fst (kc_GetMonitor req c) = Inr m" "spec_valid (pm_Spec m)"
    and "im_Repository (sp_Image (pm_Spec m)) = []"
  shows "\<exists>stored c'. kc_UpdateMonitor (set_meta m (cl_AddFinalizer kube_lib (pm_Meta m) finalizerName)) c = (Inr stored, c')
     \<and> om_Generation (pm_Meta stored) = om_Generation (pm_Meta m) + 1 \<and> pm_Spec stored \<noteq> pm_Spec m
     \<and> finalizerName \<in> set (om_Finalizers (pm_Meta stored))
     \<and> desired_children b y stored libs = desired_children b y m libs"
proof -
  let ?m = "set_meta m (cl_AddFinalizer kube_lib (pm_Meta m) finalizerName)"
  have req: "req = monitor_key m" using GetMonitor_in(2) [OF assms(1)] by simp
  have held: "monitor_key ?m = req" "pm_Spec ?m = pm_Spec m"
    "om_ResourceVersion (pm_Meta ?m) = om_ResourceVersion (pm_Meta m)" "finalizerName \<in> set (om_Finalizers (pm_Meta ?m))"
    by (simp_all add: kube_lib_def set_meta_def req monitor_key_def)
  have "fill_image (sp_Image (pm_Spec m)) \<noteq> sp_Image (pm_Spec m)"
    using assms(3) by (cases "sp_Image (pm_Spec m)") (simp add: fill_image_def fill_string_def)
  then have changed: "fill_spec (pm_Spec m) \<noteq> pm_Spec m" by (metis fill_spec_simps(4))
  obtain stored c' where run: "kc_UpdateMonitor ?m c = (Inr stored, c')"
    and stored: "pm_Spec stored = fill_spec (pm_Spec m)" "monitor_key stored = req"
      "om_Finalizers (pm_Meta stored) = om_Finalizers (pm_Meta ?m)"
      "om_Generation (pm_Meta stored) = om_Generation (pm_Meta m) + (if fill_spec (pm_Spec m) = pm_Spec m then 0 else 1)"
    by (rule UpdateMonitor_stores [OF assms(1,2) held(1-3)])
  have "same_monitor (filled m) stored" using stored by (simp add: same_monitor_def req monitor_key_fields)
  from desired_children_same [OF this] have "desired_children b y stored libs = desired_children b y m libs"
    by (simp add: filled_children)
  with run stored changed held(4) show ?thesis by auto
qed

definition orders_unheld :: PgpilotMonitor where
  "orders_unheld = set_meta orders ((pm_Meta orders)\<lparr>om_Finalizers := []\<rparr>)"

theorem finalizer_update_bumps_generation_witness:
  "\<exists>stored c'. kc_UpdateMonitor orders (orders_cluster\<lparr>kc_Monitors := [orders_unheld]\<rparr>) = (Inr stored, c')
     \<and> om_Generation (pm_Meta orders_unheld) = 3 \<and> om_Generation (pm_Meta stored) = 4"
proof -
  have get: "fst (kc_GetMonitor orders_key (orders_cluster\<lparr>kc_Monitors := [orders_unheld]\<rparr>)) = Inr orders_unheld"
    by (simp add: kc_GetMonitor_def kc_find_def orders_unheld_def set_meta_def monitor_key_def orders_key_def emptyMeta_def)
  have meta: "pm_Spec orders_unheld = pm_Spec orders" "om_Generation (pm_Meta orders_unheld) = 3"
    "set_meta orders_unheld (cl_AddFinalizer kube_lib (pm_Meta orders_unheld) finalizerName) = orders"
    by (simp_all add: orders_unheld_def set_meta_def kube_lib_def emptyMeta_def orders_def)
  have "spec_valid (pm_Spec orders_unheld)" unfolding meta(1) by (rule admit_spec_valid [OF orders_admitted])
  moreover have "im_Repository (sp_Image (pm_Spec orders_unheld)) = []" by (simp add: meta(1) orders_spec_def)
  ultimately show ?thesis
    using finalizer_update_bumps_generation [OF get, of True canon_yaml "[]"] unfolding meta by auto
qed

section \<open>The first reconcile of a new monitor\<close>

text \<open>A monitor as a user has just created it: typed, not held yet, with what it refers to in place.\<close>

definition arriving :: "NamespacedName \<Rightarrow> PgpilotMonitor \<Rightarrow> PgpilotMetricLibrary list \<Rightarrow> cluster \<Rightarrow> bool" where
  "arriving req m libs c \<longleftrightarrow>
     fst (kc_GetMonitor req c) = Inr m \<and> om_DeletionTimestamp (pm_Meta m) = None
     \<and> finalizerName \<notin> set (om_Finalizers (pm_Meta m)) \<and> spec_valid (pm_Spec m)
     \<and> credentials_available m c \<and> libraries_available m c libs"

text \<open>The update that holds it leaves a monitor that can be reconciled.\<close>

lemma hold_arriving:
  assumes "arriving req m libs (world s)"
  obtains stored s1 where "ensure_finalizer (cluster_reconciler b) m s = (Inr stored, s1)"
    "reconcilable req stored libs (world s1)" "same_monitor (filled m) stored" "om_UID (pm_Meta stored) = om_UID (pm_Meta m)"
    "kc_Children (world s1) = kc_Children (world s)"
proof -
  have get: "fst (kc_GetMonitor req (world s)) = Inr m" and live: "om_DeletionTimestamp (pm_Meta m) = None"
    and new: "finalizerName \<notin> set (om_Finalizers (pm_Meta m))" and typed: "spec_valid (pm_Spec m)"
    and creds: "credentials_available m (world s)" and libs: "libraries_available m (world s) libs"
    using assms by (simp_all add: arriving_def)
  let ?x = "set_meta m ((pm_Meta m)\<lparr>om_Finalizers := om_Finalizers (pm_Meta m) @ [finalizerName]\<rparr>)"
  have req: "req = monitor_key m" using kc_GetMonitor_key [OF get] by simp
  have x: "monitor_key ?x = req" "pm_Spec ?x = pm_Spec m"
    "om_ResourceVersion (pm_Meta ?x) = om_ResourceVersion (pm_Meta m)"
    "om_UID (pm_Meta ?x) = om_UID (pm_Meta m)" "finalizerName \<in> set (om_Finalizers (pm_Meta ?x))"
    by (simp_all add: set_meta_def req monitor_key_def)
  obtain stored c1 where upd: "kc_UpdateMonitor ?x (world s) = (Inr stored, c1)"
    and stored: "pm_Spec stored = fill_spec (pm_Spec m)" "monitor_key stored = req"
      "om_UID (pm_Meta stored) = om_UID (pm_Meta ?x)" "om_Finalizers (pm_Meta stored) = om_Finalizers (pm_Meta ?x)"
      "om_DeletionTimestamp (pm_Meta stored) = om_DeletionTimestamp (pm_Meta m)"
      "fst (kc_GetMonitor req c1) = Inr stored"
    and world: "kc_Secrets c1 = kc_Secrets (world s)" "kc_Libraries c1 = kc_Libraries (world s)"
      "kc_Children c1 = kc_Children (world s)"
    using live by (rule_tac UpdateMonitor_stores [OF get typed x(1-3)]) blast
  let ?s1 = "(emit (EffUpdate ?x) s)\<lparr>world := c1\<rparr>"
  have run: "ensure_finalizer (cluster_reconciler b) m s = (Inr stored, ?s1)"
    using new upd
    by (simp add: ensure_finalizer_def update_monitor_def cluster_reconciler_def kube_lib_def cluster_client_def
        on_world_def)
  have same: "same_monitor (filled m) stored" using stored by (simp add: same_monitor_def req monitor_key_fields)
  note fields = same_monitor_fields [OF same]
  have "credentials_available stored c1"
    using creds by (cases "db_CredentialsSecret (pm_Database m)")
      (auto simp: credentials_available_def fields world fill_credentials_def)
  moreover have "libraries_available stored c1 libs"
    using libs by (simp add: libraries_available_def fields world kc_GetLibrary_def)
  ultimately have "reconcilable req stored libs c1" using stored live x(5) by (simp add: reconcilable_def)
  then show ?thesis using that [OF run _ same] stored(3) x(4) world(3) by simp
qed

text \<open>Reading an object does not change the server, so a held monitor is reconciled as read.\<close>

lemma reconcile_held:
  assumes "reconcilable req m libs (world s)"
  shows "Reconcile (cluster_reconciler b) req s = reconcile_spec (cluster_reconciler b) m s"
proof -
  obtain s0 where "journal s0 = journal s" "world s0 = world s"
    and run: "Reconcile (cluster_reconciler b) req s = reconcile_spec (cluster_reconciler b) m s0"
    using Reconcile_live [OF reconcilable_live [OF assms, of b]] by (auto simp: cluster_simps kc_GetMonitor_def)
  then have "s0 = s" by (cases s0; cases s) simp
  with run show ?thesis by simp
qed

text \<open>So the first reconcile of a monitor is that of the monitor it has just held.\<close>

lemma reconcile_arriving:
  assumes "arriving req m libs (world s)"
  obtains held s1 where "Reconcile (cluster_reconciler b) req s = Reconcile (cluster_reconciler b) req s1"
    "reconcilable req held libs (world s1)" "same_monitor (filled m) held" "om_UID (pm_Meta held) = om_UID (pm_Meta m)"
proof -
  obtain held s1 where hold: "ensure_finalizer (cluster_reconciler b) m s = (Inr held, s1)"
    and rec: "reconcilable req held libs (world s1)" and same: "same_monitor (filled m) held"
    and uid: "om_UID (pm_Meta held) = om_UID (pm_Meta m)"
    using assms by (rule hold_arriving)
  have "fst (kc_GetMonitor req (world s)) = Inr m" "om_DeletionTimestamp (pm_Meta m) = None"
    using assms by (simp_all add: arriving_def)
  then have "Reconcile (cluster_reconciler b) req s = reconcile_spec (cluster_reconciler b) held s1"
    using hold by (simp add: Reconcile_def cluster_simps on_world_def kc_GetMonitor_def timestamp_IsZero_def)
  then show ?thesis using that [OF _ rec same uid] by (simp add: reconcile_held [OF rec])
qed

text \<open>
  C4: From creation to running: when a user has created a valid monitor and its Secret, its libraries
  and a renderable configuration are there, a single reconcile stores the finalizer (with the defaults
  of the CRD filled in), completes, and leaves in the cluster every child that the specification as
  submitted determines, owned by the monitor, with the status of that configuration.
\<close>

theorem first_reconcile_delivers:
  assumes "arriving req m libs (world s)"
    and "BuildConfigMap canon_yaml m (merged_of m libs) = Inr (cm, h)"
  shows "\<exists>result s' cs stored.
     Reconcile (cluster_reconciler b) req s = (Done result None, s')
     \<and> desired_children b canon_yaml m libs = Some cs \<and> (\<forall>c \<in> set cs. delivered m s' c)
     \<and> fst (kc_GetMonitor req (world s')) = Inr stored
     \<and> finalizerName \<in> set (om_Finalizers (pm_Meta stored)) \<and> pm_Spec stored = fill_spec (pm_Spec m)
     \<and> st_ConfigHash (pm_Status stored) = h"
proof -
  obtain held s1 where first: "Reconcile (cluster_reconciler b) req s = Reconcile (cluster_reconciler b) req s1"
    and rec: "reconcilable req held libs (world s1)" and same: "same_monitor (filled m) held"
    and uid: "om_UID (pm_Meta held) = om_UID (pm_Meta m)"
    using assms(1) by (rule reconcile_arriving)
  note fields = same_monitor_fields [OF same]
  have merged: "merged_of held libs = merged_of m libs" by (simp add: fields)
  have "BuildConfigMap canon_yaml held (merged_of held libs) = Inr (cm, h)"
    unfolding merged BuildConfigMap_same [OF same] filled_configmap by (rule assms(2))
  then obtain ready s' stored cs where
    run: "Reconcile (cluster_reconciler b) req s1 = (Done (if ready then emptyResult else requeue_seconds 15) None, s')"
    and cs: "desired_children b canon_yaml held libs = Some cs" and all: "\<forall>c \<in> set cs. delivered held s' c"
    and get: "fst (kc_GetMonitor req (world s')) = Inr stored" and final: "status_final held h ready (pm_Status stored)"
    and kept: "rewritten held stored"
    by (rule cluster_reconcile [OF rec, of cm h b])
  have "desired_children b canon_yaml m libs = Some cs"
    using cs by (simp add: desired_children_same [OF same] filled_children)
  moreover have "delivered m = delivered held"
    by (simp add: delivered_def [abs_def] child_request_def owned_by_def uid fields)
  moreover have "finalizerName \<in> set (om_Finalizers (pm_Meta stored))" "pm_Spec stored = fill_spec (pm_Spec m)"
    using rec by (simp_all add: rewritten_fields [OF kept] reconcilable_def fields)
  ultimately show ?thesis unfolding first using run all get final by (auto simp: status_final_def)
qed

theorem first_reconcile_delivers_witness:
  "\<exists>result s' cs. Reconcile (cluster_reconciler True) orders_key
       (orders_state\<lparr>world := orders_cluster\<lparr>kc_Monitors := [orders_unheld]\<rparr>\<rparr>) = (Done result None, s')
     \<and> map child_kind cs = [KConfigMap, KDeployment, KService, KServiceMonitor]
     \<and> (\<forall>c \<in> set cs. delivered orders_unheld s' c)"
proof -
  let ?s = "orders_state\<lparr>world := orders_cluster\<lparr>kc_Monitors := [orders_unheld]\<rparr>\<rparr>"
  have same: "same_monitor orders orders_unheld" by (simp add: same_monitor_def orders_unheld_def set_meta_def)
  obtain cm h where cm: "BuildConfigMap canon_yaml orders (merged_of orders [orders_lib]) = Inr (cm, h)"
    by (rule orders_config)
  have cm': "BuildConfigMap canon_yaml orders_unheld (merged_of orders_unheld [orders_lib]) = Inr (cm, h)"
    using cm by (simp only: BuildConfigMap_same [OF same] same_monitor_fields [OF same])
  have "credentials_available orders_unheld (world ?s)" "libraries_available orders_unheld (world ?s) [orders_lib]"
    using orders_reconcilable
    by (simp_all add: reconcilable_def credentials_available_def libraries_available_def kc_GetLibrary_def
        same_monitor_fields [OF same] orders_cluster_def)
  moreover have "spec_valid (pm_Spec orders_unheld)"
    using admit_spec_valid [OF orders_admitted] by (simp add: orders_unheld_def set_meta_def)
  ultimately have "arriving orders_key orders_unheld [orders_lib] (world ?s)"
    by (simp add: arriving_def kc_GetMonitor_def kc_find_def orders_unheld_def set_meta_def monitor_key_def
        orders_key_def emptyMeta_def)
  from first_reconcile_delivers [OF this cm', of True] obtain result s' cs where
    run: "Reconcile (cluster_reconciler True) orders_key ?s = (Done result None, s')"
    and cs: "desired_children True canon_yaml orders_unheld [orders_lib] = Some cs"
    and all: "\<forall>c \<in> set cs. delivered orders_unheld s' c" by blast
  have "map child_kind cs = [KConfigMap, KDeployment, KService, KServiceMonitor]"
    using desired_children_kinds [OF cs] by simp
  with run all show ?thesis by (intro exI conjI)
qed

end
