(* ===== verification/Lifecycle.thy ===== *)
theory Lifecycle
  imports AdmissionProperties
begin

text \<open>
  The life of a monitor, abstractly: a small state machine over five phases, with the actor of each
  transition. Every step of \<open>System\<close> refines it, for every monitor at once.
\<close>

section \<open>The abstract machine\<close>

datatype Phase = Absent | Unheld | Held | Leaving | Released

datatype Actor = User | Operator

inductive life_step :: "Actor \<Rightarrow> Phase \<Rightarrow> Phase \<Rightarrow> bool" where
  create: "life_step User Absent Unheld"
| create_held: "life_step User Absent Held"
| hold: "life_step Operator Unheld Held"
| forget: "life_step User Unheld Absent"
| forget_later: "life_step User Unheld Released"
| leave: "life_step User Held Leaving"
| release: "life_step Operator Leaving Absent"
| release_later: "life_step Operator Leaving Released"

inductive_cases life_step_HeldE: "life_step a Held p"
inductive_simps life_step_Leaving: "life_step a Leaving p"
  and life_step_Operator: "life_step Operator p q"

text \<open>An abstract step or none.\<close>

definition life_moves :: "Actor \<Rightarrow> Phase \<Rightarrow> Phase \<Rightarrow> bool" where
  "life_moves a p q \<longleftrightarrow> p = q \<or> life_step a p q"

lemma life_moves_refl [simp]: "life_moves a p p"
  by (simp add: life_moves_def)

section \<open>The phase of a stored monitor\<close>

definition phase_of :: "PgpilotMonitor \<Rightarrow> Phase" where
  "phase_of m =
     (let held = finalizerName \<in> set (om_Finalizers (pm_Meta m))
      in if om_DeletionTimestamp (pm_Meta m) = None then (if held then Held else Unheld)
         else if held then Leaving
         else if om_Finalizers (pm_Meta m) = [] then Absent
         else Released)"

definition phase :: "NamespacedName \<Rightarrow> cluster \<Rightarrow> Phase" where
  "phase k c = (case fst (kc_GetMonitor k c) of Inl _ \<Rightarrow> Absent | Inr m \<Rightarrow> phase_of m)"

lemma phase_monitors: "kc_Monitors c' = kc_Monitors c \<Longrightarrow> phase k c' = phase k c"
  by (simp add: phase_def kc_GetMonitor_def)

lemma phase_put: "phase k (snd (kc_put_monitor m c)) = (if k = monitor_key m then phase_of m else phase k c)"
proof -
  let ?m = "set_meta m ((pm_Meta m)\<lparr>om_ResourceVersion := utoa (Suc (kc_Revision c))\<rparr>)"
  have key: "monitor_key ?m = monitor_key m" and of: "phase_of ?m = phase_of m"
    by (simp_all add: set_meta_def monitor_key_def phase_of_def)
  have rest: "find (\<lambda>x. monitor_key x = k) (filter (\<lambda>x. monitor_key x \<noteq> monitor_key m) (kc_Monitors c)) =
      (if k = monitor_key m then None else find (\<lambda>x. monitor_key x = k) (kc_Monitors c))"
    by (auto simp: find_None_iff intro: find_filter_other)
  show ?thesis
  proof (cases "om_DeletionTimestamp (pm_Meta m) \<noteq> None \<and> om_Finalizers (pm_Meta m) = []")
    case True
    then have "phase_of m = Absent" by (simp add: phase_of_def)
    with True show ?thesis
      by (simp add: phase_def kc_GetMonitor_def kc_find_def kc_put_monitor_def Let_def rest split: option.split)
  next
    case False
    then show ?thesis
      by (auto simp: phase_def kc_GetMonitor_def kc_find_def kc_put_monitor_def Let_def rest key of split: option.split)
  qed
qed

section \<open>The operator's steps\<close>

text \<open>No request after the finalizer is stored changes a phase.\<close>

definition same_phases :: "cluster \<Rightarrow> cluster \<Rightarrow> bool" where
  "same_phases c c' \<longleftrightarrow> (\<forall>k. phase k c' = phase k c)"

lemma same_phases_status: "same_phases c (snd (kc_UpdateMonitorStatus m c))"
proof (cases "fst (kc_GetMonitor (monitor_key m) c)")
  case (Inr cur)
  have "monitor_key (cur\<lparr>pm_Status := st\<rparr>) = monitor_key m" "phase_of (cur\<lparr>pm_Status := st\<rparr>) = phase_of cur" for st
    using GetMonitor_in(2) [OF Inr] by (simp_all add: monitor_key_def phase_of_def)
  note same = this
  have here: "phase (monitor_key m) c = phase_of cur" by (simp add: phase_def Inr)
  have "snd (kc_UpdateMonitorStatus m c) = c \<or>
      snd (kc_UpdateMonitorStatus m c) = snd (kc_put_monitor (cur\<lparr>pm_Status := pm_Status m\<rparr>) c)"
    unfolding kc_UpdateMonitorStatus_def Inr sum.case by simp
  then show ?thesis by (auto simp only: same_phases_def phase_put same here split: if_splits)
qed (simp add: kc_UpdateMonitorStatus_def same_phases_def)

lemma same_phases_monitors: "kc_Monitors c' = kc_Monitors c \<Longrightarrow> same_phases c c'"
  by (auto simp: same_phases_def intro: phase_monitors)

lemma same_phases_frame [simp]: "same_phases c c" "same_phases c (c\<lparr>kc_Clock := t\<rparr>)" "same_phases c (c\<lparr>kc_Children := xs\<rparr>)"
  by (simp_all add: same_phases_monitors)

interpretation holding: spec_requests "cluster_reconciler b" same_phases for b
proof unfold_locales
  show "same_phases w w''" if "same_phases w w'" "same_phases w' w''" for w w' w''
    using that by (simp add: same_phases_def)
  show "\<exists>n. api_RetryOnConflict (r_Client (cluster_reconciler b)) DefaultRetry f s = attempts n f s" for f s
    by (rule retry_contract.retry_attempts [OF cluster.retry_ok])
qed (simp_all add: kc_fields kc_reads kc_Now_def kc_Patch_def same_phases_status same_phases_frame)

interpretation library_holding: library_requests cluster_library_reconciler same_phases
proof unfold_locales
  show "same_phases w w''" if "same_phases w w'" "same_phases w' w''" for w w' w''
    using that by (simp add: same_phases_def)
qed (auto simp: cluster_library_reconciler_def cluster_client_def kc_reads kc_Now_def kc_UpdateLibraryStatus_def
      Let_def intro!: same_phases_monitors split: sum.split)

text \<open>A write of a monitor gives its key the phase that is written, up to the deletion mark of the server.\<close>

lemma phase_write:
  assumes "fst (kc_GetMonitor (monitor_key m) c) = Inr cur"
    "om_DeletionTimestamp (pm_Meta m) = om_DeletionTimestamp (pm_Meta cur)"
  shows "snd (kc_WriteMonitor m c) = c
    \<or> (\<forall>k. phase k (snd (kc_WriteMonitor m c)) = (if k = monitor_key m then phase_of m else phase k c))"
proof -
  have "monitor_key (m\<lparr>pm_Status := st, pm_Meta := (pm_Meta m)\<lparr>om_Generation := g, om_DeletionTimestamp := d\<rparr>\<rparr>)
      = monitor_key m"
    "phase_of (m\<lparr>pm_Status := st, pm_Meta := (pm_Meta m)\<lparr>om_Generation := g,
       om_DeletionTimestamp := om_DeletionTimestamp (pm_Meta m)\<rparr>\<rparr>) = phase_of m" for st g d
    by (simp_all add: monitor_key_def phase_of_def)
  note same = this
  have "snd (kc_WriteMonitor m c) = c \<or> (\<exists>g. snd (kc_WriteMonitor m c) = snd (kc_put_monitor
      (m\<lparr>pm_Status := pm_Status cur, pm_Meta := (pm_Meta m)\<lparr>om_Generation := g,
         om_DeletionTimestamp := om_DeletionTimestamp (pm_Meta m)\<rparr>\<rparr>) c))"
    unfolding kc_WriteMonitor_def assms(1) sum.case assms(2) by (auto simp: Let_def case_prod_beta)
  then show ?thesis by (auto simp only: phase_put same)
qed

lemma phase_update:
  assumes "fst (kc_GetMonitor k c) = Inr cur" "monitor_key m = k"
    "om_DeletionTimestamp (pm_Meta m) = om_DeletionTimestamp (pm_Meta cur)"
  shows "snd (kc_UpdateMonitor m c) = c
    \<or> (\<forall>k'. phase k' (snd (kc_UpdateMonitor m c)) = (if k' = k then phase_of m else phase k' c))"
proof (cases "resubmit (pm_Spec m)")
  case (Some spec)
  have "monitor_key (m\<lparr>pm_Spec := spec\<rparr>) = k" "phase_of (m\<lparr>pm_Spec := spec\<rparr>) = phase_of m"
    using assms(2) by (simp_all add: monitor_key_def phase_of_def)
  moreover have "kc_UpdateMonitor m c = kc_WriteMonitor (m\<lparr>pm_Spec := spec\<rparr>) c" using Some by (simp add: kc_UpdateMonitor_def)
  ultimately show ?thesis using phase_write [of "m\<lparr>pm_Spec := spec\<rparr>" c cur] assms by auto
qed (simp add: kc_UpdateMonitor_def)

section \<open>Deletion marks\<close>

text \<open>The operator takes a zero time for no deletion mark; the server never writes one.\<close>

definition clocked :: "cluster \<Rightarrow> bool" where
  "clocked c \<longleftrightarrow> 0 < kc_Clock c \<and> list_all (\<lambda>m. om_DeletionTimestamp (pm_Meta m) \<noteq> Some 0) (kc_Monitors c)"

definition keeps_clocked :: "cluster \<Rightarrow> cluster \<Rightarrow> bool" where
  "keeps_clocked c c' \<longleftrightarrow> (clocked c \<longrightarrow> clocked c')"

lemma clocked_put:
  "clocked c \<Longrightarrow> om_DeletionTimestamp (pm_Meta m) \<noteq> Some 0 \<Longrightarrow> clocked (snd (kc_put_monitor m c))"
  by (auto simp: clocked_def kc_put_monitor_def Let_def set_meta_def list_all_iff)

lemma clocked_stored:
  "clocked c \<Longrightarrow> fst (kc_GetMonitor k c) = Inr m \<Longrightarrow> om_DeletionTimestamp (pm_Meta m) \<noteq> Some 0"
  using GetMonitor_in(1) by (fastforce simp: clocked_def list_all_iff)

lemma clocked_write: "keeps_clocked c (snd (kc_WriteMonitor m c))"
proof (cases "fst (kc_GetMonitor (monitor_key m) c)")
  case (Inr cur)
  then show ?thesis
    using clocked_stored [of c "monitor_key m" cur]
    by (auto simp: keeps_clocked_def kc_WriteMonitor_def Let_def case_prod_beta intro!: clocked_put)
qed (simp add: kc_WriteMonitor_def keeps_clocked_def)

lemma clocked_update: "keeps_clocked c (snd (kc_UpdateMonitor m c))"
  by (auto simp: kc_UpdateMonitor_def clocked_write keeps_clocked_def [of c c] split: option.split)

lemma clocked_status: "keeps_clocked c (snd (kc_UpdateMonitorStatus m c))"
proof (cases "fst (kc_GetMonitor (monitor_key m) c)")
  case (Inr cur)
  then show ?thesis
    using clocked_stored [of c "monitor_key m" cur]
    by (auto simp: keeps_clocked_def kc_UpdateMonitorStatus_def intro!: clocked_put)
qed (simp add: kc_UpdateMonitorStatus_def keeps_clocked_def)

lemma clocked_frame [simp]:
  "keeps_clocked c c" "keeps_clocked c (c\<lparr>kc_Clock := kc_Clock c + 1\<rparr>)" "keeps_clocked c (c\<lparr>kc_Children := xs\<rparr>)"
  by (simp_all add: keeps_clocked_def clocked_def)

interpretation clocking: request_closed "cluster_reconciler b" keeps_clocked for b
proof unfold_locales
  show "keeps_clocked w w''" if "keeps_clocked w w'" "keeps_clocked w' w''" for w w' w''
    using that by (simp add: keeps_clocked_def)
  show "\<exists>n. api_RetryOnConflict (r_Client (cluster_reconciler b)) DefaultRetry f s = attempts n f s" for f s
    by (rule retry_contract.retry_attempts [OF cluster.retry_ok])
qed (simp_all add: kc_fields kc_reads kc_Now_def kc_Patch_def clocked_status clocked_update)

interpretation library_clocking: library_requests cluster_library_reconciler keeps_clocked
proof unfold_locales
  show "keeps_clocked w w''" if "keeps_clocked w w'" "keeps_clocked w' w''" for w w' w''
    using that by (simp add: keeps_clocked_def)
qed (auto simp: cluster_library_reconciler_def cluster_client_def kc_reads kc_Now_def kc_UpdateLibraryStatus_def
      Let_def keeps_clocked_def clocked_def split: sum.split)

lemma system_step_clocked:
  assumes "system_step b c c'" and c: "clocked c"
  shows "clocked c'"
  using assms(1)
proof (cases rule: system_step.cases)
  case (reconcile req)
  then show ?thesis using c clocking.Reconcile_R [of "start c" b req] by (simp add: keeps_clocked_def)
next
  case (reconcile_library req)
  then show ?thesis using c library_clocking.LibraryReconcile_W [of "start c" req] by (simp add: keeps_clocked_def)
next
  case (edit m submitted spec)
  then show ?thesis using c clocked_write by (simp add: keeps_clocked_def)
next
  case (delete m)
  have "kc_Clock c \<noteq> 0" using c by (simp add: clocked_def)
  then show ?thesis unfolding delete(1) by (intro clocked_put [OF c]) (simp add: set_meta_def)
next
  case (create m submitted)
  then show ?thesis using c by (simp add: clocked_put)
qed (use c in \<open>simp_all add: clocked_def\<close>)

lemma reachable_clocked: "reachable b c \<Longrightarrow> clocked c"
proof (induction rule: reachable.induct)
  case reach_empty
  show ?case by (simp add: clocked_def empty_cluster_def)
qed (rule system_step_clocked)

section \<open>A reconcile moves the phase of its monitor\<close>

definition only_moves :: "NamespacedName \<Rightarrow> Actor \<Rightarrow> cluster \<Rightarrow> cluster \<Rightarrow> bool" where
  "only_moves req a c c' \<longleftrightarrow>
     life_moves a (phase req c) (phase req c') \<and> (\<forall>k. k \<noteq> req \<longrightarrow> phase k c' = phase k c)"

lemma only_moves_refl [simp]: "only_moves req a c c"
  by (simp add: only_moves_def)

lemma only_moves_rest: "only_moves req a c c' \<Longrightarrow> same_phases c' c'' \<Longrightarrow> only_moves req a c c''"
  by (simp add: only_moves_def same_phases_def)

text \<open>What a reconcile writes back is the monitor it has read, with other finalizers.\<close>

lemma finalizers_written:
  assumes "fst (kc_GetMonitor req c) = Inr m"
    and "life_step a (phase_of m) (phase_of (set_meta m ((pm_Meta m)\<lparr>om_Finalizers := fs\<rparr>)))"
  shows "only_moves req a c (snd (kc_UpdateMonitor (set_meta m ((pm_Meta m)\<lparr>om_Finalizers := fs\<rparr>)) c))"
proof -
  have "phase req c = phase_of m" by (simp add: phase_def assms(1))
  then show ?thesis
    using phase_update [OF assms(1), of "set_meta m ((pm_Meta m)\<lparr>om_Finalizers := fs\<rparr>)"] assms GetMonitor_in(2) [OF assms(1)]
    by (auto simp: only_moves_def life_moves_def set_meta_def monitor_key_def)
qed

lemma acquire_phases:
  assumes "fst (kc_GetMonitor req c) = Inr m" "om_DeletionTimestamp (pm_Meta m) = None"
  shows "only_moves req Operator c (world (snd (ensure_finalizer (cluster_reconciler b) m (start c))))"
proof (cases "finalizerName \<in> set (om_Finalizers (pm_Meta m))")
  case True
  then show ?thesis by (simp add: ensure_finalizer_def kc_fields kube_lib_def)
next
  case False
  let ?meta = "(pm_Meta m)\<lparr>om_Finalizers := om_Finalizers (pm_Meta m) @ [finalizerName]\<rparr>"
  have "world (snd (ensure_finalizer (cluster_reconciler b) m (start c))) = snd (kc_UpdateMonitor (set_meta m ?meta) c)"
    using False by (simp add: ensure_finalizer_def update_monitor_def on_world_def kc_fields kube_lib_def emit_def
        case_prod_beta start_def)
  moreover have "phase_of m = Unheld" "phase_of (set_meta m ?meta) = Held"
    using False assms(2) by (simp_all add: phase_of_def set_meta_def)
  ultimately show ?thesis
    using finalizers_written [OF assms(1), of Operator "om_Finalizers (pm_Meta m) @ [finalizerName]"]
    by (simp add: life_step_Operator)
qed

lemma release_phases:
  assumes "fst (kc_GetMonitor req c) = Inr m" "om_DeletionTimestamp (pm_Meta m) \<noteq> None"
  shows "only_moves req Operator c (world (snd (reconcile_deletion (cluster_reconciler b) m (start c))))"
proof (cases "finalizerName \<in> set (om_Finalizers (pm_Meta m))")
  case False
  then show ?thesis by (simp add: reconcile_deletion_def kc_fields kube_lib_def)
next
  case True
  let ?fs = "filter (\<lambda>f. f \<noteq> finalizerName) (om_Finalizers (pm_Meta m))"
  have "world (snd (reconcile_deletion (cluster_reconciler b) m (start c)))
      = snd (kc_UpdateMonitor (set_meta m ((pm_Meta m)\<lparr>om_Finalizers := ?fs\<rparr>)) c)"
    using True by (simp add: reconcile_deletion_def Let_def update_monitor_def on_world_def kc_fields kube_lib_def
        emit_def case_prod_beta start_def split: sum.split)
  moreover have "phase_of m = Leaving" "phase_of (set_meta m ((pm_Meta m)\<lparr>om_Finalizers := ?fs\<rparr>)) \<in> {Absent, Released}"
    using True assms(2) by (auto simp: phase_of_def set_meta_def)
  ultimately show ?thesis
    using finalizers_written [OF assms(1), of Operator ?fs] by (auto simp: life_step_Operator)
qed

lemma reconcile_phases:
  assumes c: "clocked c"
  shows "only_moves req Operator c (world (snd (Reconcile (cluster_reconciler b) req (start c))))"
proof (cases "fst (kc_GetMonitor req c)")
  case (Inl err)
  then show ?thesis by (simp add: Reconcile_def on_world_def kc_fields kc_GetMonitor_def start_def)
next
  case (Inr m)
  have get: "on_world (api_GetMonitor (r_Client (cluster_reconciler b)) req) (start c) = (Inr m, start c)"
    using Inr by (simp add: on_world_def kc_fields start_def kc_GetMonitor_def)
  show ?thesis
  proof (cases "timestamp_IsZero (om_DeletionTimestamp (pm_Meta m))")
    case True
    then have live: "om_DeletionTimestamp (pm_Meta m) = None"
      using clocked_stored [OF c Inr] by (auto simp: timestamp_IsZero_def split: option.splits)
    obtain x s1 where fin: "ensure_finalizer (cluster_reconciler b) m (start c) = (x, s1)" by (meson surj_pair)
    have "only_moves req Operator c (world s1)" using acquire_phases [OF Inr live, of b] fin by simp
    moreover have "only_moves req Operator c (world (snd (reconcile_spec (cluster_reconciler b) m' s1)))" for m'
      using calculation holding.reconcile_spec_R by (rule only_moves_rest)
    ultimately show ?thesis using True fin by (auto simp: Reconcile_def get split: sum.split)
  next
    case False
    then have "om_DeletionTimestamp (pm_Meta m) \<noteq> None" by (auto simp: timestamp_IsZero_def split: option.splits)
    from release_phases [OF Inr this] False show ?thesis by (simp add: Reconcile_def get)
  qed
qed

section \<open>The other steps\<close>

lemma stored_get: "system_ok c \<Longrightarrow> m \<in> set (kc_Monitors c) \<Longrightarrow> fst (kc_GetMonitor (monitor_key m) c) = Inr m"
  using find_unique [of monitor_key "kc_Monitors c" m "monitor_key m"]
  by (simp add: system_ok_def kc_wf_def kc_GetMonitor_iff eq_commute [of "monitor_key m"])

lemma only_moves_same: "same_phases c c' \<Longrightarrow> only_moves k a c c'"
  by (simp add: only_moves_def same_phases_def)

lemma only_moves_put:
  "life_moves a (phase (monitor_key m) c) (phase_of m) \<Longrightarrow> only_moves (monitor_key m) a c (snd (kc_put_monitor m c))"
  by (simp add: only_moves_def phase_put)

lemma system_step_moves:
  assumes c: "clocked c" "system_ok c" and "system_step b c c'"
  obtains (operator) req where "c' = world (snd (Reconcile (cluster_reconciler b) req (start c)))" "only_moves req Operator c c'"
  | (user) k where "only_moves k User c c'"
  using assms(3)
proof (cases rule: system_step.cases)
  case (reconcile req)
  then show ?thesis using reconcile_phases [OF c(1)] by (intro operator) simp_all
next
  case (reconcile_library req)
  then have "same_phases c c'" using library_holding.LibraryReconcile_W [of "start c" req] by simp
  then show ?thesis by (intro user only_moves_same)
next
  case (create m submitted)
  have "phase (monitor_key m) c = Absent"
  proof (cases "fst (kc_GetMonitor (monitor_key m) c)")
    case (Inr x)
    then have "monitor_key m \<in> monitor_key ` set (kc_Monitors c)" using GetMonitor_in [OF Inr] by (metis imageI)
    with create(2) show ?thesis by simp
  qed (simp add: phase_def)
  moreover have "phase_of m \<in> {Unheld, Held}" using create(3) by (simp add: phase_of_def)
  ultimately have "life_moves User (phase (monitor_key m) c) (phase_of m)"
    by (auto simp: life_moves_def intro: life_step.intros)
  then have "only_moves (monitor_key m) User c c'" unfolding create(1) by (rule only_moves_put)
  then show ?thesis by (rule user)
next
  case (edit m submitted spec)
  have get: "fst (kc_GetMonitor (monitor_key m) c) = Inr m"
    using edit(2) c(2) by (simp add: stored_get)
  have "monitor_key (m\<lparr>pm_Spec := spec\<rparr>) = monitor_key m" "phase_of (m\<lparr>pm_Spec := spec\<rparr>) = phase_of m"
    by (simp_all add: monitor_key_def phase_of_def)
  moreover have "phase (monitor_key m) c = phase_of m" by (simp add: phase_def get)
  ultimately have "same_phases c c'"
    using phase_write [of "m\<lparr>pm_Spec := spec\<rparr>" c m] get by (auto simp: edit(1) same_phases_def)
  then show ?thesis by (intro user only_moves_same)
next
  case (delete m)
  let ?m = "set_meta m ((pm_Meta m)\<lparr>om_DeletionTimestamp := Some (kc_Clock c)\<rparr>)"
  have "fst (kc_GetMonitor (monitor_key m) c) = Inr m" using delete(2) c(2) by (simp add: stored_get)
  moreover have key: "monitor_key ?m = monitor_key m" by (simp add: set_meta_def monitor_key_def)
  ultimately have "life_moves User (phase (monitor_key ?m) c) (phase_of ?m)"
    by (auto simp: phase_def phase_of_def set_meta_def life_moves_def intro: life_step.intros)
  then have "only_moves (monitor_key ?m) User c c'" unfolding delete(1) by (rule only_moves_put)
  then show ?thesis by (rule user)
qed (auto intro!: user [of "undefined"] only_moves_same same_phases_monitors)

section \<open>The life of every monitor\<close>

text \<open>
  C9: The system refines the life of a monitor: in a reachable state every step, of whoever, moves at
  most one monitor, along one transition of the abstract machine or none, and the transitions of the
  operator are made by a reconcile of that very monitor.
\<close>

theorem lifecycle_refined:
  assumes "reachable b c" and "system_step b c c'"
  shows "\<exists>k actor.
     (phase k c' = phase k c \<or> life_step actor (phase k c) (phase k c'))
     \<and> (\<forall>k'. k' \<noteq> k \<longrightarrow> phase k' c' = phase k' c)
     \<and> (actor = Operator \<longrightarrow> c' = world (snd (Reconcile (cluster_reconciler b) k (start c))))"
proof (rule system_step_moves [OF reachable_clocked [OF assms(1)] reachable_ok [OF assms(1)] assms(2)])
  fix req assume "only_moves req Operator c c'" "c' = world (snd (Reconcile (cluster_reconciler b) req (start c)))"
  then show ?thesis by (intro exI [of _ req] exI [of _ Operator]) (auto simp: only_moves_def life_moves_def)
next
  fix k assume "only_moves k User c c'"
  then show ?thesis by (intro exI [of _ k] exI [of _ User]) (auto simp: only_moves_def life_moves_def)
qed

section \<open>Deletion comes to an end\<close>

lemma update_gone:
  assumes get: "fst (kc_GetMonitor req c) = Inr m" and typed: "spec_valid (pm_Spec m)"
    and marked: "om_DeletionTimestamp (pm_Meta m) \<noteq> None"
  obtains stored c' where "kc_UpdateMonitor (set_meta m ((pm_Meta m)\<lparr>om_Finalizers := []\<rparr>)) c = (Inr stored, c')"
    "kc_Monitors c' = filter (\<lambda>x. monitor_key x \<noteq> req) (kc_Monitors c)" "kc_Children c' = kc_Children c"
proof -
  let ?x = "set_meta m ((pm_Meta m)\<lparr>om_Finalizers := []\<rparr>)"
  have req: "monitor_key m = req" using GetMonitor_in(2) [OF get] .
  have key: "monitor_key (?x\<lparr>pm_Spec := spec\<rparr>) = req" for spec using req by (simp add: set_meta_def monitor_key_def)
  obtain y where "kc_UpdateMonitor ?x c = (Inr (fst (kc_put_monitor y c)), snd (kc_put_monitor y c))"
    and "monitor_key y = req" "om_Finalizers (pm_Meta y) = []" "om_DeletionTimestamp (pm_Meta y) \<noteq> None"
  proof
    let ?y = "?x\<lparr>pm_Spec := fill_spec (pm_Spec m), pm_Status := pm_Status m, pm_Meta := (pm_Meta ?x)
      \<lparr>om_Generation := om_Generation (pm_Meta m) + (if fill_spec (pm_Spec m) = pm_Spec m then 0 else 1),
       om_DeletionTimestamp := om_DeletionTimestamp (pm_Meta m)\<rparr>\<rparr>"
    have "kc_UpdateMonitor ?x c = kc_WriteMonitor (?x\<lparr>pm_Spec := fill_spec (pm_Spec m)\<rparr>) c"
      using resubmit_valid [OF typed] by (simp add: kc_UpdateMonitor_def set_meta_def)
    then show "kc_UpdateMonitor ?x c = (Inr (fst (kc_put_monitor ?y c)), snd (kc_put_monitor ?y c))"
      unfolding kc_WriteMonitor_def key get by (simp add: Let_def case_prod_beta set_meta_def)
  qed (use req marked in \<open>simp_all add: set_meta_def monitor_key_def\<close>)
  then show ?thesis using that by (simp add: kc_put_monitor_def Let_def)
qed

lemma last_finalizer_released:
  assumes "reachable b c" and "m \<in> set (kc_Monitors c)"
    and "om_DeletionTimestamp (pm_Meta m) \<noteq> None" and "om_Finalizers (pm_Meta m) = [finalizerName]"
  obtains s' where "Reconcile (cluster_reconciler b) (monitor_key m) (start c) = (Done emptyResult None, s')"
    "kc_Monitors (world s') = filter (\<lambda>x. monitor_key x \<noteq> monitor_key m) (kc_Monitors c)"
    "kc_Children (world s') = kc_Children c"
proof -
  note ok = reachable_ok [OF assms(1)]
  have get: "fst (kc_GetMonitor (monitor_key m) c) = Inr m" by (rule stored_get [OF ok assms(2)])
  then have read: "on_world (api_GetMonitor (r_Client (cluster_reconciler b)) (monitor_key m)) (start c) = (Inr m, start c)"
    by (simp add: on_world_def kc_fields start_def kc_GetMonitor_def)
  have marked: "\<not> timestamp_IsZero (om_DeletionTimestamp (pm_Meta m))"
    using clocked_stored [OF reachable_clocked [OF assms(1)] get] assms(3) by (auto simp: timestamp_IsZero_def)
  let ?x = "set_meta m ((pm_Meta m)\<lparr>om_Finalizers := []\<rparr>)"
  obtain stored c' where upd: "kc_UpdateMonitor ?x c = (Inr stored, c')"
    and gone: "kc_Monitors c' = filter (\<lambda>x. monitor_key x \<noteq> monitor_key m) (kc_Monitors c)" "kc_Children c' = kc_Children c"
    by (rule update_gone [OF get stored_typed [OF ok assms(2)] assms(3)])
  let ?s = "(emit (EffUpdate ?x) (start c))\<lparr>world := c'\<rparr>"
  have "reconcile_deletion (cluster_reconciler b) m (start c) = (Done emptyResult None, ?s)"
    using upd assms(4)
    by (simp add: reconcile_deletion_def Let_def update_monitor_def on_world_def kc_fields kube_lib_def start_def)
  then have "Reconcile (cluster_reconciler b) (monitor_key m) (start c) = (Done emptyResult None, ?s)"
    using marked by (simp add: Reconcile_def read)
  then show ?thesis by (rule that) (simp_all add: gone)
qed

text \<open>
  C12: A requested deletion comes to an end: when the operator's finalizer is the last one, the next
  reconcile succeeds, the monitor is gone from the server, and what the garbage collector then removes,
  beyond what it could remove already, is exactly the children that the monitor owns.
\<close>

theorem deletion_cleans_up:
  assumes "reachable b c" and "m \<in> set (kc_Monitors c)"
    and "om_DeletionTimestamp (pm_Meta m) \<noteq> None" and "om_Finalizers (pm_Meta m) = [finalizerName]"
  shows "\<exists>s'. Reconcile (cluster_reconciler b) (monitor_key m) (start c) = (Done emptyResult None, s')
     \<and> kc_Monitors (world s') = filter (\<lambda>x. monitor_key x \<noteq> monitor_key m) (kc_Monitors c)
     \<and> kc_Children (world s') = kc_Children c
     \<and> (\<forall>x \<in> set (kc_Children c). owner_present (world s') x \<longleftrightarrow>
          owner_present c x \<and> \<not> (om_Namespace (child_meta x) = pm_Namespace m \<and> owned_by m (child_meta x)))"
proof -
  note ok = reachable_ok [OF assms(1)]
  obtain s' where run: "Reconcile (cluster_reconciler b) (monitor_key m) (start c) = (Done emptyResult None, s')"
    "kc_Monitors (world s') = filter (\<lambda>x. monitor_key x \<noteq> monitor_key m) (kc_Monitors c)"
    "kc_Children (world s') = kc_Children c"
    using assms by (rule last_finalizer_released)
  have "owner_present (world s') x \<longleftrightarrow>
      owner_present c x \<and> \<not> (om_Namespace (child_meta x) = pm_Namespace m \<and> owned_by m (child_meta x))"
    if "x \<in> set (kc_Children c)" for x
  proof -
    have "owned_child x" using ok that by (simp add: system_ok_def list_all_iff)
    then obtain ref where "om_OwnerReferences (child_meta x) = [ref]"
      unfolding owned_child_def by (auto split: list.splits)
    then have "monitor_key y = monitor_key m" if "owned_by y (child_meta x)" "owned_by m (child_meta x)"
      "pm_Namespace y = pm_Namespace m" for y
      using that by (simp add: owned_by_def monitor_key_def)
    moreover have "y = m" if "y \<in> set (kc_Monitors c)" "monitor_key y = monitor_key m" for y
      using ok that assms(2) by (auto simp: system_ok_def kc_wf_def distinct_map inj_on_def)
    ultimately have "monitor_key y = monitor_key m \<longleftrightarrow>
        om_Namespace (child_meta x) = pm_Namespace m \<and> owned_by m (child_meta x)"
      if "y \<in> set (kc_Monitors c)" "pm_Namespace y = om_Namespace (child_meta x)" "owned_by y (child_meta x)" for y
      using that by metis
    then show ?thesis unfolding owner_present_def list_ex_iff run(2) by auto
  qed
  with run show ?thesis by blast
qed

section \<open>A life\<close>

text \<open>The monitor of \<open>Scenario\<close> is created, reconciled, marked for deletion and reconciled again.\<close>

lemma child_meta_strip [simp]: "child_meta (strip_status x) = child_meta x"
  by (cases x rule: Child.exhaust) simp_all

lemma orders_leaving:
  obtains c m x where "reachable True c" "m \<in> set (kc_Monitors c)" "monitor_key m = orders_key"
    "om_DeletionTimestamp (pm_Meta m) \<noteq> None" "om_Finalizers (pm_Meta m) = [finalizerName]"
    "x \<in> set (kc_Children c)" "om_Namespace (child_meta x) = pm_Namespace m" "owned_by m (child_meta x)"
proof -
  obtain cm h where cm: "BuildConfigMap canon_yaml orders (merged_of orders [orders_lib]) = Inr (cm, h)"
    by (rule orders_config)
  have same: "same_monitor orders orders_stored"
    by (simp add: same_monitor_def orders_stored_def set_meta_def)
  have cm': "BuildConfigMap canon_yaml orders_stored (merged_of orders_stored [orders_lib]) = Inr (cm, h)"
    using cm by (simp only: BuildConfigMap_same [OF same] same_monitor_fields [OF same])
  have rec: "reconcilable orders_key orders_stored [orders_lib] (world (start orders_created))"
    using orders_created_reconcilable by simp
  obtain result s' stored cs where run: "Reconcile (cluster_reconciler True) orders_key (start orders_created) = (result, s')"
    and cs: "desired_children True canon_yaml orders_stored [orders_lib] = Some cs"
    and all: "\<forall>c \<in> set cs. delivered orders_stored s' c"
    and get: "fst (kc_GetMonitor orders_key (world s')) = Inr stored" and kept: "rewritten orders_stored stored"
    by (rule cluster_reconcile [OF rec cm', of True]) blast
  note fields = rewritten_fields [OF kept]
  have deployed: "orders_deployed = world s'" by (simp add: orders_deployed_def run)
  note m = GetMonitor_in [OF get [folded deployed]]
  have "cs \<noteq> []" using desired_children_kinds [OF cs] by auto
  then obtain c where c: "c \<in> set cs" using list.set_sel(1) by blast
  obtain sent where sent: "child_request orders_stored c sent" "kc_holds s' sent"
    using all c by (auto simp: delivered_def)
  then obtain x where x: "x \<in> set (kc_Children orders_deployed)" "strip_status x = strip_status sent"
    by (auto simp: kc_holds_def deployed)
  have "child_meta x = child_meta sent" using x(2) child_meta_strip by metis
  then have owned: "om_Namespace (child_meta x) = pm_Namespace stored" "owned_by stored (child_meta x)"
    using sent(1) desired_children_names(1) [OF cs c] by (simp_all add: child_request_def owned_by_def fields)
  let ?m = "set_meta stored ((pm_Meta stored)\<lparr>om_DeletionTimestamp := Some (kc_Clock orders_deployed)\<rparr>)"
  let ?c = "snd (kc_put_monitor ?m orders_deployed)" and ?m' = "fst (kc_put_monitor ?m orders_deployed)"
  have fin: "om_Finalizers (pm_Meta stored) = [finalizerName]" by (simp add: fields orders_stored_def set_meta_def emptyMeta_def)
  show ?thesis
  proof (rule that [of ?c ?m' x])
    show "reachable True ?c" by (rule reach_step [OF orders_deployed_reachable system_step.delete [OF m(1)]])
  qed (use m x(1) owned fin in \<open>simp_all add: kc_put_monitor_def Let_def set_meta_def monitor_key_def owned_by_def\<close>)
qed

lemma lifecycle_refined_witness:
  "\<exists>c'. system_step True orders_created c'
     \<and> phase orders_key orders_created = Held \<and> phase orders_key c' = Leaving
     \<and> (\<exists>k actor. life_step actor (phase k orders_created) (phase k c'))"
proof -
  let ?m = "set_meta orders_stored ((pm_Meta orders_stored)\<lparr>om_DeletionTimestamp := Some (kc_Clock orders_created)\<rparr>)"
  let ?c = "snd (kc_put_monitor ?m orders_created)"
  have get: "fst (kc_GetMonitor orders_key orders_created) = Inr orders_stored"
    and held: "om_DeletionTimestamp (pm_Meta orders_stored) = None" "finalizerName \<in> set (om_Finalizers (pm_Meta orders_stored))"
    using orders_created_reconcilable by (simp_all add: reconcilable_def)
  note m = GetMonitor_in [OF get]
  have step: "system_step True orders_created ?c" by (rule system_step.delete [OF m(1)])
  have before: "phase orders_key orders_created = Held" using held by (simp add: phase_def get phase_of_def)
  have "monitor_key ?m = orders_key" using m(2) by (simp add: set_meta_def monitor_key_def)
  then have after: "phase orders_key ?c = Leaving" using held(2) by (simp add: phase_put) (simp add: phase_of_def set_meta_def)
  obtain k actor where "phase k ?c = phase k orders_created \<or> life_step actor (phase k orders_created) (phase k ?c)"
    "\<forall>k'. k' \<noteq> k \<longrightarrow> phase k' ?c = phase k' orders_created"
    using lifecycle_refined [OF orders_created_reachable step] by blast
  then have "life_step actor (phase k orders_created) (phase k ?c)" using before after by (metis Phase.distinct(15))
  with step before after show ?thesis by blast
qed

lemma deletion_cleans_up_witness:
  "\<exists>c s' x. Reconcile (cluster_reconciler True) orders_key (start c) = (Done emptyResult None, s')
     \<and> orders_key \<notin> monitor_key ` set (kc_Monitors (world s'))
     \<and> x \<in> set (kc_Children (world s')) \<and> \<not> owner_present (world s') x"
proof -
  obtain c m x where m: "reachable True c" "m \<in> set (kc_Monitors c)" "monitor_key m = orders_key"
    "om_DeletionTimestamp (pm_Meta m) \<noteq> None" "om_Finalizers (pm_Meta m) = [finalizerName]"
    and x: "x \<in> set (kc_Children c)" "om_Namespace (child_meta x) = pm_Namespace m" "owned_by m (child_meta x)"
    by (rule orders_leaving)
  obtain s' where run: "Reconcile (cluster_reconciler True) (monitor_key m) (start c) = (Done emptyResult None, s')"
    and gone: "kc_Monitors (world s') = filter (\<lambda>x. monitor_key x \<noteq> monitor_key m) (kc_Monitors c)"
    and kids: "kc_Children (world s') = kc_Children c" and orphan: "\<not> owner_present (world s') x"
    using deletion_cleans_up [OF m(1,2,4,5)] x by blast
  from run have "Reconcile (cluster_reconciler True) orders_key (start c) = (Done emptyResult None, s')" by (simp add: m(3))
  moreover have "orders_key \<notin> monitor_key ` set (kc_Monitors (world s'))" by (auto simp: gone m(3))
  moreover have "x \<in> set (kc_Children (world s'))" by (simp add: kids x(1))
  ultimately show ?thesis using orphan by blast
qed

end
