(* ===== verification/Progress.thy ===== *)
theory Progress
  imports RequeueLoop Lifecycle
begin

text \<open>From every reachable state a monitor that can run can still be brought to run.\<close>

section \<open>Two reconciles and a report\<close>

text \<open>What the loop needs is there, whether the operator already holds the monitor or not.\<close>

definition runnable :: "PgpilotMonitor \<Rightarrow> PgpilotMetricLibrary list \<Rightarrow> cluster \<Rightarrow> bool" where
  "runnable m libs c \<longleftrightarrow> m \<in> set (kc_Monitors c) \<and> om_DeletionTimestamp (pm_Meta m) = None
     \<and> credentials_available m c \<and> libraries_available m c libs
     \<and> (\<exists>cm h. BuildConfigMap canon_yaml m (merged_of m libs) = Inr (cm, h))"

lemma runnable_progressing:
  assumes ok: "system_ok c" and run: "runnable m libs c"
  obtains s n where "Reconcile (cluster_reconciler b) (monitor_key m) (start c) = Reconcile (cluster_reconciler b) (monitor_key m) s"
    "progressing (monitor_key m) (\<lambda>i. if i = 0 then n else 1) 0 s"
proof -
  let ?req = "monitor_key m"
  have get: "fst (kc_GetMonitor ?req c) = Inr m" and live: "om_DeletionTimestamp (pm_Meta m) = None"
    using stored_get [OF ok] run by (simp_all add: runnable_def)
  obtain cm h where cm: "BuildConfigMap canon_yaml m (merged_of m libs) = Inr (cm, h)" using run by (auto simp: runnable_def)
  show ?thesis
  proof (cases "finalizerName \<in> set (om_Finalizers (pm_Meta m))")
    case True
    then have "reconcilable ?req m libs (world (start c))"
      using run get live by (simp add: reconcilable_def runnable_def)
    then show ?thesis
      using cm by (intro that [of "start c" "kc_replicas (deployment_key ?req) c"]) (auto simp: progressing_def)
  next
    case False
    have "arriving ?req m libs (world (start c))"
      using run get live False stored_typed [OF ok] by (simp add: arriving_def runnable_def)
    then obtain held s1 where first: "Reconcile (cluster_reconciler b) ?req (start c) = Reconcile (cluster_reconciler b) ?req s1"
      and rec: "reconcilable ?req held libs (world s1)" and same: "same_monitor (filled m) held"
      by (rule reconcile_arriving)
    have "merged_of held libs = merged_of m libs" by (simp add: same_monitor_fields [OF same])
    then have "BuildConfigMap canon_yaml held (merged_of held libs) = Inr (cm, h)"
      using cm by (simp only: BuildConfigMap_same [OF same] filled_configmap)
    then show ?thesis
      using rec by (intro that [OF first, of "kc_replicas (deployment_key ?req) (world s1)"]) (auto simp: progressing_def)
  qed
qed

text \<open>
  C13: The system never gets stuck: from every reachable state in which a monitor is not being deleted,
  its Secret and its libraries are there and its configuration renders, whether new or not and whatever
  happened to its children before, the steps of the system can bring about a state in which the monitor
  is stored as ready.
\<close>

theorem readiness_stays_reachable:
  assumes "reachable b c" and "runnable m libs c"
  shows "\<exists>c' stored. (system_step b)\<^sup>*\<^sup>* c c'
     \<and> fst (kc_GetMonitor (monitor_key m) c') = Inr stored \<and> st_Ready (pm_Status stored)"
proof -
  let ?req = "monitor_key m" and ?k = "deployment_key (monitor_key m)"
  obtain s n where first: "Reconcile (cluster_reconciler b) ?req (start c) = Reconcile (cluster_reconciler b) ?req s"
    and prog: "progressing ?req (\<lambda>i. if i = 0 then n else 1) 0 s"
    by (rule runnable_progressing [OF reachable_ok [OF assms(1)] assms(2)])
  let ?pods = "\<lambda>i. if i = 0 then n else (1 :: int32)"
  obtain out s1 where run: "Reconcile (cluster_reconciler b) ?req s = (out, s1)"
    and onward: "progressing ?req ?pods (Suc 0) (s1\<lparr>world := kubelet_reports ?k ?pods (Suc 0) (world s1)\<rparr>)"
    by (rule progressing_run [OF prog, of b])
  let ?c2 = "kubelet_reports ?k ?pods (Suc 0) (world s1)"
  have "system_step b c (world s1)" using system_step.reconcile [of b c ?req] first run by simp
  moreover have "system_step b (world s1) ?c2" unfolding kubelet_reports_def by (rule system_step.kubelet)
  moreover have "progressing ?req ?pods 1 (start ?c2)" using onward by (simp add: progressing_def)
  then obtain s3 stored where "Reconcile (cluster_reconciler b) ?req (start ?c2) = (Done emptyResult None, s3)"
    "fst (kc_GetMonitor ?req (world s3)) = Inr stored" "st_Ready (pm_Status stored)"
    by (rule progressing_run [of _ _ _ _ b]) auto
  moreover from this(1) have "system_step b ?c2 (world s3)" using system_step.reconcile [of b ?c2 ?req] by simp
  ultimately show ?thesis by (meson rtranclp.rtrancl_into_rtrancl rtranclp.rtrancl_refl)
qed

theorem readiness_stays_reachable_witness:
  "\<exists>c' stored. (system_step True)\<^sup>*\<^sup>* orders_created c'
     \<and> fst (kc_GetMonitor orders_key c') = Inr stored \<and> st_Ready (pm_Status stored)"
proof -
  obtain cm h where cm: "BuildConfigMap canon_yaml orders (merged_of orders [orders_lib]) = Inr (cm, h)"
    by (rule orders_config)
  have same: "same_monitor orders orders_stored" by (simp add: same_monitor_def orders_stored_def set_meta_def)
  have "BuildConfigMap canon_yaml orders_stored (merged_of orders_stored [orders_lib]) = Inr (cm, h)"
    using cm by (simp only: BuildConfigMap_same [OF same] same_monitor_fields [OF same])
  moreover note rec = orders_created_reconcilable
  moreover have m: "orders_stored \<in> set (kc_Monitors orders_created)" "monitor_key orders_stored = orders_key"
    using rec GetMonitor_in [of orders_key orders_created orders_stored] by (simp_all add: reconcilable_def)
  ultimately have "runnable orders_stored [orders_lib] orders_created" by (auto simp: runnable_def reconcilable_def)
  from readiness_stays_reachable [OF orders_created_reachable this] show ?thesis by (simp add: m(2))
qed

end
