(* ===== verification/Interleaving.thy ===== *)
theory Interleaving
  imports AdmissionProperties
begin

text \<open>
  A reconcile is not atomic: between any two of its requests users, the kubelet, the garbage collector
  and other controllers send theirs. \<open>busy_client\<close> lets the others act before every request;
  \<open>guarded\<close> is the interface for what then still holds of a reconcile, in the style of rely and
  guarantee: the others lead from one predicate to the next, and every request keeps the current one.
\<close>

section \<open>A server others use as well\<close>

text \<open>The moves of the others are a list: the first is made before the next request, and so on.\<close>

type_synonym move = "cluster \<Rightarrow> cluster"

type_synonym busy = "cluster \<times> move list"

fun interrupted :: "busy \<Rightarrow> busy" where
  "interrupted (c, []) = (c, [])"
| "interrupted (c, e # es) = (e c, es)"

definition busily :: "(cluster \<Rightarrow> 'a \<times> cluster) \<Rightarrow> busy \<Rightarrow> 'a \<times> busy" where
  "busily f w = (case interrupted w of (c, es) \<Rightarrow> case f c of (x, c') \<Rightarrow> (x, (c', es)))"

definition busy_client :: "busy kube_api" where
  "busy_client =
     \<lparr>api_GetMonitor = (\<lambda>k. busily (kc_GetMonitor k)),
      api_UpdateMonitor = (\<lambda>m. busily (kc_UpdateMonitor m)),
      api_UpdateMonitorStatus = (\<lambda>m. busily (kc_UpdateMonitorStatus m)),
      api_GetSecret = (\<lambda>k. busily (kc_GetSecret k)),
      api_GetLibrary = (\<lambda>k. busily (kc_GetLibrary k)),
      api_UpdateLibraryStatus = (\<lambda>lib. busily (kc_UpdateLibraryStatus lib)),
      api_GetDeployment = (\<lambda>k. busily (kc_GetDeployment k)),
      api_Patch = (\<lambda>obj. busily (kc_Patch obj)),
      api_ListPods = (\<lambda>ns sel. busily (kc_ListPods ns sel)),
      api_ListMonitors = (\<lambda>ns. busily (kc_ListMonitors ns)),
      api_Now = busily kc_Now,
      api_RetryOnConflict = (\<lambda>backoff. attempts (bo_Steps backoff - 1))\<rparr>"

definition busy_reconciler :: "bool \<Rightarrow> busy Reconciler" where
  "busy_reconciler b = \<lparr>r_Client = busy_client, r_Lib = kube_lib, r_Yaml = canon_yaml, r_ServiceMonitorEnabled = b\<rparr>"

lemma busily_snd: "snd (busily f w) = (snd (f (fst (interrupted w))), snd (interrupted w))"
  by (simp add: busily_def case_prod_beta)

lemma busily_fst: "fst (busily f w) = fst (f (fst (interrupted w)))"
  by (simp add: busily_def case_prod_beta)

lemmas busy_fields = busy_reconciler_def busy_client_def

section \<open>Rely and guarantee\<close>

text \<open>\<open>Q n\<close> is what holds while \<open>n\<close> moves of the others are still to come; the moves lead from each to the next.\<close>

fun leads :: "(nat \<Rightarrow> cluster \<Rightarrow> bool) \<Rightarrow> move list \<Rightarrow> bool" where
  "leads Q [] \<longleftrightarrow> True"
| "leads Q (e # es) \<longleftrightarrow> (\<forall>c. Q (Suc (length es)) c \<longrightarrow> Q (length es) (e c)) \<and> leads Q es"

definition tracked :: "(nat \<Rightarrow> cluster \<Rightarrow> bool) \<Rightarrow> busy \<Rightarrow> bool" where
  "tracked Q w \<longleftrightarrow> leads Q (snd w) \<and> Q (length (snd w)) (fst w)"

definition tracks :: "(nat \<Rightarrow> cluster \<Rightarrow> bool) \<Rightarrow> busy \<Rightarrow> busy \<Rightarrow> bool" where
  "tracks Q w w' \<longleftrightarrow> (tracked Q w \<longrightarrow> tracked Q w')"

lemma tracked_interrupted: "tracked Q w \<Longrightarrow> tracked Q (interrupted w)"
  by (cases w rule: interrupted.cases) (simp_all add: tracked_def)

lemma tracks_busily: "(\<And>n c. Q n c \<Longrightarrow> Q n (snd (f c))) \<Longrightarrow> tracks Q w (snd (busily f w))"
  using tracked_interrupted [of Q w] by (simp add: tracks_def busily_snd tracked_def)

locale guarded =
  fixes Q :: "nat \<Rightarrow> cluster \<Rightarrow> bool"
  assumes G_status: "Q n c \<Longrightarrow> Q n (snd (kc_UpdateMonitorStatus m c))"
    and G_patch: "Q n c \<Longrightarrow> owned_child obj \<Longrightarrow> Q n (snd (kc_Patch obj c))"
    and G_now: "Q n c \<Longrightarrow> Q n (snd (kc_Now c))"

sublocale guarded \<subseteq> spec_requests "busy_reconciler b" "tracks Q" for b
proof unfold_locales
  show "tracks Q w w''" if "tracks Q w w'" "tracks Q w' w''" for w w' w''
    using that by (simp add: tracks_def)
  show "tracks Q w (snd (api_Patch (r_Client (busy_reconciler b))
      (set_child_meta (meta\<lparr>om_ManagedFields := [], om_ResourceVersion := []\<rparr>) c) w))"
    if "built_for m c" "cl_SetControllerReference (r_Lib (busy_reconciler b)) m (child_meta c) = Inr meta" for m c meta w
  proof -
    have "set_child_meta (meta\<lparr>om_ManagedFields := [], om_ResourceVersion := []\<rparr>) c = cluster_request m c"
      using that by (intro patched_request) (simp_all add: busy_reconciler_def)
    then show ?thesis by (simp add: busy_fields tracks_busily G_patch owned_request [OF that(1)])
  qed
  show "\<exists>n. api_RetryOnConflict (r_Client (busy_reconciler b)) DefaultRetry f s = attempts n f s" for f s
    by (auto simp: busy_fields)
qed (simp_all add: busy_fields kc_reads tracks_busily G_status G_now, simp add: tracks_def)

locale guarded_writes = guarded +
  assumes G_update: "Q n c \<Longrightarrow> Q n (snd (kc_UpdateMonitor m c))"

sublocale guarded_writes \<subseteq> request_closed "busy_reconciler b" "tracks Q" for b
  by unfold_locales (simp_all add: busy_fields tracks_busily G_update)

section \<open>The others\<close>

text \<open>
  What happens between two requests: any step of \<open>System\<close>, or a single request of another controller,
  which may have read the objects it writes at any time before.
\<close>

inductive other_step :: "bool \<Rightarrow> cluster \<Rightarrow> cluster \<Rightarrow> bool" for b :: bool where
  system: "system_step b c c' \<Longrightarrow> other_step b c c'"
| write_monitor: "other_step b c (snd (kc_UpdateMonitor m c))"
| write_status: "other_step b c (snd (kc_UpdateMonitorStatus m c))"
| write_library: "other_step b c (snd (kc_UpdateLibraryStatus lib c))"
| apply_child: "owned_child obj \<Longrightarrow> other_step b c (snd (kc_Patch obj c))"
| time: "other_step b c (snd (kc_Now c))"

definition moves_of_others :: "bool \<Rightarrow> move list \<Rightarrow> bool" where
  "moves_of_others b es \<longleftrightarrow> (\<forall>e \<in> set es. \<forall>c. (other_step b)\<^sup>*\<^sup>* c (e c))"

definition interleaved :: "bool \<Rightarrow> NamespacedName \<Rightarrow> cluster \<Rightarrow> move list \<Rightarrow> Outcome \<times> busy rstate" where
  "interleaved b req c es = Reconcile (busy_reconciler b) req \<lparr>world = (c, es), journal = []\<rparr>"

inductive concurrent :: "bool \<Rightarrow> cluster \<Rightarrow> bool" for b :: bool where
  concurrent_empty: "concurrent b empty_cluster"
| concurrent_other: "concurrent b c \<Longrightarrow> other_step b c c' \<Longrightarrow> concurrent b c'"
| concurrent_reconcile: "concurrent b c \<Longrightarrow> moves_of_others b es \<Longrightarrow>
    concurrent b (fst (world (snd (interleaved b req c es))))"

section \<open>The invariant under interleaving\<close>

lemma safe_stepD: "safe_step c c' \<Longrightarrow> system_ok c \<Longrightarrow> system_ok c'"
  by (simp add: safe_step_def)

lemma other_step_ok: "other_step b c c' \<Longrightarrow> system_ok c \<Longrightarrow> system_ok c'"
  by (induction rule: other_step.induct)
    (auto intro: system_step_ok safe_stepD UpdateMonitor_safe UpdateMonitorStatus_safe UpdateLibraryStatus_safe Patch_safe clock_safe)

lemma others_ok: "(other_step b)\<^sup>*\<^sup>* c c' \<Longrightarrow> system_ok c \<Longrightarrow> system_ok c'"
  by (induction rule: rtranclp_induct) (auto intro: other_step_ok)

interpretation ok_guarded: guarded_writes "\<lambda>_. system_ok"
  by unfold_locales (auto intro: safe_stepD UpdateMonitor_safe UpdateMonitorStatus_safe Patch_safe clock_safe)

lemma leads_constant: "moves_of_others b es \<Longrightarrow> (\<And>c c'. (other_step b)\<^sup>*\<^sup>* c c' \<Longrightarrow> P c \<Longrightarrow> P c') \<Longrightarrow> leads (\<lambda>_. P) es"
  by (induction es) (auto simp: moves_of_others_def)

lemma interleaved_ok:
  assumes "system_ok c" "moves_of_others b es"
  shows "system_ok (fst (world (snd (interleaved b req c es))))"
proof -
  have "tracked (\<lambda>_. system_ok) (c, es)" using assms leads_constant others_ok by (simp add: tracked_def)
  then show ?thesis
    using ok_guarded.Reconcile_R [of "\<lparr>world = (c, es), journal = []\<rparr>" b req]
    by (simp add: interleaved_def tracks_def tracked_def)
qed

lemma concurrent_ok: "concurrent b c \<Longrightarrow> system_ok c"
  by (induction rule: concurrent.induct) (auto intro: system_ok_empty other_step_ok interleaved_ok)

lemma reachable_concurrent: "reachable b c \<Longrightarrow> concurrent b c"
  by (induction rule: reachable.induct) (auto intro: concurrent.intros other_step.intros)

end
