(* ===== verification/Races.thy ===== *)
theory Races
  imports Interleaving
begin

text \<open>
  What optimistic concurrency makes of a reconcile that others interrupt: writes based on an old read
  fail, edits survive, and the status gets through.
\<close>

section \<open>Resource versions\<close>

text \<open>A monitor that was not there before carries a resource version that was not there before.\<close>

definition evolves :: "cluster \<Rightarrow> cluster \<Rightarrow> bool" where
  "evolves c c' \<longleftrightarrow> kc_Revision c \<le> kc_Revision c'
     \<and> (\<forall>m \<in> set (kc_Monitors c'). m \<in> set (kc_Monitors c)
          \<or> (\<exists>i. kc_Revision c < i \<and> i \<le> kc_Revision c' \<and> om_ResourceVersion (pm_Meta m) = utoa i))"

definition numbered :: "cluster \<Rightarrow> bool" where
  "numbered c \<longleftrightarrow> (\<forall>m \<in> set (kc_Monitors c). \<exists>i \<le> kc_Revision c. om_ResourceVersion (pm_Meta m) = utoa i)"

lemma evolves_trans: "evolves c c' \<Longrightarrow> evolves c' c'' \<Longrightarrow> evolves c c''"
  unfolding evolves_def by (meson order_trans le_less_trans less_imp_le order_less_le_trans)

lemma evolves_frame: "kc_Monitors c' = kc_Monitors c \<Longrightarrow> kc_Revision c \<le> kc_Revision c' \<Longrightarrow> evolves c c'"
  by (simp add: evolves_def)

lemma evolves_refl [simp]: "evolves c c"
  by (simp add: evolves_def)

lemma evolves_put: "evolves c (snd (kc_put_monitor m c))"
  by (auto simp: evolves_def kc_put_monitor_def Let_def set_meta_def)

lemma evolves_write: "evolves c (snd (kc_WriteMonitor m c))"
  by (auto simp: kc_WriteMonitor_def Let_def case_prod_beta evolves_put split: sum.split)

lemma evolves_update: "evolves c (snd (kc_UpdateMonitor m c))"
  by (auto simp: kc_UpdateMonitor_def evolves_write split: option.split)

lemma evolves_status: "evolves c (snd (kc_UpdateMonitorStatus m c))"
  by (auto simp: kc_UpdateMonitorStatus_def evolves_put split: sum.split)

lemma evolves_library: "evolves c (snd (kc_UpdateLibraryStatus lib c))"
  by (auto simp: kc_UpdateLibraryStatus_def Let_def intro!: evolves_frame split: sum.split)

lemma evolves_others: "evolves c (snd (kc_Patch obj c))" "evolves c (snd (kc_Now c))"
  by (simp_all add: kc_Patch_def kc_Now_def evolves_frame)

interpretation evolving: request_closed "cluster_reconciler b" evolves for b
proof unfold_locales
  show "evolves w w''" if "evolves w w'" "evolves w' w''" for w w' w''
    using that by (rule evolves_trans)
  show "\<exists>n. api_RetryOnConflict (r_Client (cluster_reconciler b)) DefaultRetry f s = attempts n f s" for f s
    by (rule retry_contract.retry_attempts [OF cluster.retry_ok])
qed (simp_all add: kc_fields kc_reads evolves_others evolves_status evolves_update)

interpretation library_evolving: library_requests cluster_library_reconciler evolves
proof unfold_locales
  show "evolves w w''" if "evolves w w'" "evolves w' w''" for w w' w''
    using that by (rule evolves_trans)
qed (simp_all add: cluster_library_reconciler_def cluster_client_def kc_reads evolves_others evolves_library)

lemma system_step_evolves: "system_step b c c' \<Longrightarrow> evolves c c'"
proof (induction rule: system_step.induct)
  case (reconcile c req)
  show ?case using evolving.Reconcile_R [of "start c" b req] by simp
next
  case (reconcile_library c req)
  show ?case using library_evolving.LibraryReconcile_W [of "start c" req] by simp
qed (simp_all add: evolves_put evolves_write evolves_frame)

lemma other_step_evolves: "other_step b c c' \<Longrightarrow> evolves c c'"
  by (induction rule: other_step.induct)
    (auto intro: system_step_evolves evolves_update evolves_status evolves_library evolves_others)

lemma others_evolve: "(other_step b)\<^sup>*\<^sup>* c c' \<Longrightarrow> evolves c c'"
  by (induction rule: rtranclp_induct) (auto intro: evolves_trans other_step_evolves)

lemma evolves_numbered: "evolves c c' \<Longrightarrow> numbered c \<Longrightarrow> numbered c'"
  unfolding evolves_def numbered_def by (metis order_trans)

lemma utoa_inject: "utoa i = utoa j \<Longrightarrow> i = j"
  by (metis parse_digits_utoa option.inject)

text \<open>So a monitor that is stored under the resource version that was read is the one that was read.\<close>

lemma same_version_same_monitor:
  assumes "evolves c c'" "numbered c" "kc_wf c" "m \<in> set (kc_Monitors c)" "x \<in> set (kc_Monitors c')"
    "monitor_key x = monitor_key m" "om_ResourceVersion (pm_Meta x) = om_ResourceVersion (pm_Meta m)"
  shows "x = m"
proof -
  obtain i where i: "i \<le> kc_Revision c" "om_ResourceVersion (pm_Meta m) = utoa i"
    using assms(2,4) by (auto simp: numbered_def)
  consider "x \<in> set (kc_Monitors c)" | j where "kc_Revision c < j" "om_ResourceVersion (pm_Meta x) = utoa j"
    using assms(1,5) by (auto simp: evolves_def)
  then have "x \<in> set (kc_Monitors c)"
  proof cases
    case (2 j)
    then show ?thesis using utoa_inject [of i j] i assms(7) by simp
  qed
  then show ?thesis using assms(3,4,6) by (auto simp: kc_wf_def distinct_map inj_on_def)
qed

section \<open>No edit is lost\<close>

definition spec_holds :: "NamespacedName \<Rightarrow> (PgpilotMonitorSpec \<Rightarrow> bool) \<Rightarrow> cluster \<Rightarrow> bool" where
  "spec_holds k P c \<longleftrightarrow> (\<forall>m. fst (kc_GetMonitor k c) = Inr m \<longrightarrow> P (pm_Spec m))"

lemma spec_holds_frame: "spec_holds k P c \<Longrightarrow> kc_Monitors c' = kc_Monitors c \<Longrightarrow> spec_holds k P c'"
  by (simp add: spec_holds_def kc_GetMonitor_def)

lemma spec_holds_put:
  assumes "k \<noteq> monitor_key m \<Longrightarrow> spec_holds k P c" "k = monitor_key m \<Longrightarrow> P (pm_Spec m)"
  shows "spec_holds k P (snd (kc_put_monitor m c))"
proof -
  have rest: "find (\<lambda>x. monitor_key x = k) (filter (\<lambda>x. monitor_key x \<noteq> monitor_key m) (kc_Monitors c)) =
      (if k = monitor_key m then None else find (\<lambda>x. monitor_key x = k) (kc_Monitors c))"
    by (auto simp: find_None_iff intro: find_filter_other)
  then show ?thesis
    using assms
    by (auto simp: spec_holds_def kc_GetMonitor_iff kc_put_monitor_def Let_def set_meta_def monitor_key_def)
qed

lemma spec_holds_status: "spec_holds k P c \<Longrightarrow> spec_holds k P (snd (kc_UpdateMonitorStatus m c))"
proof (cases "fst (kc_GetMonitor (monitor_key m) c)")
  case (Inr cur)
  assume "spec_holds k P c"
  then show ?thesis
    using Inr GetMonitor_in(2) [OF Inr]
    by (auto simp: kc_UpdateMonitorStatus_def monitor_key_def intro!: spec_holds_put) (simp add: spec_holds_def)
qed (simp add: kc_UpdateMonitorStatus_def)

interpretation spec_guarded: guarded "\<lambda>n c. evolves c0 c \<and> spec_holds k (P n) c" for c0 k P
proof unfold_locales
  fix n c and obj :: Child
  assume "evolves c0 c \<and> spec_holds k (P n) c"
  then have c: "evolves c0 c" "spec_holds k (P n) c" by simp_all
  have frame: "spec_holds k (P n) (snd (kc_Patch obj c))" "spec_holds k (P n) (snd (kc_Now c))"
    by (rule spec_holds_frame [OF c(2)], simp add: kc_Patch_def kc_Now_def)+
  then show "evolves c0 (snd (kc_Patch obj c)) \<and> spec_holds k (P n) (snd (kc_Patch obj c))"
    "evolves c0 (snd (kc_Now c)) \<and> spec_holds k (P n) (snd (kc_Now c))"
    using evolves_trans [OF c(1) evolves_others(1)] evolves_trans [OF c(1) evolves_others(2)] by simp_all
  show "evolves c0 (snd (kc_UpdateMonitorStatus m c)) \<and> spec_holds k (P n) (snd (kc_UpdateMonitorStatus m c))" for m
    using evolves_trans [OF c(1) evolves_status] spec_holds_status [OF c(2)] by simp
qed

text \<open>A write based on what was read at \<open>c0\<close> changes a specification at most by the defaults the server fills in.\<close>

definition resubmittable :: "(PgpilotMonitorSpec \<Rightarrow> bool) \<Rightarrow> bool" where
  "resubmittable P \<longleftrightarrow> (\<forall>s s'. P s \<longrightarrow> resubmit s = Some s' \<longrightarrow> P s')"

lemma update_keeps_specs:
  assumes past: "evolves c0 c" "numbered c0" "kc_wf c0" and m: "m \<in> set (kc_Monitors c0)"
    and x: "monitor_key x = monitor_key m" "pm_Spec x = pm_Spec m"
      "om_ResourceVersion (pm_Meta x) = om_ResourceVersion (pm_Meta m)"
    and holds: "spec_holds k P c" and closed: "resubmittable P"
  shows "spec_holds k P (snd (kc_UpdateMonitor x c))"
proof (cases "resubmit (pm_Spec x)")
  case None
  then show ?thesis using holds by (simp add: kc_UpdateMonitor_def)
next
  case (Some spec)
  have key: "monitor_key (x\<lparr>pm_Spec := spec\<rparr>) = monitor_key m" using x(1) by (simp add: monitor_key_def)
  have run: "kc_UpdateMonitor x c = kc_WriteMonitor (x\<lparr>pm_Spec := spec\<rparr>) c" by (simp add: kc_UpdateMonitor_def Some)
  show ?thesis
  proof (cases "fst (kc_GetMonitor (monitor_key m) c)")
    case (Inl err)
    then show ?thesis unfolding run kc_WriteMonitor_def key using holds by simp
  next
    case (Inr cur)
    note cur = GetMonitor_in [OF Inr]
    show ?thesis
    proof (cases "om_ResourceVersion (pm_Meta x) = om_ResourceVersion (pm_Meta cur)")
      case True
      then have "om_ResourceVersion (pm_Meta cur) = om_ResourceVersion (pm_Meta m)" using x(3) by (rule trans [OF sym])
      then have "cur = m" by (rule same_version_same_monitor [OF past m cur])
      then have "P (pm_Spec x)" if "k = monitor_key m"
        using holds Inr x(2) that by (simp add: spec_holds_def)
      then have "P spec" if "k = monitor_key m"
        using closed Some that unfolding resubmittable_def by blast
      let ?y = "x\<lparr>pm_Spec := spec, pm_Status := pm_Status cur, pm_Meta := (pm_Meta x)
        \<lparr>om_Generation := om_Generation (pm_Meta cur) + (if spec = pm_Spec cur then 0 else 1),
         om_DeletionTimestamp := om_DeletionTimestamp (pm_Meta cur)\<rparr>\<rparr>"
      have "snd (kc_UpdateMonitor x c) = snd (kc_put_monitor ?y c)"
        unfolding run kc_WriteMonitor_def key Inr using True by (simp add: Let_def case_prod_beta)
      moreover have "monitor_key ?y = monitor_key m" using x(1) by (simp add: monitor_key_def)
      then have "spec_holds k P (snd (kc_put_monitor ?y c))"
        using \<open>k = monitor_key m \<Longrightarrow> P spec\<close> by (intro spec_holds_put holds) simp
      ultimately show ?thesis by simp
    next
      case False
      then show ?thesis unfolding run kc_WriteMonitor_def key Inr using holds by simp
    qed
  qed
qed

lemma busy_update_tracked:
  assumes past: "numbered c0" "kc_wf c0" and m: "m \<in> set (kc_Monitors c0)"
    and x: "monitor_key x = monitor_key m" "pm_Spec x = pm_Spec m"
      "om_ResourceVersion (pm_Meta x) = om_ResourceVersion (pm_Meta m)"
    and closed: "\<And>n. resubmittable (P n)"
    and before: "tracked (\<lambda>n c. evolves c0 c \<and> spec_holds k (P n) c) (world s)"
  shows "tracked (\<lambda>n c. evolves c0 c \<and> spec_holds k (P n) c) (world (snd (update_monitor (busy_reconciler b) x s)))"
proof -
  have w: "world (snd (update_monitor (busy_reconciler b) x s)) =
      (snd (kc_UpdateMonitor x (fst (interrupted (world s)))), snd (interrupted (world s)))"
    by (simp add: update_monitor_def on_world_def case_prod_beta busy_fields busily_snd)
  have here: "tracked (\<lambda>n c. evolves c0 c \<and> spec_holds k (P n) c) (interrupted (world s))"
    by (rule tracked_interrupted [OF before])
  then have "evolves c0 (fst (interrupted (world s)))"
    "spec_holds k (P (length (snd (interrupted (world s))))) (fst (interrupted (world s)))"
    by (simp_all add: tracked_def)
  from update_keeps_specs [OF this(1) past m x this(2) closed] evolves_trans [OF this(1) evolves_update] here
  show ?thesis by (simp add: w tracked_def)
qed

lemma leads_evolves:
  "moves_of_others b es \<Longrightarrow> leads Q es \<Longrightarrow> leads (\<lambda>n c. evolves c0 c \<and> Q n c) es"
proof (induction es)
  case (Cons e es)
  have "evolves c (e c)" for c using Cons.prems(1) others_evolve [of b c "e c"] by (simp add: moves_of_others_def)
  then have "evolves c0 (e c)" if "evolves c0 c" for c using evolves_trans that by blast
  with Cons show ?case by (simp add: moves_of_others_def)
qed simp

lemma interleaved_specs:
  assumes c: "system_ok c" "numbered c" and es: "moves_of_others b es"
    and P: "leads (\<lambda>n. spec_holds k (P n)) es" "spec_holds k (P (length es)) c" "\<And>n. resubmittable (P n)"
    and run: "interleaved b req c es = (out, s')"
  shows "spec_holds k (P (length (snd (world s')))) (fst (world s'))"
proof -
  let ?r = "busy_reconciler b" and ?s = "\<lparr>world = (c, es), journal = []\<rparr>"
  obtain c1 es1 where w: "interrupted (c, es) = (c1, es1)" by (cases "interrupted (c, es)")
  let ?s1 = "\<lparr>world = (c1, es1), journal = []\<rparr>" and ?Q = "\<lambda>n c. evolves c1 c \<and> spec_holds k (P n) c"
  have "tracked (\<lambda>n. spec_holds k (P n)) (c1, es1)"
    using tracked_interrupted [of "\<lambda>n. spec_holds k (P n)" "(c, es)"] P(1,2) by (simp add: w tracked_def)
  moreover have es1: "moves_of_others b es1" using es w by (cases es) (auto simp: moves_of_others_def)
  ultimately have start: "tracked ?Q (c1, es1)" by (simp add: tracked_def leads_evolves)
  have "(other_step b)\<^sup>*\<^sup>* c c1" using es w by (cases es) (auto simp: moves_of_others_def)
  then have c1: "numbered c1" "kc_wf c1"
    using evolves_numbered [OF others_evolve] others_ok c by (auto simp: system_ok_def)
  have lib: "r_Lib ?r = kube_lib" by (simp add: busy_reconciler_def)
  have get: "on_world (api_GetMonitor (r_Client ?r) req) ?s = (fst (kc_GetMonitor req c1), ?s1)"
    by (simp add: on_world_def busy_fields busily_def w kc_GetMonitor_def)
  have "tracked ?Q (world (snd (Reconcile ?r req ?s)))"
  proof (cases "fst (kc_GetMonitor req c1)")
    case (Inl err)
    then show ?thesis using start by (simp add: Reconcile_def get)
  next
    case (Inr m)
    have written: "tracked ?Q (world (snd (update_monitor ?r (set_meta m meta) ?s1)))"
      if "om_ResourceVersion meta = om_ResourceVersion (pm_Meta m)" "om_Name meta = om_Name (pm_Meta m)"
        "om_Namespace meta = om_Namespace (pm_Meta m)" for meta
      by (rule busy_update_tracked [OF c1 GetMonitor_in(1) [OF Inr] _ _ _ P(3)])
        (simp_all add: that set_meta_def monitor_key_def start)
    have spec: "tracked ?Q (world (snd (reconcile_spec ?r m' s')))" if "tracked ?Q (world s')" for m' s'
      using spec_guarded.reconcile_spec_R [of c1 k P s' b m'] that by (simp add: tracks_def)
    show ?thesis
    proof (cases "timestamp_IsZero (om_DeletionTimestamp (pm_Meta m))")
      case True
      have "tracked ?Q (world (snd (ensure_finalizer ?r m ?s1)))"
        using start by (simp add: ensure_finalizer_def) (simp add: written kube_lib_def lib)
      then show ?thesis using True spec by (auto simp: Reconcile_def get Inr split: prod.split sum.split)
    next
      case False
      have "tracked ?Q (world (snd (reconcile_deletion ?r m ?s1)))"
        using start written by (auto simp: reconcile_deletion_def Let_def case_prod_beta kube_lib_def lib split: sum.split)
      then show ?thesis using False by (simp add: Reconcile_def get Inr)
    qed
  qed
  then show ?thesis using run by (simp add: interleaved_def tracked_def)
qed

text \<open>Every state carries numbered versions.\<close>

interpretation growing_guarded: guarded_writes "\<lambda>_. evolves c0" for c0
  by unfold_locales (auto intro: evolves_trans evolves_status evolves_others evolves_update)

lemma interleaved_evolves:
  assumes "moves_of_others b es"
  shows "evolves c (fst (world (snd (interleaved b req c es))))"
proof -
  have "tracked (\<lambda>_. evolves c) (c, es)"
    using leads_constant [OF assms, of "evolves c"] evolves_trans others_evolve by (auto simp: tracked_def)
  then show ?thesis
    using growing_guarded.Reconcile_R [of c "\<lparr>world = (c, es), journal = []\<rparr>" b req]
    by (simp add: interleaved_def tracks_def tracked_def)
qed

lemma concurrent_numbered: "concurrent b c \<Longrightarrow> numbered c"
proof (induction rule: concurrent.induct)
  case concurrent_empty
  show ?case by (simp add: numbered_def empty_cluster_def)
qed (auto intro: evolves_numbered other_step_evolves interleaved_evolves)

lemma leads_after:
  assumes "\<And>n c. length after < n \<Longrightarrow> Q n c" "\<And>c. Q (length after) (e c)" "leads Q after"
  shows "leads Q (before @ e # after)"
  using assms by (induction before) auto

text \<open>
  C10: No edit is lost to a reconcile. If somebody edits the specification of a monitor while a reconcile
  of it (or of another one) is under way, between whichever of its requests, then what is stored when
  that reconcile is over is the edited specification, at most with the defaults of the CRD filled in:
  the operator never writes back what it read before the edit.
\<close>

theorem edit_survives_reconcile:
  assumes "concurrent b c" and "moves_of_others b (before @ edit # after)" and "spec_valid spec"
    and "\<And>c'. spec_holds k (\<lambda>s. s = spec) (edit c')"
    and "\<And>e c' P. e \<in> set after \<Longrightarrow> spec_holds k P c' \<Longrightarrow> spec_holds k P (e c')"
    and "interleaved b req c (before @ edit # after) = (out, s')" and "length (snd (world s')) \<le> length after"
  shows "spec_holds k (\<lambda>s. s = spec \<or> s = fill_spec spec) (fst (world s'))"
proof -
  let ?edited = "\<lambda>s. s = spec \<or> s = fill_spec spec"
  let ?P = "\<lambda>n s. n \<le> length after \<longrightarrow> ?edited s"
  have "resubmittable ?edited"
    using resubmit_valid [OF assms(3)] resubmit_valid [OF fill_spec_valid [OF assms(3)]]
    by (auto simp: resubmittable_def fill_spec_idem)
  then have closed: "resubmittable (?P n)" for n by (auto simp: resubmittable_def)
  have "leads (\<lambda>n. spec_holds k (?P n)) es" if "length es \<le> length after" "set es \<subseteq> set after" for es
    using that assms(5) [of _ ?edited] by (induction es) auto
  then have "leads (\<lambda>n. spec_holds k (?P n)) after" by simp
  moreover have "spec_holds k ?edited (edit c')" for c' using assms(4) [of c'] by (simp add: spec_holds_def)
  ultimately have "leads (\<lambda>n. spec_holds k (?P n)) (before @ edit # after)"
    by (intro leads_after) (simp_all add: spec_holds_def)
  from interleaved_specs [OF concurrent_ok [OF assms(1)] concurrent_numbered [OF assms(1)] assms(2) this _ closed assms(6)]
  show ?thesis using assms(7) by (simp add: spec_holds_def)
qed

section \<open>Losing a race\<close>

lemma race_lost:
  assumes c: "system_ok c" "numbered c" and get: "fst (kc_GetMonitor req c) = Inr m"
    and needs: "timestamp_IsZero (om_DeletionTimestamp (pm_Meta m)) \<longleftrightarrow> finalizerName \<notin> set (om_Finalizers (pm_Meta m))"
    and race: "evolves c (race c)" "fst (kc_GetMonitor req (race c)) = Inr m'" "m' \<noteq> m"
  shows "\<exists>s'. interleaved b req c (id # race # es) = (Done emptyResult (Some kc_conflict), s') \<and> world s' = (race c, es)"
proof -
  let ?r = "busy_reconciler b" and ?s = "\<lparr>world = (c, race # es), journal = []\<rparr>"
  note m = GetMonitor_in [OF get] and m' = GetMonitor_in [OF race(2)]
  have lib: "r_Lib ?r = kube_lib" by (simp add: busy_reconciler_def)
  have read: "on_world (api_GetMonitor (r_Client ?r) req) \<lparr>world = (c, id # race # es), journal = []\<rparr> = (Inr m, ?s)"
    using get by (simp add: on_world_def busy_fields busily_def kc_GetMonitor_def)
  have versions: "om_ResourceVersion (pm_Meta m') \<noteq> om_ResourceVersion (pm_Meta m)"
    using same_version_same_monitor [OF race(1) c(2) _ m(1) m'(1)] c(1) m(2) m'(2) race(3) by (auto simp: system_ok_def)
  have conflict: "kc_UpdateMonitor x (race c) = (Inl kc_conflict, race c)"
    if "monitor_key x = req" "pm_Spec x = pm_Spec m" "om_ResourceVersion (pm_Meta x) = om_ResourceVersion (pm_Meta m)" for x
  proof -
    have "resubmit (pm_Spec x) = Some (fill_spec (pm_Spec m))"
      using resubmit_valid stored_typed [OF c(1) m(1)] that(2) by simp
    moreover have "monitor_key (x\<lparr>pm_Spec := spec\<rparr>) = req" for spec using that(1) by (simp add: monitor_key_def)
    ultimately show ?thesis using race(2) versions that(3) by (simp add: kc_UpdateMonitor_def kc_WriteMonitor_def)
  qed
  have lost: "update_monitor ?r (set_meta m meta) ?s =
      (Inl kc_conflict, \<lparr>world = (race c, es), journal = [EffUpdate (set_meta m meta)]\<rparr>)"
    if "om_ResourceVersion meta = om_ResourceVersion (pm_Meta m)" "om_Name meta = om_Name (pm_Meta m)"
      "om_Namespace meta = om_Namespace (pm_Meta m)" for meta
  proof -
    have "kc_UpdateMonitor (set_meta m meta) (race c) = (Inl kc_conflict, race c)"
      using m(2) that by (intro conflict) (simp_all add: set_meta_def monitor_key_def)
    then show ?thesis by (simp add: update_monitor_def on_world_def busy_fields busily_def emit_def)
  qed
  show ?thesis
  proof (cases "timestamp_IsZero (om_DeletionTimestamp (pm_Meta m))")
    case True
    with needs show ?thesis by (simp add: interleaved_def Reconcile_def read ensure_finalizer_def lost lib kube_lib_def)
  next
    case False
    with needs show ?thesis by (simp add: interleaved_def Reconcile_def read reconcile_deletion_def lost lib kube_lib_def)
  qed
qed

text \<open>
  C15: A reconcile that loses a race backs off: when the monitor changes between the read and the write of
  its finalizer, be it added or given up, the reconcile ends with the conflict as its error, so that it
  is queued again, and nothing it did changes the cluster.
\<close>

theorem lost_race_changes_nothing:
  assumes "concurrent b c" and "fst (kc_GetMonitor req c) = Inr m"
    and "timestamp_IsZero (om_DeletionTimestamp (pm_Meta m)) \<longleftrightarrow> finalizerName \<notin> set (om_Finalizers (pm_Meta m))"
    and "(other_step b)\<^sup>*\<^sup>* c (race c)" and "fst (kc_GetMonitor req (race c)) = Inr m'" and "m' \<noteq> m"
  shows "\<exists>s'. interleaved b req c (id # race # es) = (Done emptyResult (Some kc_conflict), s')
     \<and> world s' = (race c, es)"
  by (rule race_lost [where race = race, OF concurrent_ok [OF assms(1)] concurrent_numbered [OF assms(1)] assms(2,3)
        others_evolve [OF assms(4)] assms(5,6)])

section \<open>Writing the status among others\<close>

definition alive :: "NamespacedName \<Rightarrow> cluster \<Rightarrow> bool" where
  "alive k c \<longleftrightarrow> (\<exists>m. fst (kc_GetMonitor k c) = Inr m \<and> om_DeletionTimestamp (pm_Meta m) = None)"

lemma alive_interrupted:
  assumes "alive k (fst w)" "\<forall>e \<in> set (snd w). \<forall>c. alive k c \<longrightarrow> alive k (e c)"
  shows "alive k (fst (interrupted w))" "\<forall>e \<in> set (snd (interrupted w)). \<forall>c. alive k c \<longrightarrow> alive k (e c)"
  using assms by (cases w rule: interrupted.cases; simp)+

lemma status_stored:
  assumes "fst (kc_GetMonitor k c) = Inr cur" "om_DeletionTimestamp (pm_Meta cur) = None"
    "monitor_key x = k" "om_ResourceVersion (pm_Meta x) = om_ResourceVersion (pm_Meta cur)"
  shows "fst (kc_UpdateMonitorStatus x c) = None
    \<and> (\<exists>stored. fst (kc_GetMonitor k (snd (kc_UpdateMonitorStatus x c))) = Inr stored \<and> pm_Status stored = pm_Status x)"
proof -
  have key: "monitor_key cur = k" by (rule GetMonitor_in(2) [OF assms(1)])
  have "kc_UpdateMonitorStatus x c = (None, snd (kc_put_monitor (cur\<lparr>pm_Status := pm_Status x\<rparr>) c))"
    unfolding kc_UpdateMonitorStatus_def assms(3) assms(1) by (simp add: assms(4))
  moreover have "monitor_key cur = k \<Longrightarrow> monitor_key (set_meta (cur\<lparr>pm_Status := st\<rparr>) ((pm_Meta cur)\<lparr>om_ResourceVersion := v\<rparr>)) = k" for st v
    by (simp add: set_meta_def monitor_key_def)
  ultimately show ?thesis
    using assms(2) key
    by (simp add: kc_GetMonitor_def kc_find_def kc_put_monitor_def Let_def) (simp add: set_meta_def)
qed

text \<open>One attempt succeeds, or it has met a move between its two requests and can be made again.\<close>

lemma busy_attempt:
  assumes "alive (monitor_key m) (fst (world s))" "\<forall>e \<in> set (snd (world s)). \<forall>c. alive (monitor_key m) c \<longrightarrow> alive (monitor_key m) (e c)"
  obtains (succeeded) s' stored where "patchStatus_attempt (busy_reconciler b) m s = (None, s')"
      "fst (kc_GetMonitor (monitor_key m) (fst (world s'))) = Inr stored" "pm_Status stored = pm_Status m"
  | (again) s' where "patchStatus_attempt (busy_reconciler b) m s = (Some kc_conflict, s')"
      "world s' = interrupted (interrupted (world s))" "2 \<le> length (snd (world s))"
proof -
  let ?k = "monitor_key m"
  obtain c1 es1 where w1: "interrupted (world s) = (c1, es1)" by (meson surj_pair)
  obtain c2 es2 where w2: "interrupted (c1, es1) = (c2, es2)" by (meson surj_pair)
  have a1: "alive ?k c1" "\<forall>e \<in> set es1. \<forall>c. alive ?k c \<longrightarrow> alive ?k (e c)"
    using alive_interrupted [OF assms] by (simp_all add: w1)
  have a2: "alive ?k c2" using alive_interrupted [of ?k "(c1, es1)"] a1 by (simp add: w2)
  obtain latest cur where l: "fst (kc_GetMonitor ?k c1) = Inr latest"
    and cur: "fst (kc_GetMonitor ?k c2) = Inr cur" "om_DeletionTimestamp (pm_Meta cur) = None"
    using a1(1) a2 by (auto simp: alive_def)
  let ?x = "latest\<lparr>pm_Status := pm_Status m\<rparr>"
  have key: "monitor_key ?x = ?k" using GetMonitor_in(2) [OF l] by (simp add: monitor_key_def)
  have run: "patchStatus_attempt (busy_reconciler b) m s =
      (fst (kc_UpdateMonitorStatus ?x c2), \<lparr>world = (snd (kc_UpdateMonitorStatus ?x c2), es2), journal = journal s @ [EffStatus ?x]\<rparr>)"
    using l by (simp add: patchStatus_attempt_def on_world_def busy_fields busily_def w1 w2 kc_GetMonitor_def Let_def
        case_prod_beta emit_def)
  show ?thesis
  proof (cases "om_ResourceVersion (pm_Meta latest) = om_ResourceVersion (pm_Meta cur)")
    case True
    from status_stored [OF cur key] True show ?thesis using succeeded run by auto
  next
    case False
    then have conflict: "kc_UpdateMonitorStatus ?x c2 = (Some kc_conflict, c2)"
      unfolding kc_UpdateMonitorStatus_def key cur(1) by simp
    have "es1 \<noteq> []" using False l cur(1) w2 by (cases es1) auto
    then have "2 \<le> length (snd (world s))" using w1 by (cases "world s" rule: interrupted.cases) (auto simp: Suc_le_eq)
    then show ?thesis using again run by (simp add: conflict w1 w2)
  qed
qed

lemma busy_attempts:
  assumes "alive (monitor_key m) (fst (world s))" "\<forall>e \<in> set (snd (world s)). \<forall>c. alive (monitor_key m) c \<longrightarrow> alive (monitor_key m) (e c)"
    and "length (snd (world s)) \<le> 2 * n + 1"
  shows "\<exists>s' stored. attempts n (patchStatus_attempt (busy_reconciler b) m) s = (None, s')
    \<and> fst (kc_GetMonitor (monitor_key m) (fst (world s'))) = Inr stored \<and> pm_Status stored = pm_Status m"
  using assms
proof (induction n arbitrary: s)
  case 0
  show ?case by (rule busy_attempt [OF 0(1,2), of b]) (use 0(3) in auto)
next
  case (Suc n)
  show ?case
  proof (rule busy_attempt [OF Suc.prems(1,2), of b])
    fix s' stored
    assume "patchStatus_attempt (busy_reconciler b) m s = (None, s')"
      "fst (kc_GetMonitor (monitor_key m) (fst (world s'))) = Inr stored" "pm_Status stored = pm_Status m"
    then show ?thesis by simp
  next
    fix s'
    assume run: "patchStatus_attempt (busy_reconciler b) m s = (Some kc_conflict, s')"
      and w: "world s' = interrupted (interrupted (world s))" and two: "2 \<le> length (snd (world s))"
    note once = alive_interrupted [OF Suc.prems(1,2)]
    note twice = alive_interrupted [OF once, folded w]
    have "length (snd (interrupted v)) = length (snd v) - 1" for v by (cases v rule: interrupted.cases) simp_all
    then have "length (snd (world s')) \<le> 2 * n + 1" using Suc.prems(3) by (simp add: w)
    from Suc.IH [OF twice this] show ?thesis using run by (simp add: kc_conflict_def)
  qed
qed

text \<open>
  C11: The status of a monitor is written in spite of others: as long as nobody deletes the monitor and
  others interrupt at most nine times, whatever they change, writing the status succeeds within the five
  attempts of the retry, and the stored status is the one that was to be written. With a tenth
  interruption it can fail, and the reconcile gets the conflict (\<open>status_race_bound_sharp\<close>).
\<close>

theorem status_survives_races:
  assumes "alive (monitor_key m) c" and "\<forall>e \<in> set es. \<forall>c. alive (monitor_key m) c \<longrightarrow> alive (monitor_key m) (e c)"
    and "length es \<le> 9"
  shows "\<exists>s' stored. patchStatus (busy_reconciler b) m \<lparr>world = (c, es), journal = j\<rparr> = (None, s')
     \<and> fst (kc_GetMonitor (monitor_key m) (fst (world s'))) = Inr stored \<and> pm_Status stored = pm_Status m"
  using busy_attempts [of m "\<lparr>world = (c, es), journal = j\<rparr>" 4 b] assms by (simp add: patchStatus_def busy_fields)

section \<open>A race\<close>

text \<open>The user of \<open>Scenario\<close> chooses another preset while the operator is about to hold the new monitor.\<close>

definition edited_spec :: PgpilotMonitorSpec where
  "edited_spec = orders_spec\<lparr>sp_Metrics := (sp_Metrics orders_spec)\<lparr>ms_Preset := ''exhaustive''\<rparr>\<rparr>"

definition orders_edit :: move where
  "orders_edit c = (case fst (kc_GetMonitor orders_key c) of
      Inl _ \<Rightarrow> c
    | Inr m \<Rightarrow> snd (kc_WriteMonitor (m\<lparr>pm_Spec := edited_spec\<rparr>) c))"

definition orders_arrived :: cluster where
  "orders_arrived = snd (kc_put_monitor orders_unheld
     (empty_cluster\<lparr>kc_Libraries := kc_Libraries orders_cluster, kc_Secrets := kc_Secrets orders_cluster,
        kc_Pods := kc_Pods orders_cluster\<rparr>))"

definition orders_read :: PgpilotMonitor where
  "orders_read = set_meta orders_unheld ((pm_Meta orders_unheld)\<lparr>om_ResourceVersion := utoa 1\<rparr>)"

lemma edited_admitted: "admit_spec (orders_submitted\<lparr>jsp_metrics := sp_Metrics edited_spec\<rparr>) = Some edited_spec"
  by (simp add: edited_spec_def admit_spec_def orders_submitted_def orders_spec_def orders_database_def admit_database_def
      admit_sinks_def admit_prometheus_def admit_image_def admit_credentials_def credential_rules_def
      metrics_valid_def valid_port_def ssl_modes_def SSLModeRequire_def min_length1_def Let_def)

lemma edit_written:
  assumes "fst (kc_GetMonitor orders_key c) = Inr m"
  obtains y where "orders_edit c = snd (kc_put_monitor y c)" "monitor_key y = orders_key" "pm_Spec y = edited_spec"
    "om_DeletionTimestamp (pm_Meta y) = om_DeletionTimestamp (pm_Meta m)"
proof -
  have key: "monitor_key (m\<lparr>pm_Spec := edited_spec\<rparr>) = orders_key"
    using GetMonitor_in(2) [OF assms] by (simp add: monitor_key_def)
  let ?y = "m\<lparr>pm_Spec := edited_spec, pm_Meta := (pm_Meta m)
    \<lparr>om_Generation := om_Generation (pm_Meta m) + (if edited_spec = pm_Spec m then 0 else 1)\<rparr>\<rparr>"
  have "monitor_key ?y = orders_key" using key by (simp add: monitor_key_def)
  moreover have "orders_edit c = snd (kc_put_monitor ?y c)"
    unfolding orders_edit_def assms sum.case kc_WriteMonitor_def key by (simp add: Let_def case_prod_beta)
  ultimately show ?thesis by (intro that [of ?y]) simp_all
qed

lemma edit_holds: "spec_holds orders_key (\<lambda>s. s = edited_spec) (orders_edit c)"
proof (cases "fst (kc_GetMonitor orders_key c)")
  case (Inl err)
  then show ?thesis by (simp add: orders_edit_def spec_holds_def)
next
  case (Inr m)
  obtain y where "orders_edit c = snd (kc_put_monitor y c)" "monitor_key y = orders_key" "pm_Spec y = edited_spec"
    using Inr by (rule edit_written)
  then show ?thesis by (auto intro: spec_holds_put)
qed

lemma edit_others: "(other_step b)\<^sup>*\<^sup>* c (orders_edit c)"
proof (cases "fst (kc_GetMonitor orders_key c)")
  case (Inr m)
  have "system_step b c (orders_edit c)"
    unfolding orders_edit_def Inr sum.case by (rule system_step.edit [OF GetMonitor_in(1) [OF Inr] edited_admitted])
  then show ?thesis by (auto intro: other_step.system)
qed (simp add: orders_edit_def)

lemma orders_arrived_concurrent: "concurrent b orders_arrived"
proof -
  have "reachable b (empty_cluster\<lparr>kc_Libraries := kc_Libraries orders_cluster,
      kc_Secrets := kc_Secrets orders_cluster, kc_Pods := kc_Pods orders_cluster\<rparr>)"
    by (rule reach_step [OF reach_empty system_step.surroundings])
  then have "reachable b orders_arrived"
    unfolding orders_arrived_def
    by (rule reach_step) (rule system_step.create [where submitted = orders_submitted],
      simp_all add: empty_cluster_def orders_unheld_def set_meta_def emptyMeta_def orders_admitted [simplified])
  then show ?thesis by (rule reachable_concurrent)
qed

lemma orders_read: "fst (kc_GetMonitor orders_key orders_arrived) = Inr orders_read"
  "om_DeletionTimestamp (pm_Meta orders_read) = None" "finalizerName \<notin> set (om_Finalizers (pm_Meta orders_read))"
  "pm_Spec orders_read = orders_spec"
  by (simp_all add: kc_GetMonitor_def kc_find_def orders_arrived_def orders_read_def orders_unheld_def empty_cluster_def
      kc_put_monitor_def Let_def set_meta_def monitor_key_def orders_key_def emptyMeta_def)

lemma orders_raced:
  obtains m' where "fst (kc_GetMonitor orders_key (orders_edit orders_arrived)) = Inr m'" "pm_Spec m' = edited_spec" "m' \<noteq> orders_read"
proof -
  obtain y where y: "orders_edit orders_arrived = snd (kc_put_monitor y orders_arrived)" "monitor_key y = orders_key"
    "pm_Spec y = edited_spec" "om_DeletionTimestamp (pm_Meta y) = None"
    using edit_written [OF orders_read(1)] orders_read(2) by metis
  let ?m' = "set_meta y ((pm_Meta y)\<lparr>om_ResourceVersion := utoa (Suc (kc_Revision orders_arrived))\<rparr>)"
  have "monitor_key ?m' = orders_key" "pm_Spec ?m' = edited_spec" using y(2,3) by (simp_all add: set_meta_def monitor_key_def)
  moreover have "edited_spec \<noteq> orders_spec" by (simp add: edited_spec_def orders_spec_def)
  ultimately show ?thesis
    using y orders_read(4) by (intro that [of ?m']) (auto simp: kc_GetMonitor_def kc_find_def kc_put_monitor_def Let_def)
qed

lemma orders_moves: "moves_of_others b [id, orders_edit]"
  using edit_others by (simp add: moves_of_others_def)

lemma orders_race_lost:
  obtains s' where "interleaved b orders_key orders_arrived [id, orders_edit] = (Done emptyResult (Some kc_conflict), s')"
    "world s' = (orders_edit orders_arrived, [])"
proof -
  obtain m' where m': "fst (kc_GetMonitor orders_key (orders_edit orders_arrived)) = Inr m'" "m' \<noteq> orders_read"
    by (rule orders_raced)
  have "timestamp_IsZero (om_DeletionTimestamp (pm_Meta orders_read)) \<longleftrightarrow> finalizerName \<notin> set (om_Finalizers (pm_Meta orders_read))"
    using orders_read by (simp add: timestamp_IsZero_def)
  from race_lost [where race = orders_edit and es = "[]", OF concurrent_ok concurrent_numbered orders_read(1) this
      others_evolve [OF edit_others] m', OF orders_arrived_concurrent orders_arrived_concurrent]
  show ?thesis using that by blast
qed

text \<open>
  C8: The invariant of the system does not depend on reconciles being atomic: in every state that
  users, other controllers and reconciles can bring about, with their requests interleaved in any
  order, there is one monitor per key and one child per kind and name, every child has exactly one
  owner reference, the controller reference to the monitor it is named after, and every stored
  specification is valid.
\<close>

theorem concurrent_invariant:
  assumes "concurrent b c"
  shows "distinct (map monitor_key (kc_Monitors c)) \<and> distinct (map child_id (kc_Children c))
     \<and> list_all owned_child (kc_Children c) \<and> list_all (\<lambda>m. spec_valid (pm_Spec m)) (kc_Monitors c)"
  using concurrent_ok [OF assms] by (simp add: system_ok_def kc_wf_def monitors_typed_def)

theorem concurrent_invariant_witness:
  "\<exists>c m. concurrent True c \<and> m \<in> set (kc_Monitors c) \<and> pm_Spec m = edited_spec \<and> spec_valid (pm_Spec m)
     \<and> distinct (map monitor_key (kc_Monitors c))"
proof -
  obtain s' where run: "interleaved True orders_key orders_arrived [id, orders_edit] = (Done emptyResult (Some kc_conflict), s')"
    and w: "world s' = (orders_edit orders_arrived, [])" by (rule orders_race_lost)
  have c: "concurrent True (orders_edit orders_arrived)"
    using concurrent_reconcile [OF orders_arrived_concurrent orders_moves, of True orders_key] by (simp add: run w)
  obtain m' where m': "fst (kc_GetMonitor orders_key (orders_edit orders_arrived)) = Inr m'" "pm_Spec m' = edited_spec"
    by (rule orders_raced)
  note stored = GetMonitor_in(1) [OF m'(1)]
  have "distinct (map monitor_key (kc_Monitors (orders_edit orders_arrived))) \<and> spec_valid (pm_Spec m')"
    using concurrent_invariant [OF c] stored by (simp add: list_all_iff)
  with c stored m'(2) show ?thesis by blast
qed

theorem edit_survives_reconcile_witness:
  "\<exists>out s' m. interleaved True orders_key orders_arrived [id, orders_edit] = (out, s')
     \<and> fst (kc_GetMonitor orders_key (fst (world s'))) = Inr m
     \<and> (pm_Spec m = edited_spec \<or> pm_Spec m = fill_spec edited_spec)"
proof -
  obtain s' where run: "interleaved True orders_key orders_arrived ([id] @ orders_edit # []) = (Done emptyResult (Some kc_conflict), s')"
    and w: "world s' = (orders_edit orders_arrived, [])" using orders_race_lost [of True] by auto
  have "spec_holds orders_key (\<lambda>s. s = edited_spec \<or> s = fill_spec edited_spec) (fst (world s'))"
    by (rule edit_survives_reconcile [OF orders_arrived_concurrent _ admit_spec_valid [OF edited_admitted] edit_holds _ run])
      (simp_all add: orders_moves w)
  then show ?thesis using orders_raced run w by (auto simp: spec_holds_def)
qed

theorem lost_race_changes_nothing_witness:
  "\<exists>s'. interleaved True orders_key orders_arrived [id, orders_edit] = (Done emptyResult (Some kc_conflict), s')
     \<and> world s' = (orders_edit orders_arrived, [])"
proof -
  obtain m' where m': "fst (kc_GetMonitor orders_key (orders_edit orders_arrived)) = Inr m'" "m' \<noteq> orders_read"
    by (rule orders_raced)
  have "timestamp_IsZero (om_DeletionTimestamp (pm_Meta orders_read)) \<longleftrightarrow> finalizerName \<notin> set (om_Finalizers (pm_Meta orders_read))"
    using orders_read by (simp add: timestamp_IsZero_def)
  from lost_race_changes_nothing [where race = orders_edit and es = "[]", OF orders_arrived_concurrent orders_read(1) this edit_others m']
  show ?thesis .
qed

lemma edit_alive: "alive orders_key c \<Longrightarrow> alive orders_key (orders_edit c)"
proof -
  assume "alive orders_key c"
  then obtain m where "fst (kc_GetMonitor orders_key c) = Inr m" "om_DeletionTimestamp (pm_Meta m) = None" by (auto simp: alive_def)
  then obtain y where y: "orders_edit c = snd (kc_put_monitor y c)" "monitor_key y = orders_key" "om_DeletionTimestamp (pm_Meta y) = None"
    using edit_written by metis
  have "monitor_key (set_meta y ((pm_Meta y)\<lparr>om_ResourceVersion := v\<rparr>)) = orders_key" for v
    using y(2) by (simp add: set_meta_def monitor_key_def)
  then show ?thesis
    using y(2,3) by (simp add: alive_def y(1) kc_GetMonitor_def kc_find_def kc_put_monitor_def Let_def) (simp add: set_meta_def)
qed

theorem status_survives_races_witness:
  "\<exists>s' stored. patchStatus (busy_reconciler True) orders \<lparr>world = (orders_arrived, replicate 9 orders_edit), journal = []\<rparr> = (None, s')
     \<and> fst (kc_GetMonitor orders_key (fst (world s'))) = Inr stored \<and> pm_Status stored = pm_Status orders"
proof -
  have key: "monitor_key orders = orders_key" by (simp add: monitor_key_def orders_key_def emptyMeta_def)
  have "alive (monitor_key orders) orders_arrived" using orders_read by (simp add: alive_def key)
  moreover have "\<forall>e \<in> set (replicate 9 orders_edit). \<forall>c. alive (monitor_key orders) c \<longrightarrow> alive (monitor_key orders) (e c)"
    by (simp add: key edit_alive)
  ultimately show ?thesis using status_survives_races [of orders orders_arrived "replicate 9 orders_edit" True "[]"] by (simp add: key)
qed

text \<open>The bound is sharp: a tenth interruption can use up the last attempt, and the conflict is returned.\<close>

lemma busy_attempt_starved:
  assumes "fst (kc_GetMonitor (monitor_key m) (e c)) = Inr latest" "fst (kc_GetMonitor (monitor_key m) (e (e c))) = Inr cur"
    and "om_ResourceVersion (pm_Meta latest) \<noteq> om_ResourceVersion (pm_Meta cur)"
    and "world s = (c, e # e # es)"
  shows "\<exists>s'. patchStatus_attempt (busy_reconciler b) m s = (Some kc_conflict, s') \<and> world s' = (e (e c), es)"
proof -
  have "monitor_key (latest\<lparr>pm_Status := st\<rparr>) = monitor_key m" for st
    using GetMonitor_in(2) [OF assms(1)] by (simp add: monitor_key_def)
  then have "kc_UpdateMonitorStatus (latest\<lparr>pm_Status := st\<rparr>) (e (e c)) = (Some kc_conflict, e (e c))" for st
    using assms(2,3) by (simp add: kc_UpdateMonitorStatus_def)
  then show ?thesis
    using assms(1,4)
    by (simp add: patchStatus_attempt_def on_world_def busy_fields busily_def kc_GetMonitor_def Let_def emit_def)
qed

lemma busy_attempts_starved:
  assumes step: "\<And>c. I c \<Longrightarrow> I (e c)" and stored: "\<And>c. I c \<Longrightarrow> \<exists>x. fst (kc_GetMonitor (monitor_key m) c) = Inr x"
    and changed: "\<And>c x y. I c \<Longrightarrow> fst (kc_GetMonitor (monitor_key m) c) = Inr x \<Longrightarrow>
      fst (kc_GetMonitor (monitor_key m) (e c)) = Inr y \<Longrightarrow> om_ResourceVersion (pm_Meta x) \<noteq> om_ResourceVersion (pm_Meta y)"
    and "I c" "world s = (c, replicate (2 * n + 2) e)"
  shows "\<exists>s'. attempts n (patchStatus_attempt (busy_reconciler b) m) s = (Some kc_conflict, s')"
  using assms(4,5)
proof (induction n arbitrary: c s)
  case 0
  obtain x y where "fst (kc_GetMonitor (monitor_key m) (e c)) = Inr x" "fst (kc_GetMonitor (monitor_key m) (e (e c))) = Inr y"
    using stored step 0(1) by meson
  from busy_attempt_starved [OF this changed [OF step [OF 0(1)] this], of s "[]" b] 0(2) show ?case
    by (auto simp: eval_nat_numeral)
next
  case (Suc n)
  obtain x y where "fst (kc_GetMonitor (monitor_key m) (e c)) = Inr x" "fst (kc_GetMonitor (monitor_key m) (e (e c))) = Inr y"
    using stored step Suc.prems(1) by meson
  from busy_attempt_starved [OF this changed [OF step [OF Suc.prems(1)] this], of s "replicate (2 * n + 2) e" b] Suc.prems(2)
  obtain s' where run: "patchStatus_attempt (busy_reconciler b) m s = (Some kc_conflict, s')"
    and w: "world s' = (e (e c), replicate (2 * n + 2) e)" by (auto simp: eval_nat_numeral)
  from Suc.IH [OF step [OF step [OF Suc.prems(1)]] w] run show ?case by (simp add: kc_conflict_def)
qed

lemma edit_changes_version:
  assumes "numbered c" "fst (kc_GetMonitor orders_key c) = Inr x" "fst (kc_GetMonitor orders_key (orders_edit c)) = Inr y"
  shows "om_ResourceVersion (pm_Meta x) \<noteq> om_ResourceVersion (pm_Meta y)"
proof -
  obtain z where z: "orders_edit c = snd (kc_put_monitor z c)" "monitor_key z = orders_key" using edit_written [OF assms(2)] by metis
  have y: "y \<in> set (kc_Monitors (snd (kc_put_monitor z c)))" "monitor_key y = orders_key"
    using GetMonitor_in [OF assms(3)] by (simp_all add: z(1))
  then have "om_ResourceVersion (pm_Meta y) = utoa (Suc (kc_Revision c))"
    using z(2) by (auto simp: kc_put_monitor_def Let_def set_meta_def split: if_splits)
  moreover obtain i where "i \<le> kc_Revision c" "om_ResourceVersion (pm_Meta x) = utoa i"
    using assms(1) GetMonitor_in(1) [OF assms(2)] by (auto simp: numbered_def)
  ultimately show ?thesis using utoa_inject [of i "Suc (kc_Revision c)"] by auto
qed

lemma status_race_bound_sharp:
  "\<exists>s'. patchStatus (busy_reconciler b) orders \<lparr>world = (orders_arrived, replicate 10 orders_edit), journal = []\<rparr> = (Some kc_conflict, s')"
proof -
  have key: "monitor_key orders = orders_key" by (simp add: monitor_key_def orders_key_def emptyMeta_def)
  let ?I = "\<lambda>c. alive orders_key c \<and> numbered c"
  have "?I (orders_edit c)" if "?I c" for c
    using that edit_alive evolves_numbered [OF others_evolve [OF edit_others]] by simp
  moreover have "?I orders_arrived" using orders_read concurrent_numbered [OF orders_arrived_concurrent] by (simp add: alive_def)
  ultimately have "\<exists>s'. attempts 4 (patchStatus_attempt (busy_reconciler b) orders)
      \<lparr>world = (orders_arrived, replicate 10 orders_edit), journal = []\<rparr> = (Some kc_conflict, s')"
    by (intro busy_attempts_starved [where I = ?I and e = orders_edit and c = orders_arrived])
      (auto simp: key alive_def dest: edit_changes_version)
  then show ?thesis by (simp add: patchStatus_def busy_fields)
qed

end
