(* ===== verification/StatusSchema.thy ===== *)
theory StatusSchema
  imports Scenario
begin

text \<open>
  The statuses the operator writes against the schema of \<open>metav1.Condition\<close> (\<open>config/crd/bases\<close>): the
  server would reject a status with a malformed reason or with two conditions of one type, and the
  reconcile could then never report anything.
\<close>

section \<open>The schema\<close>

definition ascii_between :: "nat \<Rightarrow> nat \<Rightarrow> char \<Rightarrow> bool" where
  "ascii_between a b c \<longleftrightarrow> a \<le> (of_char c :: nat) \<and> (of_char c :: nat) \<le> b"

definition letter :: "char \<Rightarrow> bool" where
  "letter c \<longleftrightarrow> ascii_between 65 90 c \<or> ascii_between 97 122 c"

definition alnum :: "char \<Rightarrow> bool" where
  "alnum c \<longleftrightarrow> letter c \<or> ascii_between 48 57 c"

text \<open>\<open>^[A-Za-z]([A-Za-z0-9_,:]*[A-Za-z0-9_])?$\<close>, 1 to 1024 characters.\<close>

definition reason_valid :: "string \<Rightarrow> bool" where
  "reason_valid s \<longleftrightarrow>
     s \<noteq> [] \<and> length s \<le> 1024 \<and> letter (hd s) \<and> (alnum (last s) \<or> last s = CHR ''_'')
     \<and> list_all (\<lambda>c. alnum c \<or> c \<in> set ''_,:'') s"

text \<open>The pattern of condition types without the optional domain prefix, which the operator does not use.\<close>

definition type_valid :: "string \<Rightarrow> bool" where
  "type_valid s \<longleftrightarrow>
     s \<noteq> [] \<and> length s \<le> 316 \<and> alnum (hd s) \<and> alnum (last s) \<and> list_all (\<lambda>c. alnum c \<or> c \<in> set ''-_.'') s"

definition condition_conforms :: "Condition \<Rightarrow> bool" where
  "condition_conforms c \<longleftrightarrow> type_valid (cd_Type c) \<and> reason_valid (cd_Reason c)"

text \<open>The types that the comment on \<open>Conditions\<close> documents.\<close>

definition monitor_condition_types :: "string list" where
  "monitor_condition_types = [''Ready'', ''ConfigGenerated'', ''DatabaseReachable'']"

definition library_condition_types :: "string list" where
  "library_condition_types = [''Valid'']"

text \<open>A list of conditions that extends an old one by documented, conforming conditions.\<close>

definition conforming_update :: "string list \<Rightarrow> Condition list \<Rightarrow> Condition list \<Rightarrow> bool" where
  "conforming_update types old new \<longleftrightarrow>
     distinct (map cd_Type new)
     \<and> (\<forall>c \<in> set new. c \<in> set old \<or> cd_Type c \<in> set types \<and> condition_conforms c)"

lemma conforming_update_refl: "distinct (map cd_Type old) \<Longrightarrow> conforming_update types old old"
  by (simp add: conforming_update_def)

lemma find_condition_distinct: "distinct (map cd_Type cs) \<Longrightarrow> c \<in> set cs \<Longrightarrow> find_condition cs (cd_Type c) = Some c"
  by (induction cs) (auto simp: find_condition_def)

lemma find_condition_in: "find_condition cs ty = Some c \<Longrightarrow> c \<in> set cs"
  by (auto simp: find_condition_def find_Some_iff)


text \<open>What the upsert of a conforming condition leaves.\<close>

lemma upsert_conforming:
  assumes contract: "condition_contract set_cond" and old: "conforming_update types old cs"
    and c: "cd_Type c \<in> set types" "condition_conforms c"
  shows "conforming_update types old (set_cond t cs c)"
proof -
  let ?new = "set_cond t cs c"
  have distinct: "distinct (map cd_Type ?new)"
    using condition_contract.set_types [OF contract] old by (simp add: conforming_update_def)
  have "x \<in> set old \<or> cd_Type x \<in> set types \<and> condition_conforms x" if x: "x \<in> set ?new" for x
  proof (cases "cd_Type x = cd_Type c")
    case True
    then have "find_condition ?new (cd_Type c) = Some x" using find_condition_distinct [OF distinct x] by simp
    then have "condition_content x = condition_content c"
      using condition_contract.set_same [OF contract, of t cs c] by simp
    with True c show ?thesis by (simp add: condition_content_def condition_conforms_def)
  next
    case False
    then have "find_condition cs (cd_Type x) = Some x"
      using condition_contract.set_other [OF contract] find_condition_distinct [OF distinct x] by simp
    then show ?thesis using old find_condition_in by (auto simp: conforming_update_def)
  qed
  with distinct show ?thesis by (simp add: conforming_update_def)
qed

section \<open>What the controllers write\<close>

lemmas schema_defs = reason_valid_def type_valid_def alnum_def letter_def ascii_between_def

lemma type_valid_simps [simp]:
  "type_valid ''Ready''" "type_valid ''ConfigGenerated''" "type_valid ''DatabaseReachable''" "type_valid ''Valid''"
  by (simp_all add: schema_defs)

lemma reason_valid_simps [simp]:
  "reason_valid ''InlineCredentials''" "reason_valid ''SecretNotFound''" "reason_valid ''CredentialsFound''"
  "reason_valid ''NoCredentials''" "reason_valid ''LibraryResolveFailed''" "reason_valid ''ConfigMapUpdated''"
  "reason_valid ''PodRunning''" "reason_valid ''PodNotReady''" "reason_valid ''Valid''" "reason_valid ''Empty''"
  by (simp_all add: schema_defs)

lemma monitor_types_simps [simp]:
  "''Ready'' \<in> set monitor_condition_types" "''ConfigGenerated'' \<in> set monitor_condition_types"
  "''DatabaseReachable'' \<in> set monitor_condition_types"
  by (simp_all add: monitor_condition_types_def)

definition monitor_update :: "PgpilotMonitor \<Rightarrow> PgpilotMonitor \<Rightarrow> bool" where
  "monitor_update m m' \<longleftrightarrow>
     conforming_update monitor_condition_types (st_Conditions (pm_Status m)) (st_Conditions (pm_Status m'))"

lemma monitor_update_fields [simp]:
  "monitor_update m0 (m\<lparr>pm_Status := (pm_Status m)\<lparr>st_ConfigHash := h\<rparr>\<rparr>) = monitor_update m0 m"
  "monitor_update m0 (m\<lparr>pm_Status := (pm_Status m)\<lparr>st_PodName := p\<rparr>\<rparr>) = monitor_update m0 m"
  "monitor_update m0 (m\<lparr>pm_Status := (pm_Status m)\<lparr>st_Ready := b, st_ObservedGeneration := g, st_LastReconciled := t\<rparr>\<rparr>)
     = monitor_update m0 m"
  by (simp_all add: monitor_update_def)

definition writes_update :: "PgpilotMonitor \<Rightarrow> effect \<Rightarrow> bool" where
  "writes_update m e \<longleftrightarrow> (case e of EffStatus m' \<Rightarrow> monitor_update m m' | _ \<Rightarrow> True)"

lemma writes_update_other [simp]:
  "writes_update m (EffUpdate x)" "writes_update m (EffApply c)" "writes_update m (EffEvent ty re msg)"
  by (simp_all add: writes_update_def)

lemma setCondition_update:
  assumes "setCondition r m ty st re msg s = (m', s')" "condition_contract (cl_SetStatusCondition (r_Lib r))"
    and "monitor_update m0 m" "ty \<in> set monitor_condition_types" "type_valid ty" "reason_valid re"
  shows "monitor_update m0 m'"
proof -
  obtain now c where "st_Conditions (pm_Status m') = cl_SetStatusCondition (r_Lib r) now (st_Conditions (pm_Status m)) c"
    and "cd_Type c = ty" "cd_Reason c = re"
    using assms(1) by (auto simp: setCondition_def Let_def split: prod.splits)
  then show ?thesis using upsert_conforming [OF assms(2) assms(3) [unfolded monitor_update_def]] assms(4-6) by (simp add: condition_conforms_def monitor_update_def)
qed

lemma patchStatus_update:
  assumes "patchStatus r m s = (res, s')" "retry_contract (api_RetryOnConflict (r_Client r) DefaultRetry)" "monitor_update m0 m"
  shows "emits (writes_update m0) s s'"
  by (rule emits_mono [OF patchStatus_emits [OF assms(2,1)]])
    (use assms(3) in \<open>auto simp: writes_update_def status_of_def monitor_update_def split: effect.splits\<close>)

lemma recordEvent_update: "emits (writes_update m0) s (recordEvent ty re msg s)"
  by (simp add: recordEvent_def emits_emit)

text \<open>
  Every step of the loop turns a monitor with conforming conditions into one, and writes such statuses
  only.
\<close>

context controller_contract begin

lemmas set_update = setCondition_update [OF _ condition_ok]
  and written = monitor_types_simps type_valid_simps reason_valid_simps
  and patch_update = patchStatus_update [OF _ retry_ok]

lemma validate_update:
  assumes "validateCredentials r m s = ((res, ok), m', s')" "monitor_update m0 m"
  shows "monitor_update m0 m' \<and> emits (writes_update m0) s s'"
proof -
  note moves = emits_on_world [where P = "writes_update m0"] setCondition_emits [where P = "writes_update m0"]
  have "monitor_update m0 m'"
    using assms
    by (auto simp: validateCredentials_def Let_def split: if_splits option.splits prod.splits intro: set_update written)
  moreover from this assms(1) have "emits (writes_update m0) s s'"
    by (auto simp: validateCredentials_def Let_def split: if_splits option.splits prod.splits
        dest!: moves patch_update intro: emits_trans [OF emits_trans] emits_trans recordEvent_update)
  ultimately show ?thesis by simp
qed

lemma config_update:
  assumes "reconcile_config r m merged s = (Inr (m', h), s')" "monitor_update m0 m"
  shows "monitor_update m0 m'"
proof -
  have set: "monitor_update m0 m1"
    if "setCondition r m ''ConfigGenerated'' ConditionTrue ''ConfigMapUpdated'' msg s1 = (m1, s2)" for msg s1 m1 s2
    using that assms(2) by (rule set_update) simp_all
  from assms(1) show ?thesis
    by (auto simp: reconcile_config_def Let_def split: if_splits option.splits prod.splits sum.splits dest!: set)
qed

lemma apply_writes: "apply_owned r m what c s = (res, s') \<Longrightarrow> emits (writes_update m0) s s'"
  by (erule apply_owned_cases [OF owner_ok]) (simp_all add: emits_def)

lemma config_writes:
  assumes "reconcile_config r m merged s = (res, s')"
  shows "emits (writes_update m0) s s'"
proof -
  note moves = apply_writes [where ?m0.0 = m0] setCondition_emits [where P = "writes_update m0"]
  from assms show ?thesis
    by (auto simp: reconcile_config_def Let_def split: if_splits option.splits prod.splits sum.splits
        dest!: moves intro: emits_trans [OF emits_trans] emits_trans recordEvent_update)
qed

lemma workloads_writes:
  assumes "reconcile_workloads r m merged h s = (res, s')"
  shows "emits (writes_update m0) s s'"
proof -
  note moves = apply_writes [where ?m0.0 = m0]
  from assms show ?thesis
    by (auto simp: reconcile_workloads_def split: if_splits option.splits prod.splits
        dest!: moves intro: emits_trans)
qed

lemma transition_update:
  assumes "ready_transition r m was ready s = (m', s')" "monitor_update m0 m"
  shows "monitor_update m0 m' \<and> emits (writes_update m0) s s'"
proof -
  note moves = setCondition_emits [where P = "writes_update m0"]
  from assms show ?thesis
    by (auto simp: ready_transition_def Let_def split: if_splits prod.splits
        dest: moves intro: set_update written emits_trans recordEvent_update)
qed

lemma status_writes:
  assumes "reconcile_status r m s = (out, s')" "monitor_update m0 m"
  shows "emits (writes_update m0) s s'"
proof -
  let ?k = "\<lparr>nn_Namespace = pm_Namespace m, nn_Name = ResourceName (pm_Name m)\<rparr>"
  obtain res s1 where get: "on_world (api_GetDeployment (r_Client r) ?k) s = (res, s1)" by (meson surj_pair)
  have e1: "emits (writes_update m0) s s1" by (rule emits_on_world [OF get])
  show ?thesis
  proof (cases res)
    case (Inl err)
    with assms(1) get e1 show ?thesis by (simp add: reconcile_status_def)
  next
    case (Inr dep)
    let ?ready = "0 < sint (dep_ReadyReplicas dep)"
    obtain now s2 where now: "on_world (api_Now (r_Client r)) s1 = (now, s2)" by (meson surj_pair)
    define m1 where "m1 = m\<lparr>pm_Status := (pm_Status m)\<lparr>st_Ready := ?ready,
        st_ObservedGeneration := om_Generation (pm_Meta m), st_LastReconciled := Some now\<rparr>\<rparr>"
    obtain m2 s3 where tr: "ready_transition r m1 (st_Ready (pm_Status m)) ?ready s2 = (m2, s3)" by (meson surj_pair)
    obtain m3 s4 where pod: "find_pod r m2 s3 = (m3, s4)" by (meson surj_pair)
    obtain x s5 where patch: "patchStatus r m3 s4 = (x, s5)" by (meson surj_pair)
    have "snd (reconcile_status r m s) = s5"
      unfolding reconcile_status_def get prod.case Inr sum.case Let_def now m1_def [symmetric] tr pod patch
      by (simp split: option.split)
    then have s': "s' = s5" using assms(1) by simp
    have "monitor_update m0 m1" using assms(2) by (simp add: m1_def)
    from transition_update [OF tr this] have m2: "monitor_update m0 m2" and e3: "emits (writes_update m0) s2 s3"
      by simp_all
    have "monitor_update m0 m3" and e4: "emits (writes_update m0) s3 s4"
      using pod m2 by (auto simp: find_pod_def split: prod.splits sum.splits list.splits intro: emits_on_world)
    then have "emits (writes_update m0) s4 s5" using patch_update [OF patch] by simp
    then show ?thesis
      unfolding s' by (rule emits_trans [OF e1 emits_trans [OF emits_on_world [OF now] emits_trans [OF e3 emits_trans [OF e4]]]])
  qed
qed

lemma merged_writes:
  assumes "reconcile_merged r m libs s = (out, s')" "monitor_update m0 m"
  shows "emits (writes_update m0) s s'"
proof -
  obtain res s1 where conf: "reconcile_config r m (merged_of m libs) s = (res, s1)" by (meson surj_pair)
  note e1 = config_writes [OF conf, of m0]
  show ?thesis
  proof (cases res)
    case (Inl err)
    with assms(1) conf e1 show ?thesis by (simp add: reconcile_merged_def)
  next
    case (Inr p)
    obtain m1 h where p: "p = (m1, h)" by (cases p)
    have m1: "monitor_update m0 m1" using config_update conf assms(2) unfolding Inr p by blast
    obtain x s2 where work: "reconcile_workloads r m1 (merged_of m libs) h s1 = (x, s2)" by (meson surj_pair)
    note e2 = emits_trans [OF e1 workloads_writes [OF work]]
    have "s' = s2 \<or> reconcile_status r m1 s2 = (out, s')"
      using assms(1) by (auto simp: reconcile_merged_def conf Inr p work split: option.splits)
    then show ?thesis using e2 emits_trans [OF e2] status_writes m1 by blast
  qed
qed

lemma spec_writes:
  assumes "reconcile_spec r m s = (out, s')" "monitor_update m0 m"
  shows "emits (writes_update m0) s s'"
proof -
  obtain res ok m1 s1 where val: "validateCredentials r m s = ((res, ok), m1, s1)" by (metis surj_pair)
  from validate_update [OF val assms(2)] have m1: "monitor_update m0 m1" and e1: "emits (writes_update m0) s s1"
    by simp_all
  show ?thesis
  proof (cases ok)
    case False
    with assms(1) val e1 show ?thesis by (simp add: reconcile_spec_def)
  next
    case True
    obtain lib s2 where lib: "resolveLibraries r m1 s1 = (lib, s2)" by (meson surj_pair)
    have e2: "emits (writes_update m0) s1 s2" by (rule emits_same [OF resolveLibraries_journal [OF lib]])
    show ?thesis
    proof (cases lib)
      case (Inr libs)
      then have "reconcile_merged r m1 libs s2 = (out, s')" using assms(1) val True lib by (simp add: reconcile_spec_def)
      from merged_writes [OF this m1] show ?thesis by (rule emits_trans [OF e1 emits_trans [OF e2]])
    next
      case (Inl err)
      obtain m2 s3 where set: "setCondition r m1 ''Ready'' ConditionFalse ''LibraryResolveFailed'' (err_Error err) s2 = (m2, s3)"
        by (meson surj_pair)
      let ?s4 = "recordEvent EventTypeWarning ''LibraryResolveFailed''
          (''Failed to resolve metric libraries: '' @ err_Error err) s3"
      obtain x where "patchStatus r m2 ?s4 = (x, s')"
        using assms(1) val True lib Inl set by (auto simp: reconcile_spec_def Let_def split: prod.splits)
      then have "emits (writes_update m0) ?s4 s'" by (rule patch_update) (simp add: set_update [OF set m1])
      then show ?thesis
        by (rule emits_trans [OF e1 emits_trans [OF e2 emits_trans [OF setCondition_emits [OF set]
              emits_trans [OF recordEvent_update]]]])
    qed
  qed
qed

end

section \<open>Statuses the server accepts\<close>

definition status_conforms :: "PgpilotMonitor \<Rightarrow> effect \<Rightarrow> bool" where
  "status_conforms m e \<longleftrightarrow>
     (case e of
        EffStatus m' \<Rightarrow>
          distinct (map cd_Type (st_Conditions (pm_Status m')))
          \<and> (\<forall>c \<in> set (st_Conditions (pm_Status m')). c \<in> set (st_Conditions (pm_Status m))
               \<or> cd_Type c \<in> set monitor_condition_types \<and> condition_conforms c)
      | _ \<Rightarrow> True)"

text \<open>
  C17: Every status a reconcile writes for a live monitor, on every path, is one the CRD schema accepts:
  one condition per type, and each condition either is one the monitor had or has a documented type
  (Ready, ConfigGenerated, DatabaseReachable) and a well-formed type and reason. The one condition of
  the library controller conforms as well.
\<close>

theorem statuses_conform:
  assumes "controller_contract r" "live_read r req s m" "Reconcile r req s = (out, s')"
    and "distinct (map cd_Type (st_Conditions (pm_Status m)))"
  shows "(\<exists>es. journal s' = journal s @ es \<and> list_all (status_conforms m) es)
     \<and> cd_Type (valid_condition lib) \<in> set library_condition_types \<and> condition_conforms (valid_condition lib)"
proof -
  obtain s0 where same: "journal s0 = journal s" and run: "Reconcile r req s = reconcile_spec r m s0"
    using assms(2) by (rule Reconcile_live)
  have "monitor_update m m" using assms(4) by (simp add: monitor_update_def conforming_update_refl)
  moreover have "reconcile_spec r m s0 = (out, s')" using run assms(3) by simp
  ultimately have "emits (writes_update m) s0 s'"
    by (intro controller_contract.spec_writes [OF assms(1)])
  moreover have "writes_update m = status_conforms m"
    by (auto simp: fun_eq_iff writes_update_def status_conforms_def monitor_update_def conforming_update_def
        split: effect.split)
  moreover have "condition_conforms (valid_condition lib)"
    by (simp add: condition_conforms_def valid_condition_def Let_def)
  ultimately show ?thesis
    using same by (simp add: emits_def library_condition_types_def valid_condition_content)
qed

theorem statuses_conform_witness:
  "list_all (status_conforms orders) (journal (snd (Reconcile (cluster_reconciler True) orders_key orders_state)))
   \<and> condition_conforms (valid_condition orders_lib)"
proof -
  obtain out s' where run: "Reconcile (cluster_reconciler True) orders_key orders_state = (out, s')"
    by (cases "Reconcile (cluster_reconciler True) orders_key orders_state")
  show ?thesis
    using statuses_conform [OF cluster.controller_contract_axioms orders_live run, of orders_lib] run
    by (auto simp: orders_def orders_state_def)
qed

end
