(* ===== verification/Rbac.thy ===== *)
theory Rbac
  imports Manager
begin

text \<open>
  The permissions of the operator: the \<open>kubebuilder:rbac\<close> markers of both controllers, which
  generate its ClusterRole, and what an API server does with them. \<open>authorized_client\<close> puts the
  authorizer in front of every request of a client. The manager's client reads through informers, so
  a read of a kind needs \<open>get\<close>, \<open>list\<close> and \<open>watch\<close>; server-side apply needs \<open>create\<close> and \<open>patch\<close>.
  \<open>start_informers\<close> is what a controller does first: it lists and watches every kind it was set up
  for, owns or watches, and does not start where one of them is refused.
\<close>

section \<open>The markers\<close>

record PolicyRule =
  pol_APIGroups :: "string list"
  pol_Resources :: "string list"
  pol_Verbs :: "string list"

definition event_rules :: "PolicyRule list" where
  "event_rules = [\<lparr>pol_APIGroups = [''''], pol_Resources = [''events''], pol_Verbs = [''create'', ''patch'']\<rparr>]"

definition monitor_rules :: "PolicyRule list" where
  "monitor_rules =
     [\<lparr>pol_APIGroups = [''pgpilot.io''], pol_Resources = [''pgpilotmonitors''],
        pol_Verbs = [''get'', ''list'', ''watch'', ''update'', ''patch'']\<rparr>,
      \<lparr>pol_APIGroups = [''pgpilot.io''], pol_Resources = [''pgpilotmonitors/status''],
        pol_Verbs = [''get'', ''update'', ''patch'']\<rparr>,
      \<lparr>pol_APIGroups = [''pgpilot.io''], pol_Resources = [''pgpilotmonitors/finalizers''], pol_Verbs = [''update'']\<rparr>,
      \<lparr>pol_APIGroups = [''pgpilot.io''], pol_Resources = [''pgpilotmetriclibraries''],
        pol_Verbs = [''get'', ''list'', ''watch'']\<rparr>,
      \<lparr>pol_APIGroups = [''monitoring.coreos.com''], pol_Resources = [''servicemonitors''],
        pol_Verbs = [''get'', ''list'', ''watch'', ''create'', ''update'', ''patch'', ''delete'']\<rparr>,
      \<lparr>pol_APIGroups = [''''], pol_Resources = [''configmaps''],
        pol_Verbs = [''get'', ''list'', ''watch'', ''create'', ''update'', ''patch'', ''delete'']\<rparr>,
      \<lparr>pol_APIGroups = [''''], pol_Resources = [''pods''], pol_Verbs = [''get'', ''list'', ''watch'']\<rparr>,
      \<lparr>pol_APIGroups = [''''], pol_Resources = [''secrets''], pol_Verbs = [''get'', ''list'', ''watch'']\<rparr>,
      \<lparr>pol_APIGroups = [''''], pol_Resources = [''services''],
        pol_Verbs = [''get'', ''list'', ''watch'', ''create'', ''update'', ''patch'', ''delete'']\<rparr>,
      \<lparr>pol_APIGroups = [''apps''], pol_Resources = [''deployments''],
        pol_Verbs = [''get'', ''list'', ''watch'', ''create'', ''update'', ''patch'', ''delete'']\<rparr>]"

definition library_rules :: "PolicyRule list" where
  "library_rules =
     [\<lparr>pol_APIGroups = [''pgpilot.io''], pol_Resources = [''pgpilotmetriclibraries''],
        pol_Verbs = [''get'', ''list'', ''watch'']\<rparr>,
      \<lparr>pol_APIGroups = [''pgpilot.io''], pol_Resources = [''pgpilotmetriclibraries/status''],
        pol_Verbs = [''get'', ''update'', ''patch'']\<rparr>]"

text \<open>One ClusterRole holds the markers of both controllers.\<close>

definition operator_rules :: "PolicyRule list" where
  "operator_rules = event_rules @ monitor_rules @ library_rules"

section \<open>The authorizer\<close>

definition allowed :: "PolicyRule list \<Rightarrow> string \<Rightarrow> string \<Rightarrow> string \<Rightarrow> bool" where
  "allowed rules grp resource verb =
     list_ex (\<lambda>p. grp \<in> set (pol_APIGroups p) \<and> resource \<in> set (pol_Resources p) \<and> verb \<in> set (pol_Verbs p)) rules"

definition authorize ::
  "PolicyRule list \<Rightarrow> string \<Rightarrow> string \<Rightarrow> string list \<Rightarrow> (goerror \<Rightarrow> 'r) \<Rightarrow> ('w \<Rightarrow> 'r \<times> 'w) \<Rightarrow> 'w \<Rightarrow> 'r \<times> 'w" where
  "authorize rules grp resource verbs deny request w =
     (if list_all (allowed rules grp resource) verbs then request w
      else (deny (ErrOther (resource @ '' is forbidden'')), w))"

abbreviation read_verbs :: "string list" where
  "read_verbs \<equiv> [''get'', ''list'', ''watch'']"

fun child_resource :: "ChildKind \<Rightarrow> string \<times> string" where
  "child_resource KConfigMap = ('''', ''configmaps'')"
| "child_resource KDeployment = (''apps'', ''deployments'')"
| "child_resource KService = ('''', ''services'')"
| "child_resource KServiceMonitor = (''monitoring.coreos.com'', ''servicemonitors'')"

definition authorized_client :: "PolicyRule list \<Rightarrow> 'w kube_api \<Rightarrow> 'w kube_api" where
  "authorized_client rules c = c
     \<lparr>api_GetMonitor := (\<lambda>k. authorize rules ''pgpilot.io'' ''pgpilotmonitors'' read_verbs Inl (api_GetMonitor c k)),
      api_UpdateMonitor := (\<lambda>m. authorize rules ''pgpilot.io'' ''pgpilotmonitors'' [''update''] Inl (api_UpdateMonitor c m)),
      api_UpdateMonitorStatus := (\<lambda>m. authorize rules ''pgpilot.io'' ''pgpilotmonitors/status'' [''update''] Some
        (api_UpdateMonitorStatus c m)),
      api_GetSecret := (\<lambda>k. authorize rules '''' ''secrets'' read_verbs Some (api_GetSecret c k)),
      api_GetLibrary := (\<lambda>k. authorize rules ''pgpilot.io'' ''pgpilotmetriclibraries'' read_verbs Inl (api_GetLibrary c k)),
      api_UpdateLibraryStatus := (\<lambda>l. authorize rules ''pgpilot.io'' ''pgpilotmetriclibraries/status'' [''update''] Some
        (api_UpdateLibraryStatus c l)),
      api_GetDeployment := (\<lambda>k. authorize rules ''apps'' ''deployments'' read_verbs Inl (api_GetDeployment c k)),
      api_Patch := (\<lambda>obj. case child_resource (child_kind obj) of (grp, resource) \<Rightarrow>
        authorize rules grp resource [''create'', ''patch''] Some (api_Patch c obj)),
      api_ListPods := (\<lambda>ns sel. authorize rules '''' ''pods'' read_verbs Inl (api_ListPods c ns sel)),
      api_ListMonitors := (\<lambda>ns. authorize rules ''pgpilot.io'' ''pgpilotmonitors'' read_verbs Inl (api_ListMonitors c ns))\<rparr>"

text \<open>The kinds of the operator's own API, by the name a controller is set up with.\<close>

fun custom_resource :: "string \<Rightarrow> (string \<times> string) option" where
  "custom_resource kind =
     (if kind = ''PgpilotMonitor'' then Some (''pgpilot.io'', ''pgpilotmonitors'')
      else if kind = ''PgpilotMetricLibrary'' then Some (''pgpilot.io'', ''pgpilotmetriclibraries'')
      else None)"

definition informer_resources :: "ControllerSetup \<Rightarrow> (string \<times> string) option list" where
  "informer_resources ct =
     custom_resource (ct_For ct) # map (\<lambda>k. Some (child_resource k)) (ct_Owns ct) @ map custom_resource (ct_Watches ct)"

fun start_informers :: "PolicyRule list \<Rightarrow> (string \<times> string) option list \<Rightarrow> goerror option" where
  "start_informers rules [] = None"
| "start_informers rules (None # rest) = Some (ErrOther ''no matches for kind'')"
| "start_informers rules (Some (grp, resource) # rest) =
     (if list_all (allowed rules grp resource) [''list'', ''watch''] then start_informers rules rest
      else Some (ErrOther (resource @ '' is forbidden'')))"

lemmas rule_defs = operator_rules_def event_rules_def monitor_rules_def library_rules_def

lemma authorize_allowed:
  "list_all (allowed rules grp resource) verbs \<Longrightarrow> authorize rules grp resource verbs deny f = f"
  by (simp add: authorize_def fun_eq_iff)

text \<open>Every request of the interface is covered, so that the authorizer never steps in.\<close>

lemma operator_reads:
  "list_all (allowed operator_rules ''pgpilot.io'' ''pgpilotmonitors'') read_verbs"
  "list_all (allowed operator_rules ''pgpilot.io'' ''pgpilotmetriclibraries'') read_verbs"
  "list_all (allowed operator_rules '''' ''secrets'') read_verbs"
  "list_all (allowed operator_rules '''' ''pods'') read_verbs"
  "list_all (allowed operator_rules ''apps'' ''deployments'') read_verbs"
  by (simp_all add: allowed_def rule_defs)

lemma operator_writes:
  "list_all (allowed operator_rules ''pgpilot.io'' ''pgpilotmonitors'') [''update'']"
  "list_all (allowed operator_rules ''pgpilot.io'' ''pgpilotmonitors/status'') [''update'']"
  "list_all (allowed operator_rules ''pgpilot.io'' ''pgpilotmetriclibraries/status'') [''update'']"
  by (simp_all add: allowed_def rule_defs)

lemma operator_patches:
  "list_all (allowed operator_rules (fst (child_resource k)) (snd (child_resource k))) [''create'', ''patch'']"
  by (cases k) (simp_all add: allowed_def rule_defs)

lemma authorized_client_operator: "authorized_client operator_rules c = c"
  unfolding authorized_client_def case_prod_beta
  by (simp only: authorize_allowed [OF operator_reads(1)] authorize_allowed [OF operator_reads(2)]
      authorize_allowed [OF operator_reads(3)] authorize_allowed [OF operator_reads(4)]
      authorize_allowed [OF operator_reads(5)] authorize_allowed [OF operator_writes(1)]
      authorize_allowed [OF operator_writes(2)] authorize_allowed [OF operator_writes(3)]
      authorize_allowed [OF operator_patches]) simp

lemma start_informers_iff:
  "start_informers rules rs = None \<longleftrightarrow>
     (\<forall>x \<in> set rs. \<exists>grp resource. x = Some (grp, resource) \<and> list_all (allowed rules grp resource) [''list'', ''watch''])"
  by (induction rules rs rule: start_informers.induct) auto

lemma operator_informers:
  "list_all (allowed operator_rules (fst (child_resource k)) (snd (child_resource k))) [''list'', ''watch'']"
  by (cases k) (simp_all add: allowed_def rule_defs)

lemma monitor_informers: "start_informers operator_rules (informer_resources (SetupWithManager r)) = None"
proof -
  have "start_informers operator_rules (map (\<lambda>k. Some (child_resource k)) ks @ rs) = start_informers operator_rules rs" for ks rs
  proof (induction ks)
    case (Cons k ks)
    with operator_informers [of k] show ?case by (cases "child_resource k") simp
  qed simp
  then show ?thesis
    using operator_reads(1,2) by (simp add: informer_resources_def SetupWithManager_def Let_def)
qed

lemma library_informers: "start_informers operator_rules (informer_resources LibrarySetupWithManager) = None"
  using operator_reads(2) by (simp add: informer_resources_def LibrarySetupWithManager_def)

text \<open>The role with the informer verbs of one kind taken out does not start the monitor controller.\<close>

lemma informers_need_list:
  assumes "k \<in> set (ct_Owns ct)" "\<not> allowed rules (fst (child_resource k)) (snd (child_resource k)) ''list''"
  shows "start_informers rules (informer_resources ct) \<noteq> None"
proof -
  have "Some (child_resource k) \<in> set (informer_resources ct)" using assms(1) by (simp add: informer_resources_def)
  with assms(2) show ?thesis unfolding start_informers_iff by (cases "child_resource k") fastforce
qed

section \<open>Enough and no more\<close>

text \<open>
  C18: The markers grant what the controllers need. Under the role they generate both controllers
  start: every kind they are set up for, own or watch may be listed and watched, whether or not
  ServiceMonitors are owned. Once started, no request of either controller, of the watch that maps
  libraries to monitors or of the event recorder is refused, so both run as with an unrestricted
  client. The role gives no write access to Secrets, Pods or libraries and no
  right to create or delete monitors.
\<close>

theorem rbac_sufficient:
  "Reconcile (r\<lparr>r_Client := authorized_client operator_rules (r_Client r)\<rparr>) = Reconcile r
   \<and> LibraryReconcile (l\<lparr>lrc_Client := authorized_client operator_rules (lrc_Client l)\<rparr>) = LibraryReconcile l
   \<and> libraryToMonitors (r\<lparr>r_Client := authorized_client operator_rules (r_Client r)\<rparr>) = libraryToMonitors r
   \<and> start_informers operator_rules (informer_resources (SetupWithManager r)) = None
   \<and> start_informers operator_rules (informer_resources LibrarySetupWithManager) = None
   \<and> list_all (allowed operator_rules '''' ''events'') [''create'', ''patch'']
   \<and> list_all (\<lambda>verb. \<not> allowed operator_rules '''' ''secrets'' verb \<and> \<not> allowed operator_rules '''' ''pods'' verb
        \<and> \<not> allowed operator_rules ''pgpilot.io'' ''pgpilotmetriclibraries'' verb)
       [''create'', ''update'', ''patch'', ''delete'']
   \<and> list_all (\<lambda>verb. \<not> allowed operator_rules ''pgpilot.io'' ''pgpilotmonitors'' verb) [''create'', ''delete'']"
proof -
  have "list_all (allowed operator_rules '''' ''events'') [''create'', ''patch'']" by (simp add: allowed_def rule_defs)
  moreover have "list_all (\<lambda>verb. \<not> allowed operator_rules '''' ''secrets'' verb
      \<and> \<not> allowed operator_rules '''' ''pods'' verb
      \<and> \<not> allowed operator_rules ''pgpilot.io'' ''pgpilotmetriclibraries'' verb)
     [''create'', ''update'', ''patch'', ''delete'']"
    by (simp add: allowed_def rule_defs)
  moreover have "list_all (\<lambda>verb. \<not> allowed operator_rules ''pgpilot.io'' ''pgpilotmonitors'' verb) [''create'', ''delete'']"
    by (simp add: allowed_def rule_defs)
  ultimately show ?thesis by (simp add: authorized_client_operator monitor_informers library_informers)
qed

end
