(* ===== verification/Scheme.thy ===== *)
theory Scheme
  imports Manager Rbac
begin

text \<open>
  \<open>api/v1/groupversion_info.go\<close> and the registrations in the two \<open>_types.go\<close> files: the builder that
  collects the types of \<open>pgpilot.io/v1\<close>, and what \<open>AddToScheme\<close> makes of a runtime scheme, which maps
  a group, version and kind to a Go type and refuses two types for one kind (a panic, here \<open>None\<close>).
\<close>

section \<open>Builder\<close>

record GroupVersion =
  gv_Group :: string
  gv_Version :: string

record GoType =
  ty_Package :: string
  ty_Name :: string

record SchemeBuilder =
  sb_GroupVersion :: GroupVersion
  sb_Types :: "GoType list"

definition api_v1 :: "string \<Rightarrow> GoType" where
  "api_v1 name = \<lparr>ty_Package = ''github.com/jamalshahverdiev/pgpilot-operator/api/v1'', ty_Name = name\<rparr>"

definition GroupVersion_v1 :: GroupVersion where
  "GroupVersion_v1 = \<lparr>gv_Group = ''pgpilot.io'', gv_Version = ''v1''\<rparr>"

definition emptySchemeBuilder :: SchemeBuilder where
  "emptySchemeBuilder = \<lparr>sb_GroupVersion = GroupVersion_v1, sb_Types = []\<rparr>"

definition Register :: "GoType list \<Rightarrow> SchemeBuilder \<Rightarrow> SchemeBuilder" where
  "Register types sb = sb\<lparr>sb_Types := sb_Types sb @ types\<rparr>"

definition init_library_types :: "SchemeBuilder \<Rightarrow> SchemeBuilder" where
  "init_library_types = Register [api_v1 ''PgpilotMetricLibrary'', api_v1 ''PgpilotMetricLibraryList'']"

definition init_monitor_types :: "SchemeBuilder \<Rightarrow> SchemeBuilder" where
  "init_monitor_types = Register [api_v1 ''PgpilotMonitor'', api_v1 ''PgpilotMonitorList'']"

text \<open>Go runs the \<open>init\<close> functions of a package in the order of its files.\<close>

definition v1_builder :: SchemeBuilder where
  "v1_builder = init_monitor_types (init_library_types emptySchemeBuilder)"

section \<open>Scheme\<close>

type_synonym runtime_scheme = "((GroupVersion \<times> string) \<times> GoType) list"

definition AddKnownType :: "GroupVersion \<Rightarrow> runtime_scheme option \<Rightarrow> GoType \<Rightarrow> runtime_scheme option" where
  "AddKnownType gv s ty =
     (case s of
        None \<Rightarrow> None
      | Some s \<Rightarrow>
          (case map_of s (gv, ty_Name ty) of
             None \<Rightarrow> Some (s @ [((gv, ty_Name ty), ty)])
           | Some ty' \<Rightarrow> if ty' = ty then Some s else None))"

definition AddToScheme :: "SchemeBuilder \<Rightarrow> runtime_scheme \<Rightarrow> runtime_scheme option" where
  "AddToScheme sb s = foldl (AddKnownType (sb_GroupVersion sb)) (Some s) (sb_Types sb)"

text \<open>\<open>ObjectKinds\<close>: under which kinds a type is known; a client needs exactly one.\<close>

definition ObjectKinds :: "runtime_scheme \<Rightarrow> GoType \<Rightarrow> (GroupVersion \<times> string) list" where
  "ObjectKinds s ty = map fst (filter (\<lambda>e. snd e = ty) s)"

lemma ObjectKinds_append [simp]: "ObjectKinds (s @ s') ty = ObjectKinds s ty @ ObjectKinds s' ty"
  by (simp add: ObjectKinds_def)

lemma v1_builder_types:
  "sb_GroupVersion v1_builder = GroupVersion_v1"
  "sb_Types v1_builder = map api_v1 [''PgpilotMetricLibrary'', ''PgpilotMetricLibraryList'', ''PgpilotMonitor'', ''PgpilotMonitorList'']"
  by (simp_all add: v1_builder_def init_monitor_types_def init_library_types_def emptySchemeBuilder_def Register_def)

text \<open>Types of new kinds, with distinct names, are all added, in their order.\<close>

lemma AddKnownTypes_fresh:
  assumes "distinct (map ty_Name types)" "\<And>ty. ty \<in> set types \<Longrightarrow> map_of s (gv, ty_Name ty) = None"
  shows "foldl (AddKnownType gv) (Some s) types = Some (s @ map (\<lambda>ty. ((gv, ty_Name ty), ty)) types)"
  using assms
proof (induction types arbitrary: s)
  case (Cons ty types)
  have "AddKnownType gv (Some s) ty = Some (s @ [((gv, ty_Name ty), ty)])"
    using Cons.prems(2) by (simp add: AddKnownType_def)
  moreover have "map_of (s @ [((gv, ty_Name ty), ty)]) (gv, ty_Name ty') = None" if "ty' \<in> set types" for ty'
  proof -
    have "ty_Name ty' \<noteq> ty_Name ty" using Cons.prems(1) that by (metis distinct.simps(2) image_eqI list.simps(9) set_map)
    with Cons.prems(2) that show ?thesis by (simp add: map_add_def)
  qed
  ultimately show ?case using Cons.IH [of "s @ [((gv, ty_Name ty), ty)]"] Cons.prems(1) by simp
qed simp

text \<open>
  Adding \<open>pgpilot.io/v1\<close> to a scheme that knows neither the group version nor its types (as the one of
  \<open>main\<close> after client-go) does not panic, keeps what the scheme knew, and gives each of the four types
  exactly one kind: its own name under \<open>pgpilot.io/v1\<close>, one of the groups that \<open>main\<close> registers. Every type the two controllers are set up for or
  watch is among them, under the API group that the RBAC markers grant.
\<close>

theorem scheme_knows_types:
  assumes "\<And>e. e \<in> set s \<Longrightarrow> fst (fst e) \<noteq> GroupVersion_v1 \<and> ty_Package (snd e) \<noteq> ty_Package (api_v1 [])"
  shows "\<exists>s'. AddToScheme v1_builder s = Some s' \<and> take (length s) s' = s
     \<and> (\<forall>name \<in> {''PgpilotMonitor'', ''PgpilotMonitorList'', ''PgpilotMetricLibrary'', ''PgpilotMetricLibraryList''}.
          ObjectKinds s' (api_v1 name) = [(GroupVersion_v1, name)])
     \<and> (\<forall>name \<in> set ([ct_For (SetupWithManager r), ct_For LibrarySetupWithManager]
              @ ct_Watches (SetupWithManager r) @ ct_Watches LibrarySetupWithManager).
          ObjectKinds s' (api_v1 name) = [(GroupVersion_v1, name)])
     \<and> gv_Group GroupVersion_v1 @ ''/'' @ gv_Version GroupVersion_v1 \<in> set scheme_groups
     \<and> allowed operator_rules (gv_Group GroupVersion_v1) ''pgpilotmonitors'' ''watch''
     \<and> allowed operator_rules (gv_Group GroupVersion_v1) ''pgpilotmetriclibraries'' ''watch''"
proof -
  let ?names = "[''PgpilotMetricLibrary'', ''PgpilotMetricLibraryList'', ''PgpilotMonitor'', ''PgpilotMonitorList'']"
  let ?s' = "s @ map (\<lambda>ty. ((GroupVersion_v1, ty_Name ty), ty)) (map api_v1 ?names)"
  have "map_of s (GroupVersion_v1, n) = None" for n
    using assms by (fastforce simp: map_of_eq_None_iff)
  then have added: "AddToScheme v1_builder s = Some ?s'"
    unfolding AddToScheme_def v1_builder_types by (intro AddKnownTypes_fresh) (simp_all add: api_v1_def)
  have "ObjectKinds s (api_v1 n) = []" for n
    using assms by (fastforce simp: ObjectKinds_def filter_empty_conv api_v1_def)
  then have kinds: "ObjectKinds ?s' (api_v1 n) = [(GroupVersion_v1, n)]" if "n \<in> set ?names" for n
    using that by (auto simp: ObjectKinds_def api_v1_def)
  have known: "set ([ct_For (SetupWithManager r), ct_For LibrarySetupWithManager]
      @ ct_Watches (SetupWithManager r) @ ct_Watches LibrarySetupWithManager) \<subseteq> set ?names"
    by (simp add: SetupWithManager_def LibrarySetupWithManager_def Let_def)
  have "gv_Group GroupVersion_v1 @ ''/'' @ gv_Version GroupVersion_v1 \<in> set scheme_groups"
    "allowed operator_rules (gv_Group GroupVersion_v1) ''pgpilotmonitors'' ''watch''"
    "allowed operator_rules (gv_Group GroupVersion_v1) ''pgpilotmetriclibraries'' ''watch''"
    using operator_reads(1,2) by (simp_all add: GroupVersion_v1_def scheme_groups_def)
  with added kinds known show ?thesis
    by (intro exI [of _ ?s'] conjI ballI) (simp_all only: append_eq_conv_conj, auto)
qed

theorem scheme_knows_types_witness:
  "\<exists>s'. AddToScheme v1_builder [((\<lparr>gv_Group = ''apps'', gv_Version = ''v1''\<rparr>, ''Deployment''),
        \<lparr>ty_Package = ''k8s.io/api/apps/v1'', ty_Name = ''Deployment''\<rparr>)] = Some s'
     \<and> ObjectKinds s' (api_v1 ''PgpilotMonitor'') = [(GroupVersion_v1, ''PgpilotMonitor'')]"
  using scheme_knows_types [of "[((\<lparr>gv_Group = ''apps'', gv_Version = ''v1''\<rparr>, ''Deployment''),
      \<lparr>ty_Package = ''k8s.io/api/apps/v1'', ty_Name = ''Deployment''\<rparr>)]" undefined]
  by (auto simp: GroupVersion_v1_def api_v1_def)

end
