(* ===== verification/Spec2Isabelle.thy ===== *)
theory Spec2Isabelle
  imports BuilderProperties DeepCopyFacts ManagerProperties Progress Races StatusSchema Scheme
begin

text \<open>
  \<^bold>\<open>pgpilot-operator\<close>: a Kubernetes operator that runs one pgwatch collector per
  \<open>PgpilotMonitor\<close>. This development models the Go code under \<open>src/\<close> and proves what makes it
  correct. Every definition that stands for code has the name the code gives it, or the name of the
  step of a long function it stands for.

  \<^bold>\<open>How the program works.\<close> A reconcile (\<open>internal/controller\<close>) reads a monitor, validates its
  credentials, resolves the metric libraries it references, merges the metrics, builds a ConfigMap, a
  Deployment, a Service and perhaps a ServiceMonitor (\<open>internal/builder\<close>), applies each by
  server-side apply, and reports what it observes in the monitor's status. The builders are pure
  functions of the monitor's metadata and specification (lemmas \<open>..._ignore_status\<close>).

  \<^bold>\<open>Theories and sources.\<close>
  \<^item> \<open>Prelude\<close>: Go maps as association lists whose order is the iteration order (\<open>gomap\<close>).
  \<^item> \<open>GoStrings\<close>, \<open>GoTime\<close>, \<open>Sha256\<close>: what the code uses of Go's standard library, namely
    \<open>strconv.Atoi\<close>, \<open>%d\<close>, \<open>%q\<close>, \<open>sort.Strings\<close>, error values, the double arithmetic of
    \<open>Duration.Seconds\<close>, and SHA-256.
  \<^item> \<open>ApiTypes\<close>: the structs of \<open>api/v1\<close>. \<open>KubeTypes\<close>: the Kubernetes objects the builders fill in.
  \<^item> \<open>Labels\<close> (\<open>labels.go\<close>), \<open>MetricsMerge\<close> (\<open>metrics_merge.go\<close>), \<open>PgwatchBuiltin\<close>
    (\<open>pgwatch_builtin.go\<close>), \<open>ConfigMap\<close> (\<open>configmap.go\<close>), \<open>Workloads\<close> (\<open>deployment.go\<close>,
    \<open>service.go\<close>, \<open>servicemonitor.go\<close>), \<open>Discovery\<close> (\<open>discovery.go\<close>): the builders.
  \<^item> \<open>KubeApi\<close>: the client, the retry and the controller helpers as parameters, with their documented
    behaviour as locales. \<open>MonitorController\<close>: \<open>pgpilotmonitor_controller.go\<close>, one definition per
    step of \<open>Reconcile\<close>; a state is the world behind the client and a journal of the requests and
    events. \<open>Watches\<close>: its \<open>libraryToMonitors\<close> and \<open>SetupWithManager\<close>. \<open>LibraryController\<close>:
    \<open>pgpilotmetriclibrary_controller.go\<close>.
  \<^item> \<open>Admission\<close>: the kubebuilder markers and JSON tags of \<open>api/v1\<close> as what a server does with a
    submitted specification (defaults, bounds, patterns, rules) and what a Go client sends for one;
    \<open>Rbac\<close>: the RBAC markers of both controllers, with an authorizer in front of a client and of the
    informers a controller starts;
    \<open>Scheme\<close>: \<open>groupversion_info.go\<close> and the registrations of the types;
    \<open>StatusSchema\<close>: the conditions of a status against the schema of the CRD.
  \<^item> \<open>Manager\<close>: \<open>cmd/main.go\<close>, with Go's \<open>flag.Parse\<close>; \<open>ManagerProperties\<close>: its theorems.
  \<^item> \<open>DeepHeap\<close>: a store of cells, the contract \<open>deep_copy\<close> and the lemmas that compose it;
    \<open>DeepCopy\<close>: every method of \<open>zz_generated.deepcopy.go\<close>; \<open>DeepCopyFacts\<close>: each copy meets the
    contract, and the theorems about the root types.
  \<^item> \<open>MonitorFacts\<close>, \<open>MonitorSteps\<close>, \<open>ReconcileFacts\<close>: what each step, and then the whole loop, sends,
    records and returns on every branch, over any environment that meets \<open>controller_contract\<close>.
  \<^item> \<open>YamlCanon\<close>, \<open>Cluster\<close>: a YAML writer and an API server (resource versions, the status
    subresource, server-side apply) that meet the contracts; \<open>ClusterFacts\<close>: the loop on that server;
    \<open>Scenario\<close>: the concrete monitor the theorems are run on; \<open>Reread\<close>: the same objects read again, with
    their maps in another order; \<open>SteadyState\<close>: reconciling again.
  \<^item> \<open>ReconcileClosed\<close>: what holds of a reconcile because it holds of each of its requests; \<open>System\<close>:
    the operator, the users, the kubelet and the garbage collector as a state machine on that server;
    \<open>AdmissionProperties\<close>: writing a specification back and the first reconcile; \<open>RequeueLoop\<close>: the work queue around
    \<open>Reconcile\<close>, a partial function, and when it stops.
  \<^item> \<open>Lifecycle\<close>: an abstract machine for the life of a monitor (absent, unheld, held, leaving,
    released), that the system refines it, and the end of a deletion; \<open>Progress\<close>: what the system can
    still reach. \<open>Interleaving\<close>: a client on which others act between any two requests of a reconcile;
    \<open>Races\<close>: resource versions, lost races, edits that survive, and the retry of the status.
  \<^item> \<open>BuilderProperties\<close> holds the theorems about the builders, this theory those about the controllers.

  \<^bold>\<open>Interfaces.\<close> \<open>label_merge\<close> (interpreted by both merges of \<open>labels.go\<close>), \<open>yaml_contract\<close> (sorted
  keys, no NUL in the output: what the hash relies on), \<open>retry_contract\<close>, \<open>condition_contract\<close>,
  \<open>owner_contract\<close>, \<open>finalizer_contract\<close> and their sum \<open>controller_contract\<close>. The last five state
  documented behaviour of client-go and controller-runtime; the interpretations show that one
  environment meets them all. \<open>deep_copy\<close> is the contract of a copy over the store, interpreted by the
  generated copies of the structs. \<open>spec_closed\<close> and its extension \<open>step_closed\<close> ask of a relation
  between states that it contains every step of the loop; \<open>spec_requests\<close> and \<open>request_closed\<close>
  (sublocales of them), and \<open>library_requests\<close> for the other controller, ask it of relations between
  worlds, request by request. They are interpreted by the safety relation of \<open>System\<close>, by the phases
  and the deletion marks of \<open>Lifecycle\<close> and by the growth of resource versions in \<open>Races\<close>.
  \<open>guarded\<close> and \<open>guarded_writes\<close> are their rely and guarantee form: the moves of others lead from one
  predicate to the next, the requests of the reconcile keep the current one; interpreted by the
  invariant, by the versions and by what is known of a specification. \<open>queue_loop\<close> says when a work queue
  returns, interpreted by the requeue of a monitor.

  \<^bold>\<open>What the theorems show.\<close> Safety and order of the requests, the status and the events of a
  reconcile, its error paths and the absence of panics, for any environment; its completion and its
  idempotence on the API server model, when its requeue ends, and the invariants of every state
  reachable there, the declared type of every stored specification among them; the life of a monitor as
  an abstract machine, the end of its deletion, and that readiness stays reachable; that the invariants
  survive any interleaving of the requests with those of others, that no edit is lost, that a lost race
  changes nothing, and how many interruptions a status update bears; that statuses conform to
  the schema, that the builders and the CRD have the same defaults, and that the role is sufficient; the
  independence of deep copies; the order and the safe defaults of the start-up; for the builders, refinement of the merge specification, agreement of the
  rendered files with what pgwatch collects, independence of map order, injectivity of the hashed
  encoding, and the agreement of names, labels, ports and arguments across the objects.

  \<^bold>\<open>Limits.\<close> Go's \<open>int\<close> is a mathematical integer where it only holds intervals and versions; ports
  and generations are words. Doubles are rationals rounded to 53 bits (no denormals or infinities,
  which durations do not reach); the rounding searches exponents with a fuel of 64, enough for any
  quotient of 64-bit numbers. \<open>%q\<close> copies bytes from 128 on. Owner references, conditions, finalizers
  and YAML are used through their contracts. The builders and controllers work on values; that Go's pointers do
  not alias them is what \<open>DeepCopyFacts\<close> shows of the copies the caches hand out. In the store a nil
  and an empty slice are different cells; readers give both as the empty list. Log calls have
  no behaviour to model. The list order of a \<open>gomap\<close> is the order in which one value is visited; Go
  picks a new one at every decoding and every \<open>range\<close>. A reconcile ranges over each map of its input
  once, so that a theorem about one reconcile covers every order by covering every list (the order of the
  merged maps in between is covered by \<open>BuildConfigMap_order\<close>); the theorem
  about a second reconcile quantifies over the order of its maps (\<open>reread_cluster\<close>). The entries of
  labels and annotations are copied into maps and never into text, so their order shows nowhere. Users
  edit specifications in \<open>system_step\<close>; metadata written by others (finalizers among it) is in the
  steps \<open>other_step\<close> of \<open>Races\<close> only, so the lifecycle speaks of a server where only the operator
  touches its finalizer. The embedded registry is any well-formed one: its presets may list metrics
  that it does not define. The API server model compares decoded specifications to decide whether the
  generation grows; lengths count bytes; condition messages are not bounded. The loops that need fuel or
  a measure: the retry of a status update runs at most five times (ten requests, so nine interruptions leave one
  attempt undisturbed); interruptions are a finite list of functions between servers, one before each request, and each
  stands for any number of steps of others; the requeue has no bound, so its
  theorem states exactly when it returns.

  \<^bold>\<open>Not modelled.\<close> The embedded \<open>metrics.yaml\<close> of pgwatch (a parameter), the manifests and the Helm
  chart (data), and the tests and test utilities, which run subprocesses.
\<close>

section \<open>What a reconcile applies\<close>

text \<open>The outcomes of a reconcile that ran to its end.\<close>

definition completed :: "Outcome \<Rightarrow> bool" where
  "completed out \<longleftrightarrow> out = Done emptyResult None \<or> out = Done (requeue_seconds 15) None"

text \<open>
  C1: A reconcile of a live monitor sends requests for a prefix of the children its specification
  and its libraries determine (ConfigMap, Deployment, Service, and the ServiceMonitor when that is
  enabled, in this order), each with the monitor as its controller; when it completes it has sent
  all of them. Without resolved libraries or a configuration that renders it sends none.
\<close>
theorem reconcile_applies_children:
  assumes "controller_contract r" "live_read r req s m" "Reconcile r req s = (out, s')"
  shows "(\<exists>libs cs. resolved_libs r m libs
        \<and> desired_children (r_ServiceMonitorEnabled r) (r_Yaml r) m libs = Some cs
        \<and> sends_upto m s s' cs \<and> (completed out \<longrightarrow> sends_all m s s' cs))
     \<or> applies s s' [] \<and> \<not> completed out"
  using assms
proof (cases rule: live_reconcile_cases)
  case (failed cs err libs)
  then show ?thesis by (auto simp: completed_def)
next
  case (reported cs cm h ready st libs)
  then show ?thesis by (auto simp: completed_def intro: sends_all_upto)
qed (auto simp: completed_def early_exit_def intro: applies_none)

theorem reconcile_applies_children_witness:
  "\<exists>s'. Reconcile (cluster_reconciler True) orders_key orders_state = (Done (requeue_seconds 15) None, s')
     \<and> (\<exists>cs sent. map child_kind cs = [KConfigMap, KDeployment, KService, KServiceMonitor]
          \<and> applies orders_state s' sent \<and> list_all2 (child_request orders) cs sent)"
proof -
  obtain s' where run: "Reconcile (cluster_reconciler True) orders_key orders_state = (Done (requeue_seconds 15) None, s')"
    by (rule orders_run)
  show ?thesis
    using reconcile_applies_children [OF cluster.controller_contract_axioms orders_live run] run
    by (auto simp: completed_def sends_all_def sends_def dest!: desired_children_kinds
        simp: cluster_simps)
qed

text \<open>
  C2: When a reconcile of a live monitor completes, it has read the monitor's Deployment, in the state
  in which all children had been applied, and its last write stores a status that agrees with it: the
  monitor is ready exactly when that Deployment has a ready replica, in the ready flag and in the Ready
  condition (status, reason, message and generation) alike. The status carries the observed generation
  and the hash of the ConfigMap that was applied, and the reconcile asks to be run again in 15 seconds
  exactly when the monitor is not ready.
\<close>
theorem reconcile_reports_status:
  assumes "controller_contract r" "live_read r req s m" "Reconcile r req s = (out, s')" "completed out"
  shows "\<exists>ready st libs cm h cs m1 s1 dep. status_written s' st \<and> status_final m h ready st
     \<and> resolved_libs r m libs \<and> BuildConfigMap (r_Yaml r) m (merged_of m libs) = Inr (cm, h)
     \<and> desired_children (r_ServiceMonitorEnabled r) (r_Yaml r) m libs = Some cs
     \<and> sends_all m s s1 cs \<and> Reconcile r req s = reconcile_status r m1 s1
     \<and> fst (api_GetDeployment (r_Client r) \<lparr>nn_Namespace = pm_Namespace m, nn_Name = ResourceName (pm_Name m)\<rparr>
          (world s1)) = Inr dep
     \<and> ready = (0 < sint (dep_ReadyReplicas dep))
     \<and> out = Done (if ready then emptyResult else requeue_seconds 15) None"
  using assms(1-3)
proof (cases rule: live_reconcile_cases)
  case (reported cs cm h ready st libs)
  obtain m1 s1 dep where "sends_all m s s1 cs" "reconcile_status r m1 s1 = (out, s')"
    "observed_deployment r m s1 = Inr dep" "ready = (0 < sint (dep_ReadyReplicas dep))"
    using reported(9) unfolding deployment_seen_def by blast
  with reported show ?thesis unfolding assms(3) by metis
qed (use assms(4) in \<open>auto simp: completed_def early_exit_def\<close>)

theorem reconcile_reports_status_witness:
  "\<exists>s' st. Reconcile (cluster_reconciler False) orders_key orders_state = (Done (requeue_seconds 15) None, s')
     \<and> status_written s' st \<and> \<not> st_Ready st \<and> st_ObservedGeneration st = 3"
proof -
  obtain s' where run: "Reconcile (cluster_reconciler False) orders_key orders_state = (Done (requeue_seconds 15) None, s')"
    by (rule orders_run)
  show ?thesis
    using reconcile_reports_status [OF cluster.controller_contract_axioms orders_live run] run
    by (auto simp: completed_def status_final_def emptyMeta_def split: if_splits)
qed

text \<open>
  C24: The events of a completed reconcile are exactly the differences between the status it read
  and the status it wrote: one for a new configuration hash, one for a change of readiness, and
  none for a monitor that is already up to date.
\<close>
theorem reconcile_events_are_transitions:
  assumes "controller_contract r" "live_read r req s m" "Reconcile r req s = (out, s')" "completed out"
  shows "\<exists>st. status_written s' st
     \<and> reports s s' ((if st_ConfigHash (pm_Status m) = st_ConfigHash st then []
                      else [(EventTypeNormal, ''ConfigMapUpdated'')])
                     @ transition_events (st_Ready (pm_Status m)) (st_Ready st))"
  using assms(1-3)
proof (cases rule: live_reconcile_cases)
  case (reported cs cm h ready st libs)
  then show ?thesis by (auto simp: status_final_def config_events_def)
qed (use assms(4) in \<open>auto simp: completed_def early_exit_def\<close>)

theorem reconcile_events_are_transitions_witness:
  "\<exists>s' st. Reconcile (cluster_reconciler True) orders_key orders_state = (Done (requeue_seconds 15) None, s')
     \<and> status_written s' st \<and> (st_ConfigHash st \<noteq> [] \<longrightarrow>
         reports orders_state s' ((EventTypeNormal, ''ConfigMapUpdated'') # transition_events False (st_Ready st)))"
proof -
  obtain s' where run: "Reconcile (cluster_reconciler True) orders_key orders_state = (Done (requeue_seconds 15) None, s')"
    by (rule orders_run)
  show ?thesis
    using reconcile_events_are_transitions [OF cluster.controller_contract_axioms orders_live run] run
    by (auto simp: completed_def orders_def)
qed

text \<open>
  C3: On the API server model the loop converges: with the monitor live, its credentials and
  libraries present and its configuration renderable, one reconcile completes, the cluster then
  holds every desired child as requested, and the stored monitor has the final status and an
  unchanged specification.
\<close>
theorem reconcile_delivers:
  assumes "reconcilable req m libs (world s)"
    and "BuildConfigMap canon_yaml m (merged_of m libs) = Inr (cm, h)"
  shows "\<exists>ready s' stored cs.
     ready = (0 < sint (kc_replicas \<lparr>nn_Namespace = pm_Namespace m, nn_Name = ResourceName (pm_Name m)\<rparr> (world s)))
     \<and> Reconcile (cluster_reconciler b) req s = (Done (if ready then emptyResult else requeue_seconds 15) None, s')
     \<and> desired_children b canon_yaml m libs = Some cs \<and> (\<forall>c \<in> set cs. delivered m s' c)
     \<and> fst (kc_GetMonitor req (world s')) = Inr stored
     \<and> pm_Spec stored = pm_Spec m \<and> status_final m h ready (pm_Status stored)"
  by (rule cluster_reconcile [OF assms, of b]) (intro exI conjI; assumption)

theorem reconcile_delivers_witness:
  "\<exists>ready s' cs. Reconcile (cluster_reconciler True) orders_key orders_state =
       (Done (if ready then emptyResult else requeue_seconds 15) None, s')
     \<and> map child_kind cs = [KConfigMap, KDeployment, KService, KServiceMonitor]
     \<and> (\<forall>c \<in> set cs. delivered orders s' c)"
proof -
  obtain cm h where cm: "BuildConfigMap canon_yaml orders (merged_of orders [orders_lib]) = Inr (cm, h)"
    by (rule orders_config)
  have rec: "reconcilable orders_key orders [orders_lib] (world orders_state)"
    using orders_reconcilable by (simp add: orders_state_def)
  obtain ready s' stored cs where
    run: "Reconcile (cluster_reconciler True) orders_key orders_state =
       (Done (if ready then emptyResult else requeue_seconds 15) None, s')"
    and desired: "desired_children True canon_yaml orders [orders_lib] = Some cs"
    and all: "\<forall>c \<in> set cs. delivered orders s' c"
    using reconcile_delivers [OF rec cm, of True] by (elim exE conjE) (rule that)
  have "map child_kind cs = [KConfigMap, KDeployment, KService, KServiceMonitor]"
    using desired_children_kinds [OF desired] by simp
  with run all show ?thesis by (intro exI conjI)
qed

section \<open>Error paths of a reconcile\<close>

text \<open>
  C21: No reconcile panics, whatever the API server, the YAML libraries and the controller libraries
  answer: the nil credentials reference of \<open>buildEnvVars\<close> is unreachable behind
  \<open>validateCredentials\<close>, and the hash is long enough for the slice in the messages.
\<close>
theorem reconcile_never_panics: "fst (Reconcile r req s) \<noteq> Panic"
  by (rule Reconcile_no_panic)

text \<open>
  C22: When the Secret of a live monitor cannot be read, the reconcile stops there: nothing is
  applied, one SecretNotFound warning is recorded, on every such reconcile, and it is run again in
  30 seconds.
\<close>
theorem missing_secret_stops_reconcile:
  assumes "controller_contract r" "live_read r req s m"
    and "db_Username (pm_Database m) = [] \<or> db_Password (pm_Database m) = []"
    and "db_CredentialsSecret (pm_Database m) = Some ref"
    and "fst (api_GetSecret (r_Client r) \<lparr>nn_Namespace = pm_Namespace m, nn_Name = cs_Name ref\<rparr>
        (snd (api_GetMonitor (r_Client r) req (world s)))) = Some err"
  shows "\<exists>s'. Reconcile r req s = (Done (requeue_seconds 30) None, s') \<and> applies s s' []
     \<and> reports s s' [(EventTypeWarning, ''SecretNotFound'')]"
proof -
  obtain s0 where same: "journal s0 = journal s" and w: "world s0 = snd (api_GetMonitor (r_Client r) req (world s))"
    and spec: "Reconcile r req s = reconcile_spec r m s0"
    using assms(2) by (rule Reconcile_live)
  obtain out s' where run: "reconcile_spec r m s0 = (out, s')" by (cases "reconcile_spec r m s0")
  have "early_exit out s0 s' [(EventTypeWarning, ''SecretNotFound'')]"
    by (rule reconcile_spec_missing_secret [OF controller_contract.retry_ok [OF assms(1)] assms(3,4) _ run])
      (simp add: w assms(5))
  then show ?thesis
    using spec run same by (auto simp: early_exit_def reports_def emits_def applies_def applied_none)
qed

theorem missing_secret_stops_reconcile_witness:
  "\<exists>s'. Reconcile (cluster_reconciler True) orders_key (orders_state\<lparr>world := orders_cluster\<lparr>kc_Secrets := []\<rparr>\<rparr>) =
        (Done (requeue_seconds 30) None, s')
     \<and> reports (orders_state\<lparr>world := orders_cluster\<lparr>kc_Secrets := []\<rparr>\<rparr>) s' [(EventTypeWarning, ''SecretNotFound'')]"
proof -
  let ?s = "orders_state\<lparr>world := orders_cluster\<lparr>kc_Secrets := []\<rparr>\<rparr>"
  have live: "live_read (cluster_reconciler True) orders_key ?s orders"
    using orders_live [of True] by (simp add: live_read_def cluster_simps orders_state_def kc_GetMonitor_def)
  show ?thesis
    using missing_secret_stops_reconcile [OF cluster.controller_contract_axioms live]
    by (auto simp: cluster_simps kc_GetSecret_def kc_GetMonitor_def orders_cluster_def)
qed

text \<open>
  C36: A failed validation of the credentials sets the Ready condition to False but leaves the ready
  flag of the status as it was, so the two disagree for a monitor that was ready before.
\<close>
theorem failed_validation_keeps_ready_flag:
  assumes "condition_contract (cl_SetStatusCondition (r_Lib r))"
    and "validateCredentials r m s = ((res, False), m', s')"
  shows "map_option cd_Status (find_condition (st_Conditions (pm_Status m')) ''Ready'') = Some ConditionFalse
     \<and> st_Ready (pm_Status m') = st_Ready (pm_Status m)"
  using validateCredentials_stale [OF assms] by blast

definition orders_was_ready :: PgpilotMonitor where
  "orders_was_ready = orders\<lparr>pm_Status := (pm_Status orders)\<lparr>st_Ready := True\<rparr>\<rparr>"

definition secretless :: "cluster rstate" where
  "secretless = orders_state\<lparr>world := orders_cluster\<lparr>kc_Secrets := []\<rparr>\<rparr>"

theorem failed_validation_keeps_ready_flag_witness:
  "\<exists>res m' s'. validateCredentials (cluster_reconciler True) orders_was_ready secretless = ((res, False), m', s')
     \<and> map_option cd_Status (find_condition (st_Conditions (pm_Status m')) ''Ready'') = Some ConditionFalse
     \<and> st_Ready (pm_Status m')"
proof -
  obtain res ok m' s' where val: "validateCredentials (cluster_reconciler True) orders_was_ready secretless = ((res, ok), m', s')"
    by (cases "validateCredentials (cluster_reconciler True) orders_was_ready secretless") auto
  have "\<not> ok"
    using val
    by (auto simp: validateCredentials_def Let_def cluster_simps on_world_def kc_GetSecret_def secretless_def
        orders_was_ready_def orders_state_def orders_cluster_def split: prod.splits)
  then have run: "validateCredentials (cluster_reconciler True) orders_was_ready secretless = ((res, False), m', s')"
    using val by simp
  from failed_validation_keeps_ready_flag [OF cluster.condition_ok run] run show ?thesis
    by (simp add: orders_was_ready_def)
qed

text \<open>
  A monitor that is being deleted only loses the operator's finalizer: one update without the
  finalizer when it has it, nothing otherwise, and no child is applied or deleted.
\<close>
theorem deletion_only_releases_finalizer:
  assumes "controller_contract r"
    and "fst (api_GetMonitor (r_Client r) req (world s)) = Inr m"
    and "\<not> timestamp_IsZero (om_DeletionTimestamp (pm_Meta m))"
    and "Reconcile r req s = (out, s')"
  shows "if finalizerName \<in> set (om_Finalizers (pm_Meta m))
     then (\<exists>m'. journal s' = journal s @ [EffUpdate m']
        \<and> set (om_Finalizers (pm_Meta m')) = set (om_Finalizers (pm_Meta m)) - {finalizerName}
        \<and> (pm_Meta m')\<lparr>om_Finalizers := []\<rparr> = (pm_Meta m)\<lparr>om_Finalizers := []\<rparr>
        \<and> pm_Spec m' = pm_Spec m \<and> pm_Status m' = pm_Status m)
     else journal s' = journal s \<and> out = Done emptyResult None"
  using assms
proof (cases rule: deleted_reconcile_cases)
  case released
  then show ?thesis by simp
next
  case (held m' err)
  then show ?thesis by auto
qed

definition orders_deleted :: PgpilotMonitor where
  "orders_deleted = set_meta orders ((pm_Meta orders)\<lparr>om_DeletionTimestamp := Some 5\<rparr>)"

theorem deletion_only_releases_finalizer_witness:
  "\<exists>m' s'. journal s' = [EffUpdate m'] \<and> finalizerName \<notin> set (om_Finalizers (pm_Meta m'))
     \<and> snd (Reconcile (cluster_reconciler True) orders_key
          (orders_state\<lparr>world := orders_cluster\<lparr>kc_Monitors := [orders_deleted]\<rparr>\<rparr>)) = s'"
proof -
  let ?s = "orders_state\<lparr>world := orders_cluster\<lparr>kc_Monitors := [orders_deleted]\<rparr>\<rparr>"
  obtain out s' where run: "Reconcile (cluster_reconciler True) orders_key ?s = (out, s')"
    by (cases "Reconcile (cluster_reconciler True) orders_key ?s")
  have read: "fst (api_GetMonitor (r_Client (cluster_reconciler True)) orders_key (world ?s)) = Inr orders_deleted"
    by (simp add: cluster_simps kc_GetMonitor_def kc_find_def orders_deleted_def set_meta_def monitor_key_def
        orders_key_def emptyMeta_def)
  have "\<not> timestamp_IsZero (om_DeletionTimestamp (pm_Meta orders_deleted))"
    by (simp add: orders_deleted_def set_meta_def timestamp_IsZero_def)
  from deletion_only_releases_finalizer [OF cluster.controller_contract_axioms read this run] run show ?thesis
    by (auto simp: orders_deleted_def set_meta_def orders_state_def)
qed


definition orders_new :: PgpilotMonitor where
  "orders_new = set_meta orders ((pm_Meta orders)\<lparr>om_Finalizers := []\<rparr>)"


section \<open>Libraries and watches\<close>

text \<open>
  While the libraries stay put during a reconcile, resolving the references of a monitor returns
  the referenced libraries of its namespace in the order of the references, or the error of the
  first one that cannot be read, with its name.
\<close>
theorem libraries_resolve_in_order:
  assumes "library_snapshot r f"
  shows "fst (resolveLibraries r m s) =
    (let refs = ms_FromLibraries (sp_Metrics (pm_Spec m)); ns = pm_Namespace m
     in case missing_library f ns refs of
          None \<Rightarrow> Inr (map (\<lambda>ref. projr (f (library_key ns ref))) refs)
        | Some ref \<Rightarrow> Inl (ErrWrap (''library '' @ go_quote (lr_Name ref)) (projl (f (library_key ns ref)))))"
  by (rule resolveLibraries_snapshot [OF assms])

definition static_reconciler :: "cluster Reconciler" where
  "static_reconciler = (cluster_reconciler True)
     \<lparr>r_Client := cluster_client\<lparr>api_GetLibrary := (\<lambda>k c. (fst (kc_GetLibrary k orders_cluster), c))\<rparr>\<rparr>"

theorem libraries_resolve_in_order_witness:
  "fst (resolveLibraries static_reconciler orders orders_state) = Inr [orders_lib]"
proof -
  have snap: "library_snapshot static_reconciler (\<lambda>k. fst (kc_GetLibrary k orders_cluster))"
    by (simp add: library_snapshot_def static_reconciler_def)
  have found: "fst (kc_GetLibrary \<lparr>nn_Namespace = ''prod'', nn_Name = ''app''\<rparr> orders_cluster) = Inr orders_lib"
    by (simp add: kc_GetLibrary_def kc_find_def library_name_def orders_cluster_def orders_lib_def emptyMeta_def)
  show ?thesis unfolding libraries_resolve_in_order [OF snap]
    by (simp add: missing_library_def found emptyMeta_def Let_def)
qed

text \<open>
  C32: A changed library enqueues exactly the monitors of its namespace that reference it, each once,
  in the order they are listed; any other object, and a list that fails, enqueue none.
\<close>
theorem library_enqueues_its_monitors:
  "fst (libraryToMonitors r obj s) =
     (case obj of
        WatchedOther \<Rightarrow> []
      | WatchedLibrary lib \<Rightarrow>
          (case fst (api_ListMonitors (r_Client r) (om_Namespace (lib_Meta lib)) (world s)) of
             Inl _ \<Rightarrow> []
           | Inr monitors \<Rightarrow> map monitor_key
               (filter (\<lambda>m. om_Name (lib_Meta lib) \<in> lr_Name ` set (ms_FromLibraries (sp_Metrics (pm_Spec m))))
                 monitors)))"
  by (auto simp: libraryToMonitors_def requests_loop_filter on_world_def split: WatchedObject.split prod.split sum.split)

text \<open>
  The controller owns every kind it applies: a change of any child, ServiceMonitors included
  when they are enabled, starts a reconcile of its monitor.
\<close>
theorem applied_kinds_are_watched:
  assumes "desired_children (r_ServiceMonitorEnabled r) y m libs = Some cs"
  shows "map child_kind cs = ct_Owns (SetupWithManager r)"
  using desired_children_kinds [OF assms] by (simp add: SetupWithManager_Owns)

theorem applied_kinds_are_watched_witness:
  "\<exists>cs. desired_children True canon_yaml orders [] = Some cs
     \<and> map child_kind cs = ct_Owns (SetupWithManager (cluster_reconciler True))"
proof -
  obtain cs where cs: "desired_children True canon_yaml orders [] = Some cs"
    using desired_children_exist [of orders "[]" True] by (auto simp: MergeMetrics_preset buildEnvVars_None)
  then show ?thesis
    using applied_kinds_are_watched [of "cluster_reconciler True" canon_yaml orders "[]" cs]
    by (simp add: cluster_simps)
qed

text \<open>
  C31: The reconcile of a metric library writes one status, with the generation it observed and the
  Valid condition true exactly when the library has metrics, every other condition kept; a library
  that is gone is no error. The comment of the API type calls Valid a syntactic validation of the SQL:
  the controller looks at no statement, one metric is enough.
\<close>
theorem library_status_reported:
  assumes "condition_contract (cl_SetStatusCondition (lrc_Lib r))"
  shows "case fst (api_GetLibrary (lrc_Client r) req (world s)) of
       Inl err \<Rightarrow> fst (LibraryReconcile r req s) = (emptyResult, if IsNotFound err then None else Some err)
         \<and> journal (snd (LibraryReconcile r req s)) = journal s
     | Inr lib \<Rightarrow> (\<exists>lib'. journal (snd (LibraryReconcile r req s)) = journal s @ [EffLibraryStatus lib']
         \<and> library_reported lib lib'
         \<and> map_option cd_Status (find_condition (lst_Conditions (lib_Status lib')) ''Valid'') =
             Some (if ls_Metrics (lib_Spec lib) = [] then ConditionFalse else ConditionTrue))"
proof (cases "fst (api_GetLibrary (lrc_Client r) req (world s))")
  case (Inl err)
  then show ?thesis using LibraryReconcile_unread [OF Inl] by (simp add: IgnoreNotFound_def)
next
  case (Inr lib)
  obtain lib' where lib': "journal (snd (LibraryReconcile r req s)) = journal s @ [EffLibraryStatus lib']"
    "library_reported lib lib'"
    by (rule LibraryReconcile_read [OF assms Inr])
  moreover from lib'(2) have "map_option cd_Status (find_condition (lst_Conditions (lib_Status lib')) ''Valid'') =
      Some (cd_Status (valid_condition lib))"
    by (auto simp: library_reported_def condition_content_def)
  ultimately show ?thesis using Inr by (auto simp: valid_condition_content)
qed

definition cluster_library_reconciler :: "cluster LibraryReconciler" where
  "cluster_library_reconciler = \<lparr>lrc_Client = cluster_client, lrc_Lib = kube_lib\<rparr>"

theorem library_status_reported_witness:
  "\<exists>lib'. journal (snd (LibraryReconcile cluster_library_reconciler
        \<lparr>nn_Namespace = ''prod'', nn_Name = ''app''\<rparr> orders_state)) = [EffLibraryStatus lib']
     \<and> map_option cd_Status (find_condition (lst_Conditions (lib_Status lib')) ''Valid'') = Some ConditionTrue"
proof -
  let ?key = "\<lparr>nn_Namespace = ''prod'', nn_Name = ''app''\<rparr>"
  have cond: "condition_contract (cl_SetStatusCondition (lrc_Lib cluster_library_reconciler))"
    using cluster.condition_ok [of True] by (simp add: cluster_library_reconciler_def cluster_reconciler_def)
  have get: "fst (api_GetLibrary (lrc_Client cluster_library_reconciler) ?key (world orders_state)) = Inr orders_lib"
    by (simp add: cluster_library_reconciler_def cluster_client_def kc_GetLibrary_def kc_find_def
        library_name_def orders_state_def orders_cluster_def orders_lib_def emptyMeta_def)
  have "ls_Metrics (lib_Spec orders_lib) \<noteq> []" "journal orders_state = []"
    by (simp_all add: orders_lib_def orders_state_def)
  then show ?thesis
    using library_status_reported [OF cond, of ?key orders_state] unfolding get by auto
qed

end
